(* ===== verification/Prelude.thy ===== *)
theory Prelude
  imports Main "HOL-Library.Word"
begin

text \<open>
  Shared vocabulary of the development: bytes and Go integers, the outcome of a Go call
  (value, returned error or panic), the built-in \<open>copy\<close>, big-endian conversions between
  byte arrays and integers, and the generic lemmas on them that the component theories use.

  Go arrays \<open>[n]byte\<close> are byte lists of length \<open>n\<close>; the component theories prove the
  lengths.  Go's signed and unsigned integers are \<open>int\<close> with the conversion written out
  where the source converts (\<open>as_u32\<close>, \<open>as_i32\<close>, ...), and words where they are packed
  into bytes.
\<close>

section \<open>Types\<close>

type_synonym byte = "8 word"
type_synonym bytes = "8 word list"
type_synonym uint64 = "64 word"
type_synonym uint256 = "256 word"

text \<open>
  The errors the repository names (types/errors.go) and those it gets from elsewhere;
  \<open>WrappedError\<close> is \<open>fmt.Errorf\<close> with \<open>%w\<close>.
\<close>

datatype goerr =
    FirstOutputMustEGTX
  | SecondOutputInvalid
  | NotHaveEGTXNulldata
  | NotHaveContractAddress
  | PubkeyScriptAddressNumInvalid
  | ErrBlockNotFound
  | ErrTxNotFound
  | HexInvalidByte char
  | HexErrLength
  | NumErrSyntax
  | NumErrRange
  | IndexOutOfRange
  | NilDereference
  | ErrorString string
  | WrappedError string goerr

text \<open>
  What a Go call does: it returns a value with a nil error, it returns a non-nil error, or
  it panics.
\<close>

datatype 'a outcome = Ok 'a | Err goerr | Panic goerr

named_theorems outcome_simps \<open>case rules for outcomes\<close>
named_theorems array_len \<open>lengths of the byte arrays the code builds\<close>

section \<open>Go conversions between integer types\<close>

definition as_u64 :: "int \<Rightarrow> int" where
  "as_u64 x = x mod 2 ^ 64"

definition as_u32 :: "int \<Rightarrow> int" where
  "as_u32 x = x mod 2 ^ 32"

definition as_i64 :: "int \<Rightarrow> int" where
  "as_i64 x = (x + 2 ^ 63) mod 2 ^ 64 - 2 ^ 63"

definition as_i32 :: "int \<Rightarrow> int" where
  "as_i32 x = (x + 2 ^ 31) mod 2 ^ 32 - 2 ^ 31"

definition is_i64 :: "int \<Rightarrow> bool" where
  "is_i64 x \<longleftrightarrow> - (2 ^ 63) \<le> x \<and> x < 2 ^ 63"

section \<open>Arrays, copy and big-endian integers\<close>

definition zeros :: "nat \<Rightarrow> bytes" where
  "zeros n = replicate n 0"

text \<open>\<open>copy(dst[off:lim], src)\<close>: the overwritten \<open>dst\<close>.\<close>

definition copy_into :: "'a list \<Rightarrow> nat \<Rightarrow> nat \<Rightarrow> 'a list \<Rightarrow> 'a list" where
  "copy_into dst off lim src =
     (let n = min (lim - off) (length src) in take off dst @ take n src @ drop (off + n) dst)"

text \<open>The \<open>n\<close> low-order bytes of an integer, most significant first.\<close>

fun be_bytes :: "nat \<Rightarrow> int \<Rightarrow> bytes" where
  "be_bytes 0 v = []"
| "be_bytes (Suc n) v = be_bytes n (v div 256) @ [word_of_int v]"

text \<open>\<open>big.Int.SetBytes\<close>: bytes read as a big-endian unsigned integer.\<close>

definition be_val :: "bytes \<Rightarrow> int" where
  "be_val bs = foldl (\<lambda>a b. a * 256 + uint b) 0 bs"

definition bytes_of :: "string \<Rightarrow> bytes" where
  "bytes_of s = map of_char s"

section \<open>Lemmas on outcomes\<close>

lemma outcome_not_Ok [outcome_simps]: "(\<forall>x. r \<noteq> Ok x) \<longleftrightarrow> (\<exists>e. r = Err e \<or> r = Panic e)"
  by (cases r) auto

section \<open>Lemmas on conversions\<close>

lemma as_i64_id: "is_i64 x \<Longrightarrow> as_i64 x = x"
  by (simp add: as_i64_def is_i64_def)

lemma as_i64_as_u64: "is_i64 x \<Longrightarrow> as_i64 (as_u64 x) = x"
  by (simp add: as_i64_def as_u64_def is_i64_def mod_simps)

lemma as_i32_range: "- (2 ^ 31) \<le> as_i32 x \<and> as_i32 x < 2 ^ 31"
  by (simp add: as_i32_def)

lemma as_i32_id: "- (2 ^ 31) \<le> x \<Longrightarrow> x < 2 ^ 31 \<Longrightarrow> as_i32 x = x"
  by (simp add: as_i32_def)

lemma as_u32_id: "0 \<le> x \<Longrightarrow> x < 2 ^ 32 \<Longrightarrow> as_u32 x = x"
  by (simp add: as_u32_def)

lemma as_u64_id: "0 \<le> x \<Longrightarrow> x < 2 ^ 64 \<Longrightarrow> as_u64 x = x"
  by (simp add: as_u64_def)

section \<open>Lemmas on arrays\<close>

lemma length_zeros [simp, array_len]: "length (zeros n) = n"
  by (simp add: zeros_def)

lemma take_zeros [simp]: "take k (zeros n) = zeros (min k n)"
  by (simp add: zeros_def min.commute)

lemma drop_zeros [simp]: "drop k (zeros n) = zeros (n - k)"
  by (simp add: zeros_def)

lemma zeros_0 [simp]: "zeros 0 = []"
  by (simp add: zeros_def)

lemma length_copy_into [simp, array_len]:
  "off \<le> lim \<Longrightarrow> lim \<le> length dst \<Longrightarrow> length (copy_into dst off lim src) = length dst"
  by (auto simp: copy_into_def Let_def min_def)

text \<open>Copying exactly as many elements as the destination slice holds.\<close>

lemma copy_into_exact:
  "off + length src = lim \<Longrightarrow> lim \<le> length dst \<Longrightarrow>
   copy_into dst off lim src = take off dst @ src @ drop lim dst"
  by (auto simp: copy_into_def Let_def)

text \<open>Copying a source that is too short leaves the rest of the destination alone.\<close>

lemma copy_into_short:
  "length src \<le> lim - off \<Longrightarrow>
   copy_into dst off lim src = take off dst @ src @ drop (off + length src) dst"
  by (simp add: copy_into_def Let_def min_absorb2)

section \<open>Lemmas on big-endian integers\<close>

lemma length_be_bytes [simp, array_len]: "length (be_bytes n v) = n"
  by (induction n arbitrary: v) auto

lemma foldl_be:
  "foldl (\<lambda>a b. a * 256 + uint (b :: byte)) s bs = s * 256 ^ length bs + be_val bs"
proof (induction bs arbitrary: s rule: rev_induct)
  case Nil
  then show ?case by (simp add: be_val_def)
next
  case (snoc b bs)
  from snoc.IH [of s] show ?case
    by (simp add: be_val_def algebra_simps)
qed

lemma be_val_Nil [simp]: "be_val [] = 0"
  by (simp add: be_val_def)

lemma be_val_append: "be_val (xs @ ys) = be_val xs * 256 ^ length ys + be_val ys"
  using foldl_be [of "be_val xs" ys] by (simp add: be_val_def)

lemma be_val_single [simp]: "be_val [b] = uint b"
  by (simp add: be_val_def)

lemma be_val_snoc: "be_val (xs @ [b]) = be_val xs * 256 + uint b"
  by (simp add: be_val_append)

lemma be_val_zeros [simp]: "be_val (zeros n) = 0"
  by (induction n) (simp_all add: zeros_def replicate_append_same [symmetric] be_val_snoc)

lemma be_val_zero_pad [simp]: "be_val (zeros n @ bs) = be_val bs"
  by (simp add: be_val_append)

lemma uint_byte_lt: "uint (b :: byte) < 256"
  using uint_lt2p [of b] by simp

lemma be_val_nonneg: "0 \<le> be_val bs"
  by (induction bs rule: rev_induct) (simp_all add: be_val_snoc)

lemma be_val_lt: "be_val bs < 256 ^ length bs"
proof (induction bs rule: rev_induct)
  case Nil
  then show ?case by simp
next
  case (snoc b bs)
  then have "be_val bs + 1 \<le> 256 ^ length bs" by simp
  then have "(be_val bs + 1) * 256 \<le> 256 ^ length bs * 256"
    by (rule mult_right_mono) simp
  with uint_byte_lt [of b] show ?case by (simp add: be_val_snoc)
qed

lemma be_val_be_bytes: "be_val (be_bytes n v) = v mod 256 ^ n"
proof (induction n arbitrary: v)
  case 0
  then show ?case by simp
next
  case (Suc n)
  have "v mod (256 * 256 ^ n) = 256 * ((v div 256) mod 256 ^ n) + v mod 256"
    by (rule zmod_zmult2_eq) simp
  then show ?case
    by (simp add: be_val_snoc Suc.IH unsigned_of_int take_bit_eq_mod algebra_simps)
qed

lemma be_bytes_be_val: "be_bytes (length bs) (be_val bs) = bs"
proof (induction bs rule: rev_induct)
  case Nil
  then show ?case by simp
next
  case (snoc b bs)
  have d: "(be_val bs * 256 + uint b) div 256 = be_val bs"
    using uint_byte_lt [of b] by simp
  have "word_of_int (be_val bs * 256 + uint b) = b"
    by (simp add: word_uint_eq_iff uint_word_of_int mod_simps uint_byte_lt
        del: of_int_add of_int_mult)
  with snoc d show ?case by (simp add: be_val_snoc)
qed

lemma be_val_inj: "length xs = length ys \<Longrightarrow> be_val xs = be_val ys \<Longrightarrow> xs = ys"
  by (metis be_bytes_be_val)

lemma be_bytes_mod: "be_bytes n (v mod 256 ^ n) = be_bytes n v"
  by (rule be_val_inj) (simp_all add: be_val_be_bytes)

text \<open>The low-order half of an encoding is the shorter encoding.\<close>

lemma be_bytes_split: "be_bytes (m + n) v = be_bytes m (v div 256 ^ n) @ be_bytes n v"
proof (induction n arbitrary: v)
  case 0
  then show ?case by simp
next
  case (Suc n)
  then show ?case by (simp add: zdiv_zmult2_eq [symmetric])
qed

lemma drop_be_bytes: "k \<le> n \<Longrightarrow> drop k (be_bytes n v) = be_bytes (n - k) v"
  using be_bytes_split [of k "n - k" v] by simp

lemma length_bytes_of [simp]: "length (bytes_of s) = length s"
  by (simp add: bytes_of_def)

end
