(* ===== verification/Go_Lib.thy ===== *)
theory Go_Lib
  imports Complex_Main Prelude
begin

text \<open>
  The parts of the Go language and standard library the sources call: \<open>encoding/hex\<close>,
  \<open>strings.HasPrefix\<close> and \<open>strings.TrimPrefix\<close>, \<open>strconv.ParseInt\<close> in base 10, and the
  \<open>float64\<close> arithmetic in which the node reports amounts.

  A Go string is a byte string, here a \<open>string\<close> (a list of 8-bit characters).  A finite
  \<open>float64\<close> is \<open>F64 m e\<close>, the number \<open>m * 2 ^ e\<close>; multiplication rounds the exact product
  to 53 significant bits, ties to even, as IEEE 754 prescribes.  The exponent is unbounded:
  amounts are far from the overflow and the subnormal range.
\<close>

section \<open>encoding/hex\<close>

definition fromHexChar :: "char \<Rightarrow> int option" where
  "fromHexChar c =
     (let n = (of_char c :: int) in
      if 48 \<le> n \<and> n \<le> 57 then Some (n - 48)
      else if 97 \<le> n \<and> n \<le> 102 then Some (n - 87)
      else if 65 \<le> n \<and> n \<le> 70 then Some (n - 55)
      else None)"

fun hexDecodeString :: "string \<Rightarrow> bytes outcome" where
  "hexDecodeString [] = Ok []"
| "hexDecodeString [c] = (case fromHexChar c of None \<Rightarrow> Err (HexInvalidByte c) | Some _ \<Rightarrow> Err HexErrLength)"
| "hexDecodeString (a # b # s) =
     (case fromHexChar a of
        None \<Rightarrow> Err (HexInvalidByte a)
      | Some h \<Rightarrow>
        (case fromHexChar b of
           None \<Rightarrow> Err (HexInvalidByte b)
         | Some l \<Rightarrow>
           (case hexDecodeString s of
              Ok bs \<Rightarrow> Ok (word_of_int (h * 16 + l) # bs)
            | Err e \<Rightarrow> Err e
            | Panic e \<Rightarrow> Panic e)))"

definition hexDigit :: "int \<Rightarrow> char" where
  "hexDigit n = char_of (if n < 10 then n + 48 else n + 87)"

definition hexByte :: "byte \<Rightarrow> string" where
  "hexByte b = [hexDigit (uint b div 16), hexDigit (uint b mod 16)]"

definition hexEncodeToString :: "bytes \<Rightarrow> string" where
  "hexEncodeToString bs = concat (map hexByte bs)"

section \<open>strings and strconv\<close>

definition hasPrefix :: "string \<Rightarrow> string \<Rightarrow> bool" where
  "hasPrefix s p \<longleftrightarrow> take (length p) s = p"

definition trimPrefix :: "string \<Rightarrow> string \<Rightarrow> string" where
  "trimPrefix s p = (if hasPrefix s p then drop (length p) s else s)"

fun parseUintLoop :: "int \<Rightarrow> string \<Rightarrow> int outcome" where
  "parseUintLoop n [] = Ok n"
| "parseUintLoop n (c # s) =
     (let d = (of_char c :: int) - 48 in
      if d < 0 \<or> 9 < d then Err NumErrSyntax
      else if 2 ^ 64 \<le> n * 10 + d then Err NumErrRange
      else parseUintLoop (n * 10 + d) s)"

definition parseUint :: "string \<Rightarrow> int outcome" where
  "parseUint s = (if s = [] then Err NumErrSyntax else parseUintLoop 0 s)"

definition parseInt :: "string \<Rightarrow> int outcome" where
  "parseInt s =
     (if s = [] then Err NumErrSyntax
      else
        let neg = (hd s = CHR ''-'');
            rest = (if hd s = CHR ''+'' \<or> hd s = CHR ''-'' then tl s else s)
        in case parseUint rest of
             Err e \<Rightarrow> Err e
           | Panic e \<Rightarrow> Panic e
           | Ok un \<Rightarrow>
               if \<not> neg \<and> 2 ^ 63 \<le> un then Err NumErrRange
               else if neg \<and> 2 ^ 63 < un then Err NumErrRange
               else Ok (if neg then - un else un))"

text \<open>\<open>%d\<close> of package fmt: decimal digits, most significant first.\<close>

fun natDigits :: "nat \<Rightarrow> string" where
  "natDigits n = (if n < 10 then [char_of (48 + n)] else natDigits (n div 10) @ [char_of (48 + n mod 10)])"

declare natDigits.simps [simp del]

definition itoa :: "int \<Rightarrow> string" where
  "itoa i = (if i < 0 then CHR ''-'' # natDigits (nat (- i)) else natDigits (nat i))"

section \<open>float64\<close>

datatype f64 = F64 int int

function bitlen :: "int \<Rightarrow> nat" where
  "bitlen n = (if n \<le> 0 then 0 else Suc (bitlen (n div 2)))"
  by pat_completeness auto
termination
  by (relation "measure nat") auto

declare bitlen.simps [simp del]

text \<open>Division by \<open>2 ^ k\<close>, to the nearest integer, ties to even.\<close>

definition round_shift :: "nat \<Rightarrow> int \<Rightarrow> int" where
  "round_shift k m =
     (let q = m div 2 ^ k; r = m mod 2 ^ k in
      if 2 * r < 2 ^ k \<or> (2 * r = 2 ^ k \<and> even q) then q else q + 1)"

definition f64_round :: "int \<Rightarrow> int \<Rightarrow> f64" where
  "f64_round m e =
     (let a = \<bar>m\<bar>; k = bitlen a - 53 in F64 (sgn m * round_shift k a) (e + int k))"

fun f64_mul :: "f64 \<Rightarrow> f64 \<Rightarrow> f64" where
  "f64_mul (F64 m e) (F64 m' e') = f64_round (m * m') (e + e')"

text \<open>Conversion to an integer type drops the fraction (towards zero).\<close>

fun f64_trunc :: "f64 \<Rightarrow> int" where
  "f64_trunc (F64 m e) =
     (if 0 \<le> e then m * 2 ^ nat e else sgn m * (\<bar>m\<bar> div 2 ^ nat (- e)))"

text \<open>The number a \<open>float64\<close> stands for (specification only).\<close>

fun f64_val :: "f64 \<Rightarrow> real" where
  "f64_val (F64 m e) = of_int m * 2 powi e"

section \<open>Lemmas: hexadecimal\<close>

lemma fromHexChar_hexDigit:
  assumes "0 \<le> n" "n < 16"
  shows "fromHexChar (hexDigit n) = Some n"
proof -
  have "of_char (char_of (n + 48 :: int)) = n + 48" if "n < 10"
    using that assms by simp
  moreover have "of_char (char_of (n + 87 :: int)) = n + 87"
    using assms by simp
  ultimately show ?thesis
    using assms by (auto simp: fromHexChar_def hexDigit_def Let_def)
qed

lemma hexDecode_hexByte:
  "hexDecodeString (hexByte b @ s) =
     (case hexDecodeString s of Ok bs \<Rightarrow> Ok (b # bs) | Err e \<Rightarrow> Err e | Panic e \<Rightarrow> Panic e)"
proof -
  have "0 \<le> uint b div 16" "uint b div 16 < 16"
    using uint_byte_lt [of b] by (simp_all add: div_less_iff_less_mult pos_imp_zdiv_nonneg_iff)
  moreover have "word_of_int (uint b div 16 * 16 + uint b mod 16) = b"
    by (simp only: div_mult_mod_eq word_of_int_uint)
  ultimately show ?thesis
    by (cases "hexDecodeString s") (simp_all add: hexByte_def fromHexChar_hexDigit del: of_int_add of_int_mult)
qed

theorem hex_roundtrip: "hexDecodeString (hexEncodeToString bs) = Ok bs"
  by (induction bs) (simp_all add: hexEncodeToString_def hexDecode_hexByte)

lemma hexEncode_append: "hexEncodeToString (xs @ ys) = hexEncodeToString xs @ hexEncodeToString ys"
  by (simp add: hexEncodeToString_def)

lemma length_hexByte [simp]: "length (hexByte b) = 2"
  by (simp add: hexByte_def)

lemma length_hexEncode [simp]: "length (hexEncodeToString bs) = 2 * length bs"
  by (induction bs) (simp_all add: hexEncodeToString_def)

lemma hexDecode_never_panics: "hexDecodeString s \<noteq> Panic e"
  by (induction s arbitrary: e rule: hexDecodeString.induct) (auto split: option.splits outcome.splits)

lemma hexDecode_length: "hexDecodeString s = Ok bs \<Longrightarrow> length s = 2 * length bs"
  by (induction s arbitrary: bs rule: hexDecodeString.induct) (auto split: option.splits outcome.splits)

section \<open>Lemmas: strings and strconv\<close>

lemma hasPrefix_append [simp]: "hasPrefix (p @ s) p"
  by (simp add: hasPrefix_def)

lemma hasPrefix_iff: "hasPrefix s p \<longleftrightarrow> (\<exists>t. s = p @ t)"
  by (metis append_eq_conv_conj append_take_drop_id hasPrefix_def)

lemma trimPrefix_append [simp]: "trimPrefix (p @ s) p = s"
  by (simp add: trimPrefix_def)

lemma parseUintLoop_range: "parseUintLoop n s = Ok v \<Longrightarrow> 0 \<le> n \<Longrightarrow> n < 2 ^ 64 \<Longrightarrow> 0 \<le> v \<and> v < 2 ^ 64"
  by (induction n s rule: parseUintLoop.induct) (auto simp: Let_def split: if_splits)

lemma parseUintLoop_never_panics: "parseUintLoop n s \<noteq> Panic e"
  by (induction n s rule: parseUintLoop.induct) (auto simp: Let_def)

lemma parseInt_never_panics: "parseInt s \<noteq> Panic e"
  by (auto simp: parseInt_def parseUint_def Let_def parseUintLoop_never_panics split: outcome.splits)

lemma parseInt_range: "parseInt s = Ok v \<Longrightarrow> is_i64 v"
  by (auto simp: parseInt_def parseUint_def Let_def is_i64_def
      dest: parseUintLoop_range split: outcome.splits if_splits)

section \<open>Lemmas: float64\<close>

lemma bitlen_0 [simp]: "bitlen 0 = 0"
  by (subst bitlen.simps) simp

lemma bitlen_bounds: "0 < n \<Longrightarrow> 2 ^ (bitlen n - 1) \<le> n \<and> n < 2 ^ bitlen n"
proof (induction n rule: bitlen.induct)
  case (1 n)
  show ?case
  proof (cases "n = 1")
    case True
    have "bitlen 1 = 1" by (subst bitlen.simps) simp
    with True show ?thesis by simp
  next
    case False
    with "1.prems" have pos: "0 < n div 2" by (simp add: pos_imp_zdiv_pos_iff)
    with "1.prems" "1.IH"
    have ih: "2 ^ (bitlen (n div 2) - 1) \<le> n div 2" "n div 2 < 2 ^ bitlen (n div 2)" by auto
    from pos have "0 < bitlen (n div 2)" by (subst bitlen.simps) simp
    then have "(2::int) ^ bitlen (n div 2) = 2 * 2 ^ (bitlen (n div 2) - 1)"
      by (metis Suc_diff_1 power_Suc)
    moreover have "bitlen n = Suc (bitlen (n div 2))"
      using "1.prems" by (subst bitlen.simps) simp
    ultimately show ?thesis using ih by simp linarith
  qed
qed

lemma round_shift_close: "\<bar>round_shift k m * 2 ^ k - m\<bar> * 2 \<le> 2 ^ k"
proof -
  let ?q = "m div 2 ^ k" and ?r = "m mod 2 ^ k"
  have m: "m = ?q * 2 ^ k + ?r" by (simp only: div_mult_mod_eq)
  have r: "0 \<le> ?r" "?r < 2 ^ k" by simp_all
  show ?thesis
  proof (cases "2 * ?r < 2 ^ k \<or> (2 * ?r = 2 ^ k \<and> even ?q)")
    case True
    then have "round_shift k m * 2 ^ k - m = - ?r"
      using m by (simp add: round_shift_def Let_def)
    with True r show ?thesis by auto
  next
    case False
    then have "round_shift k m = ?q + 1" by (simp add: round_shift_def Let_def)
    then have "round_shift k m * 2 ^ k - m = 2 ^ k - ?r"
      using m by (simp add: distrib_right)
    moreover from False have "2 ^ k \<le> 2 * ?r" by auto
    moreover have "\<bar>b - a\<bar> * 2 \<le> b" if "b \<le> 2 * a" "a < b" for a b :: int
      using that by (simp add: abs_if)
    ultimately have "\<bar>2 ^ k - ?r\<bar> * 2 \<le> 2 ^ k" using r by blast
    moreover note \<open>round_shift k m * 2 ^ k - m = 2 ^ k - ?r\<close>
    ultimately show ?thesis by (simp only:)
  qed
qed

text \<open>The relative error of one rounding is at most \<open>2 ^ -53\<close>.\<close>

lemma f64_round_error:
  assumes "0 \<le> m"
  shows "\<bar>f64_val (f64_round m e) - of_int m * 2 powi e\<bar> \<le> (of_int m * 2 powi e) / 2 ^ 53"
proof -
  define k where "k = bitlen m - 53"
  define q where "q = round_shift k m"
  have sg: "sgn m * q = q"
    using assms by (cases "m = 0") (simp_all add: q_def k_def round_shift_def)
  have pw: "(2::real) powi (e + int k) = 2 ^ k * 2 powi e"
    by (simp add: power_int_add)
  have "f64_round m e = F64 (sgn m * q) (e + int k)"
    using assms by (simp add: f64_round_def Let_def k_def q_def)
  then have v: "f64_val (f64_round m e) = of_int (q * 2 ^ k) * 2 powi e"
    by (simp only: sg f64_val.simps pw) simp
  have "\<bar>q * 2 ^ k - m\<bar> * 2 ^ 53 \<le> m"
  proof (cases "k = 0")
    case True
    with assms show ?thesis by (simp add: q_def round_shift_def)
  next
    case False
    then have "m \<noteq> 0" by (auto simp: k_def)
    with assms have "2 ^ (bitlen m - 1) \<le> m" using bitlen_bounds [of m] by simp
    moreover have "bitlen m - 1 = k + 52" using False by (simp add: k_def)
    ultimately have "2 ^ k * 2 ^ 52 \<le> m" by (simp add: power_add)
    with round_shift_close [of k m] show ?thesis by (simp add: q_def)
  qed
  then have "real_of_int (\<bar>q * 2 ^ k - m\<bar> * 2 ^ 53) \<le> of_int m" by (simp only: of_int_le_iff)
  then have "\<bar>real_of_int (q * 2 ^ k - m)\<bar> \<le> of_int m / 2 ^ 53" by simp
  then have "\<bar>real_of_int (q * 2 ^ k - m)\<bar> * 2 powi e \<le> of_int m / 2 ^ 53 * 2 powi e"
    by (rule mult_right_mono) simp
  moreover have "\<bar>of_int (q * 2 ^ k) * 2 powi e - real_of_int m * 2 powi e\<bar>
      = \<bar>real_of_int (q * 2 ^ k - m)\<bar> * 2 powi e"
    by (simp add: left_diff_distrib [symmetric] abs_mult)
  ultimately show ?thesis by (simp only: v) simp
qed

lemma f64_trunc_floor:
  assumes "0 \<le> f64_val x"
  shows "f64_trunc x = \<lfloor>f64_val x\<rfloor>"
proof (cases x)
  case (F64 m e)
  from assms have "0 \<le> real_of_int m * 2 powi e" by (simp only: F64 f64_val.simps)
  then have "0 \<le> real_of_int m"
    by (metis mult_neg_pos not_le zero_less_numeral zero_less_power_int)
  then have m: "0 \<le> m" by simp
  show ?thesis
  proof (cases "0 \<le> e")
    case True
    then have "f64_val x = of_int (m * 2 ^ nat e)"
      by (simp add: F64 power_int_def)
    moreover have "f64_trunc x = m * 2 ^ nat e" using True by (simp add: F64)
    ultimately show ?thesis by (simp only: floor_of_int)
  next
    case False
    then have "(2::real) powi e = 1 / 2 ^ nat (- e)"
      by (simp add: power_int_def power_one_over)
    then have "f64_val x = of_int m / of_int (2 ^ nat (- e))"
      by (simp only: F64 f64_val.simps) simp
    moreover have "\<lfloor>real_of_int m / of_int (2 ^ nat (- e))\<rfloor> = m div 2 ^ nat (- e)"
      by (rule floor_divide_of_int_eq)
    moreover have "f64_trunc x = m div 2 ^ nat (- e)"
      using False m by (cases "m = 0") (simp_all add: F64)
    ultimately show ?thesis by (simp only:)
  qed
qed

section \<open>Decimal digits\<close>

lemma natDigits_value: "foldl (\<lambda>v c. 10 * v + (of_char c - 48)) 0 (natDigits n) = n"
proof (induction n rule: natDigits.induct)
  case (1 n)
  show ?case
  proof (cases "n < 10")
    case True
    then show ?thesis by (simp add: natDigits.simps [of n])
  next
    case False
    with 1 have "foldl (\<lambda>v c. 10 * v + (of_char c - 48)) 0 (natDigits (n div 10)) = n div 10" by simp
    moreover have "of_char (char_of (48 + n mod 10) :: char) = 48 + n mod 10" by simp
    ultimately show ?thesis using False by (simp add: natDigits.simps [of n])
  qed
qed

lemma itoa_inj: "0 \<le> i \<Longrightarrow> 0 \<le> j \<Longrightarrow> itoa i = itoa j \<Longrightarrow> i = j"
  by (simp add: itoa_def) (metis natDigits_value eq_nat_nat_iff)

end
