(* ===== verification/Uint256.thy ===== *)
theory Uint256
  imports Prelude
begin

text \<open>
  The interface of \<open>github.com/holiman/uint256\<close>, a package the sources call and do not
  contain.  A value of \<open>uint256.Int\<close> is 256 bits; its operations are a parameter of the
  model (the record \<open>uint256_ops\<close>), and what its documentation promises of them is the
  locale \<open>uint256_lib\<close>.  Facts the components need are proved once in the locale, which is
  interpreted on 256-bit machine words.
\<close>

record uint256_ops =
  u_NewInt :: "uint64 \<Rightarrow> uint256"
  u_Mul :: "uint256 \<Rightarrow> uint256 \<Rightarrow> uint256"
  u_Bytes20 :: "uint256 \<Rightarrow> bytes"
  u_Bytes32 :: "uint256 \<Rightarrow> bytes"
  u_SetBytes32 :: "bytes \<Rightarrow> uint256"
  u_ToBig :: "uint256 \<Rightarrow> int"
  u_SetAllOne :: "uint256"

text \<open>
  \<open>NewInt\<close> zero-extends, \<open>Mul\<close> is modulo \<open>2 ^ 256\<close>, \<open>Bytes20\<close> and \<open>Bytes32\<close> are the
  big-endian arrays of the low 20 and of all 32 bytes, \<open>SetBytes32\<close> reads 32 big-endian
  bytes, \<open>ToBig\<close> is the unsigned value, \<open>SetAllOne\<close> sets every bit.
\<close>

locale uint256_lib =
  fixes U :: uint256_ops
  assumes NewInt_law: "uint (u_NewInt U a) = uint a"
    and Mul_law: "u_Mul U x y = x * y"
    and Bytes20_law: "u_Bytes20 U x = be_bytes 20 (uint x)"
    and Bytes32_law: "u_Bytes32 U x = be_bytes 32 (uint x)"
    and SetBytes32_law: "length bs = 32 \<Longrightarrow> uint (u_SetBytes32 U bs) = be_val bs"
    and ToBig_law: "u_ToBig U x = uint x"
    and SetAllOne_law: "u_SetAllOne U = - 1"
begin

lemma uint_Mul_NewInt: "uint (u_Mul U (u_NewInt U a) (u_NewInt U b)) = uint a * uint b"
proof -
  have "uint a * uint b < 2 ^ 64 * 2 ^ 64"
    using uint_lt2p [of a] uint_lt2p [of b] by (intro mult_strict_mono) simp_all
  then show ?thesis
    by (simp add: Mul_law uint_word_ariths NewInt_law)
qed

lemma ToBig_SetBytes32: "length bs = 32 \<Longrightarrow> u_ToBig U (u_SetBytes32 U bs) = be_val bs"
  by (simp add: ToBig_law SetBytes32_law)

text \<open>The 12 bytes the code keeps of a product: \<open>Bytes20()[8:]\<close>.\<close>

lemma product12:
  "drop 8 (u_Bytes20 U (u_Mul U (u_NewInt U a) (u_NewInt U b))) = be_bytes 12 (uint a * uint b)"
  by (simp add: Bytes20_law uint_Mul_NewInt drop_be_bytes)

lemma number12: "drop 8 (u_Bytes20 U (u_NewInt U a)) = be_bytes 12 (uint a)"
  by (simp add: Bytes20_law NewInt_law drop_be_bytes)

lemma length_Bytes [simp]: "length (u_Bytes20 U x) = 20" "length (u_Bytes32 U x) = 32"
  by (simp_all add: Bytes20_law Bytes32_law)

lemma Bytes32_AllOne: "be_val (u_Bytes32 U (u_SetAllOne U)) = 2 ^ 256 - 1"
  by (simp add: Bytes32_law SetAllOne_law be_val_be_bytes unsigned_minus_1_eq_mask mask_eq_exp_minus_1)

lemma Bytes32_NewInt: "u_Bytes32 U (u_NewInt U a) = be_bytes 32 (uint a)"
  by (simp add: Bytes32_law NewInt_law)

end

text \<open>Machine words implement the interface.\<close>

definition word_uint256 :: uint256_ops where
  "word_uint256 =
     \<lparr>u_NewInt = (\<lambda>a. ucast a),
      u_Mul = (\<lambda>x y. x * y),
      u_Bytes20 = (\<lambda>x. be_bytes 20 (uint x)),
      u_Bytes32 = (\<lambda>x. be_bytes 32 (uint x)),
      u_SetBytes32 = (\<lambda>bs. word_of_int (be_val bs)),
      u_ToBig = (\<lambda>x. uint x),
      u_SetAllOne = - 1\<rparr>"

lemma uint_word256_of_uint64: "uint (ucast (a :: uint64) :: uint256) = uint a"
  using uint_lt2p [of a] by (simp add: unsigned_ucast_eq take_bit_eq_mod)

lemma uint_word256_be_val:
  assumes "length bs = 32"
  shows "uint (word_of_int (be_val bs) :: uint256) = be_val bs"
proof -
  have "be_val bs < 2 ^ 256" using be_val_lt [of bs] assms by simp
  then show ?thesis by (simp add: uint_word_of_int be_val_nonneg)
qed

interpretation w256: uint256_lib word_uint256
  by unfold_locales (simp_all add: word_uint256_def uint_word256_of_uint64 uint_word256_be_val)

end
