(* ===== verification/Script.thy ===== *)
theory Script
  imports Prelude
begin

text \<open>
  The interface of \<open>bchd/txscript\<close>: extracting the data a script pushes and building a
  script.  Both are parameters (record \<open>script_ops\<close>); the locale \<open>script_lib\<close> states how
  Bitcoin Cash scripts push data, as far as the sources rely on it: an empty element is the
  single byte \<open>OP_0\<close> (also called \<open>OP_FALSE\<close>), an element of 1 to 75 bytes is its length
  followed by the bytes, and the builder chooses that form for 2 to 75 bytes as long as the
  script stays within 10000 bytes.  The locale is interpreted on a parser for all push
  opcodes.
\<close>

record script_ops =
  PushedData :: "bytes \<Rightarrow> bytes list outcome"
  AddOp :: "bytes \<Rightarrow> byte \<Rightarrow> bytes"
  AddData :: "bytes \<Rightarrow> bytes \<Rightarrow> bytes"

definition cons_ok :: "'a \<Rightarrow> 'a list outcome \<Rightarrow> 'a list outcome" where
  "cons_ok x r = (case r of Ok xs \<Rightarrow> Ok (x # xs) | Err e \<Rightarrow> Err e | Panic e \<Rightarrow> Panic e)"

text \<open>The canonical push of up to 75 bytes.\<close>

definition push :: "bytes \<Rightarrow> bytes" where
  "push d = word_of_nat (length d) # d"

lemma cons_ok_Ok [simp]: "cons_ok x (Ok xs) = Ok (x # xs)"
  by (simp add: cons_ok_def)

lemma cons_ok_Err [simp]: "cons_ok x (Err e) = Err e" "cons_ok x (Panic e) = Panic e"
  by (simp_all add: cons_ok_def)

lemma length_push [simp]: "length (push d) = Suc (length d)"
  by (simp add: push_def)

locale script_lib =
  fixes S :: script_ops
  assumes pushed_Nil: "PushedData S [] = Ok []"
    and pushed_OP_0: "PushedData S (0 # s) = cons_ok [] (PushedData S s)"
    and pushed_direct: "1 \<le> length d \<Longrightarrow> length d \<le> 75 \<Longrightarrow>
      PushedData S (word_of_nat (length d) # d @ s) = cons_ok d (PushedData S s)"
    and pushed_total: "PushedData S s \<noteq> Panic e"
    and add_op: "length s < 10000 \<Longrightarrow> AddOp S s c = s @ [c]"
    and add_data: "2 \<le> length d \<Longrightarrow> length d \<le> 75 \<Longrightarrow> length s + length d < 10000 \<Longrightarrow>
      AddData S s d = s @ word_of_nat (length d) # d"
begin

lemma pushed_push:
  "1 \<le> length d \<Longrightarrow> length d \<le> 75 \<Longrightarrow> PushedData S (push d @ s) = cons_ok d (PushedData S s)"
  by (simp add: push_def pushed_direct)

text \<open>Every element of a sequence of canonical pushes comes back, in order.\<close>

lemma pushed_pushes:
  "(\<And>d. d \<in> set ds \<Longrightarrow> 1 \<le> length d \<and> length d \<le> 75) \<Longrightarrow>
   PushedData S (concat (map push ds) @ s) =
     (case PushedData S s of Ok xs \<Rightarrow> Ok (ds @ xs) | Err e \<Rightarrow> Err e | Panic e \<Rightarrow> Panic e)"
proof (induction ds)
  case Nil
  then show ?case by (simp split: outcome.split)
next
  case (Cons d ds)
  then have "PushedData S (push d @ (concat (map push ds) @ s)) =
      cons_ok d (PushedData S (concat (map push ds) @ s))"
    by (intro pushed_push) auto
  with Cons show ?case by (cases "PushedData S s") simp_all
qed

lemma add_data_push:
  "2 \<le> length d \<Longrightarrow> length d \<le> 75 \<Longrightarrow> length s + length d < 10000 \<Longrightarrow> AddData S s d = s @ push d"
  by (simp add: add_data push_def)

end

section \<open>A parser for all push opcodes\<close>

text \<open>
  \<open>parse_push\<close> reads the opcode byte: how many length bytes follow it (little-endian) and,
  for direct pushes, the length itself.
\<close>

fun le_val :: "bytes \<Rightarrow> nat" where
  "le_val [] = 0"
| "le_val (b # bs) = unat b + 256 * le_val bs"

definition push_header :: "byte \<Rightarrow> bytes \<Rightarrow> (nat \<times> nat) option" where
  "push_header c s =
     (if 1 \<le> c \<and> c \<le> 75 then Some (0, unat c)
      else if c = 76 then Some (1, le_val (take 1 s))
      else if c = 77 then Some (2, le_val (take 2 s))
      else if c = 78 then Some (4, le_val (take 4 s))
      else None)"

function script_pushes :: "bytes \<Rightarrow> bytes list outcome" where
  "script_pushes [] = Ok []"
| "script_pushes (c # s) =
     (if c = 0 then cons_ok [] (script_pushes s)
      else case push_header c s of
        None \<Rightarrow> script_pushes s
      | Some (k, n) \<Rightarrow>
          if length s < k + n then Err (ErrorString ''malformed push'')
          else cons_ok (take n (drop k s)) (script_pushes (drop (k + n) s)))"
  by pat_completeness auto
termination
  by (relation "measure length") auto

definition ref_add_data :: "bytes \<Rightarrow> bytes \<Rightarrow> bytes" where
  "ref_add_data s d =
     (if d = [] then s @ [0]
      else if length d = 1 \<and> 1 \<le> hd d \<and> hd d \<le> 16 then s @ [80 + hd d]
      else if length d \<le> 75 then s @ push d
      else if length d \<le> 255 then s @ [76, word_of_nat (length d)] @ d
      else s @ [77, word_of_nat (length d), word_of_nat (length d div 256)] @ d)"

definition ref_script :: script_ops where
  "ref_script = \<lparr>PushedData = script_pushes, AddOp = (\<lambda>s c. s @ [c]), AddData = ref_add_data\<rparr>"

lemma script_pushes_direct:
  assumes "1 \<le> length d" "length d \<le> 75"
  shows "script_pushes (word_of_nat (length d) # d @ s) = cons_ok d (script_pushes s)"
proof -
  let ?c = "word_of_nat (length d) :: byte"
  have u: "unat ?c = length d"
    using assms by (simp add: unat_of_nat)
  then have "?c \<noteq> 0" "1 \<le> ?c" "?c \<le> 75"
    using assms by (auto simp: word_le_nat_alt simp flip: unat_eq_zero)
  then show ?thesis by (simp add: push_header_def u)
qed

lemma script_pushes_total: "script_pushes s \<noteq> Panic e"
  by (induction s arbitrary: e rule: script_pushes.induct)
    (auto simp: cons_ok_def split: option.splits outcome.splits)

lemma script_pushes_zero: "script_pushes (0 # s) = cons_ok [] (script_pushes s)"
  by simp

interpretation ref_scripts: script_lib ref_script
  by unfold_locales
    (auto simp: ref_script_def ref_add_data_def push_def script_pushes_zero script_pushes_direct
      script_pushes_total simp del: script_pushes.simps(2))

end
