(* ===== verification/Chain_Types.thy ===== *)
theory Chain_Types
  imports Go_Lib Uint256 Script
begin

text \<open>
  The data the components exchange, and the third-party functions they call.

  The records mirror the Go structs, with the fields the sources read or write:
  \<open>bch.TokenInfo\<close> (bch/abi.go), the node's JSON answers (\<open>btcjson\<close>), the virtual chain's
  transactions, logs and blocks (\<open>moeingevm/types\<close>) and what the database stores
  (\<open>moeingdb/types\<close>).  \<open>deps\<close> collects the functions of packages that are not part of the
  repository; every definition that calls one takes it as an argument.
\<close>

record TokenInfo =
  AddressAndTokenAmount :: int
  TokenCategory :: int
  NftCommitmentLengthAndHead :: int
  NftCommitmentTail :: int

section \<open>The node's answers\<close>

record TokenDataResult =
  td_Amount :: string
  td_Category :: string
  td_Commitment :: string
  td_Capability :: string

record ScriptPubKeyResult =
  spk_Type :: string
  spk_Hex :: string
  spk_Addresses :: "string list"

record Vout =
  vout_Value :: f64
  vout_ScriptPubKey :: ScriptPubKeyResult
  vout_TokenData :: TokenDataResult

record Vin =
  vin_Txid :: string
  vin_Vout :: nat

record TxRawResult =
  raw_Txid :: string
  raw_Vin :: "Vin list"
  raw_Vout :: "Vout list"
  raw_Confirmations :: int

section \<open>The virtual chain\<close>

record EvmLog =
  log_Address :: bytes
  log_Topics :: "bytes list"
  log_Data :: bytes
  log_BlockNumber :: int
  log_TxHash :: bytes
  log_TxIndex :: int
  log_BlockHash :: bytes

record EvmTx =
  etx_Hash :: bytes
  etx_TransactionIndex :: int
  etx_Nonce :: int
  etx_BlockHash :: bytes
  etx_BlockNumber :: int
  etx_From :: bytes
  etx_To :: bytes
  etx_Value :: bytes
  etx_GasPrice :: bytes
  etx_Gas :: int
  etx_Input :: bytes
  etx_Logs :: "EvmLog list"
  etx_Status :: int
  etx_StatusStr :: bytes
  etx_OutData :: bytes

record EvmBlock =
  eblk_Number :: int
  eblk_Hash :: bytes
  eblk_ParentHash :: bytes
  eblk_TransactionsRoot :: bytes
  eblk_StateRoot :: bytes
  eblk_Miner :: bytes
  eblk_Size :: int
  eblk_GasUsed :: int
  eblk_Timestamp :: int
  eblk_Transactions :: "bytes list"
  eblk_LogsBloom :: bytes

record ModbLog =
  mlog_Address :: bytes
  mlog_Topics :: "bytes list"

record ModbTx =
  mtx_HashId :: bytes
  mtx_SrcAddr :: bytes
  mtx_DstAddr :: bytes
  mtx_Content :: bytes
  mtx_LogList :: "ModbLog list"

record ModbBlock =
  mblk_Height :: int
  mblk_BlockHash :: bytes
  mblk_BlockInfo :: bytes
  mblk_TxList :: "ModbTx list"

section \<open>Third-party functions\<close>

text \<open>
  \<open>d_DecodeAddress\<close> is \<open>bchutil.DecodeAddress(a, params)\<close> followed by \<open>ScriptAddress()\<close>,
  \<open>d_AbiPack\<close> is \<open>a.Pack("EGTXLogData", ...)\<close> for the ABI of bch/abi.go, \<open>d_HexToHash\<close> is
  \<open>common.HexToHash\<close>, the \<open>chainhash\<close> functions convert between a node's transaction id and
  its 32 bytes, and the \<open>Marshal\<close>/\<open>Unmarshal\<close> pairs are the
  generated codecs of \<open>moeingevm/types\<close>.
\<close>

record deps =
  d_u256 :: uint256_ops
  d_script :: script_ops
  d_DecodeAddress :: "string \<Rightarrow> bytes outcome"
  d_AbiPack :: "int \<Rightarrow> int list \<Rightarrow> int list \<Rightarrow> TokenInfo list \<Rightarrow> TokenInfo list \<Rightarrow> bytes list \<Rightarrow> bytes outcome"
  d_HexToHash :: "string \<Rightarrow> bytes"
  d_HashString :: "bytes \<Rightarrow> string"
  d_NewHashFromStr :: "string \<Rightarrow> bytes outcome"
  d_NewHash :: "bytes \<Rightarrow> bytes outcome"
  d_MarshalTx :: "EvmTx \<Rightarrow> bytes outcome"
  d_UnmarshalTx :: "bytes \<Rightarrow> EvmTx outcome"
  d_MarshalBlock :: "EvmBlock \<Rightarrow> bytes outcome"
  d_UnmarshalBlock :: "bytes \<Rightarrow> EvmBlock outcome"

section \<open>What the transaction ids and the codecs promise\<close>

text \<open>
  \<open>chainhash\<close>: a hash is printed as the hexadecimal string of its reversed bytes, and
  \<open>NewHashFromStr\<close> reads that string; \<open>NewHash\<close> takes 32 bytes as they are.
  \<open>common.HexToHash\<close> reads 64 hexadecimal digits in the order they are written.
\<close>

locale txid_lib =
  fixes D :: deps
  assumes hash_string: "length h = 32 \<Longrightarrow> d_HashString D h = hexEncodeToString (rev h)"
    and hash_from_string: "length h = 32 \<Longrightarrow> d_NewHashFromStr D (hexEncodeToString (rev h)) = Ok h"
    and new_hash: "length h = 32 \<Longrightarrow> d_NewHash D h = Ok h"
    and hex_to_hash: "length h = 32 \<Longrightarrow> d_HexToHash D (hexEncodeToString h) = h"
    and hex_to_hash_length: "length (d_HexToHash D s) = 32"
begin

lemma txid_of_hash: "length h = 32 \<Longrightarrow> d_HexToHash D (d_HashString D h) = rev h"
  by (simp add: hash_string hex_to_hash)

text \<open>Reversing the stored transaction hash gives the node's hash again.\<close>

lemma node_hash_of_stored:
  "length h = 32 \<Longrightarrow> d_NewHash D (rev (d_HexToHash D (d_HashString D h))) = Ok h"
  by (simp add: txid_of_hash new_hash)

end

text \<open>The codecs: encoding succeeds and decoding reads back what was encoded.\<close>

locale codec_lib =
  fixes D :: deps
  assumes tx_codec: "\<exists>bs. d_MarshalTx D t = Ok bs \<and> d_UnmarshalTx D bs = Ok t"
    and block_codec: "\<exists>bs. d_MarshalBlock D b = Ok bs \<and> bs \<noteq> [] \<and> d_UnmarshalBlock D bs = Ok b"
begin

lemma tx_decode: "d_MarshalTx D t = Ok bs \<Longrightarrow> d_UnmarshalTx D bs = Ok t"
  using tx_codec [of t] by auto

lemma block_decode: "d_MarshalBlock D b = Ok bs \<Longrightarrow> d_UnmarshalBlock D bs = Ok b \<and> bs \<noteq> []"
  using block_codec [of b] by auto

end

end
