(* ===== verification/Ref_Deps.thy ===== *)
theory Ref_Deps
  imports Chain_Types
begin

text \<open>
  Concrete functions for the third-party interfaces, on which the locales of
  \<open>Chain_Types\<close> and \<open>Egtx\<close> are interpreted and with which the witnesses are evaluated: a
  self-delimiting codec for transactions and blocks, the Solidity ABI encoding of the
  EGTX log data, and transaction ids as reversed hexadecimal strings.  They show that the
  interfaces can be implemented; no property depends on them.
\<close>

section \<open>A self-delimiting codec\<close>

type_synonym 'a dec = "bytes \<Rightarrow> ('a \<times> bytes) option"

definition decodes :: "('a \<Rightarrow> bytes) \<Rightarrow> 'a dec \<Rightarrow> bool" where
  "decodes enc dec \<longleftrightarrow> (\<forall>x rest. dec (enc x @ rest) = Some (x, rest))"

definition bind_dec :: "'a dec \<Rightarrow> ('a \<Rightarrow> 'b dec) \<Rightarrow> 'b dec" where
  "bind_dec p f bs = (case p bs of None \<Rightarrow> None | Some (x, rest) \<Rightarrow> f x rest)"

definition ret_dec :: "'a \<Rightarrow> 'a dec" where
  "ret_dec x bs = Some (x, bs)"

fun enc_nat :: "nat \<Rightarrow> bytes" where
  "enc_nat n = (if n = 0 then [0] else (if even n then 1 else 2) # enc_nat (n div 2))"

declare enc_nat.simps [simp del]

fun dec_nat :: "nat dec" where
  "dec_nat [] = None"
| "dec_nat (b # bs) =
     (if b = 0 then Some (0, bs)
      else case dec_nat bs of None \<Rightarrow> None
        | Some (n, rest) \<Rightarrow> Some (2 * n + (if b = 1 then 0 else 1), rest))"

definition enc_int :: "int \<Rightarrow> bytes" where
  "enc_int i = (if i < 0 then 1 else 0) # enc_nat (nat \<bar>i\<bar>)"

fun dec_int :: "int dec" where
  "dec_int [] = None"
| "dec_int (b # bs) =
     (case dec_nat bs of None \<Rightarrow> None
      | Some (n, rest) \<Rightarrow> Some (if b = 1 then - int n else int n, rest))"

definition enc_bytes :: "bytes \<Rightarrow> bytes" where
  "enc_bytes b = enc_nat (length b) @ b"

definition dec_bytes :: "bytes dec" where
  "dec_bytes = bind_dec dec_nat (\<lambda>n bs. Some (take n bs, drop n bs))"

definition enc_list :: "('a \<Rightarrow> bytes) \<Rightarrow> 'a list \<Rightarrow> bytes" where
  "enc_list enc xs = enc_nat (length xs) @ concat (map enc xs)"

fun dec_n :: "'a dec \<Rightarrow> nat \<Rightarrow> 'a list dec" where
  "dec_n dec 0 = ret_dec []"
| "dec_n dec (Suc n) = bind_dec dec (\<lambda>x. bind_dec (dec_n dec n) (\<lambda>xs. ret_dec (x # xs)))"

definition dec_list :: "'a dec \<Rightarrow> 'a list dec" where
  "dec_list dec = bind_dec dec_nat (dec_n dec)"

lemma bind_dec_enc: "decodes enc dec \<Longrightarrow> bind_dec dec f (enc x @ rest) = f x rest"
  by (simp add: decodes_def bind_dec_def)

lemma bind_dec_enc_end: "decodes enc dec \<Longrightarrow> bind_dec dec f (enc x) = f x []"
  using bind_dec_enc [of enc dec f x "[]"] by simp

lemma decodes_nat: "decodes enc_nat dec_nat"
  unfolding decodes_def
proof (intro allI)
  fix n rest
  show "dec_nat (enc_nat n @ rest) = Some (n, rest)"
  proof (induction n rule: enc_nat.induct)
    case (1 n)
    show ?case
    proof (cases "n = 0")
      case True
      then show ?thesis by (simp add: enc_nat.simps [of 0])
    next
      case False
      with 1 have "dec_nat (enc_nat (n div 2) @ rest) = Some (n div 2, rest)" by simp
      moreover have "(1::byte) \<noteq> 0 \<and> (2::byte) \<noteq> 0 \<and> (2::byte) \<noteq> 1" by simp
      ultimately show ?thesis using False by (simp add: enc_nat.simps [of n])
    qed
  qed
qed

lemma decodes_int: "decodes enc_int dec_int"
  using decodes_nat by (simp add: decodes_def enc_int_def)

lemma decodes_bytes: "decodes enc_bytes dec_bytes"
  by (simp add: decodes_def enc_bytes_def dec_bytes_def bind_dec_enc [OF decodes_nat])

lemma dec_n_concat:
  "decodes enc dec \<Longrightarrow> dec_n dec (length xs) (concat (map enc xs) @ rest) = Some (xs, rest)"
  by (induction xs arbitrary: rest) (simp_all add: ret_dec_def bind_dec_enc, simp add: bind_dec_def ret_dec_def)

lemma decodes_list: "decodes enc dec \<Longrightarrow> decodes (enc_list enc) (dec_list dec)"
  unfolding decodes_def [of "enc_list enc"]
  by (simp add: enc_list_def dec_list_def bind_dec_enc [OF decodes_nat] dec_n_concat)

section \<open>Logs, transactions and blocks\<close>

definition enc_log :: "EvmLog \<Rightarrow> bytes" where
  "enc_log l =
     enc_bytes (log_Address l) @ enc_list enc_bytes (log_Topics l) @ enc_bytes (log_Data l) @
     enc_int (log_BlockNumber l) @ enc_bytes (log_TxHash l) @ enc_int (log_TxIndex l) @
     enc_bytes (log_BlockHash l)"

definition dec_log :: "EvmLog dec" where
  "dec_log =
     bind_dec dec_bytes (\<lambda>a. bind_dec (dec_list dec_bytes) (\<lambda>t. bind_dec dec_bytes (\<lambda>d.
     bind_dec dec_int (\<lambda>n. bind_dec dec_bytes (\<lambda>h. bind_dec dec_int (\<lambda>i. bind_dec dec_bytes (\<lambda>b.
     ret_dec \<lparr>log_Address = a, log_Topics = t, log_Data = d, log_BlockNumber = n, log_TxHash = h,
              log_TxIndex = i, log_BlockHash = b\<rparr>)))))))"

definition enc_tx :: "EvmTx \<Rightarrow> bytes" where
  "enc_tx t =
     enc_bytes (etx_Hash t) @ enc_int (etx_TransactionIndex t) @ enc_int (etx_Nonce t) @
     enc_bytes (etx_BlockHash t) @ enc_int (etx_BlockNumber t) @ enc_bytes (etx_From t) @
     enc_bytes (etx_To t) @ enc_bytes (etx_Value t) @ enc_bytes (etx_GasPrice t) @
     enc_int (etx_Gas t) @ enc_bytes (etx_Input t) @ enc_list enc_log (etx_Logs t) @
     enc_int (etx_Status t) @ enc_bytes (etx_StatusStr t) @ enc_bytes (etx_OutData t)"

definition dec_tx :: "EvmTx dec" where
  "dec_tx =
     bind_dec dec_bytes (\<lambda>h. bind_dec dec_int (\<lambda>i. bind_dec dec_int (\<lambda>n. bind_dec dec_bytes (\<lambda>bh.
     bind_dec dec_int (\<lambda>bn. bind_dec dec_bytes (\<lambda>f. bind_dec dec_bytes (\<lambda>t. bind_dec dec_bytes (\<lambda>v.
     bind_dec dec_bytes (\<lambda>gp. bind_dec dec_int (\<lambda>g. bind_dec dec_bytes (\<lambda>inp.
     bind_dec (dec_list dec_log) (\<lambda>ls. bind_dec dec_int (\<lambda>st. bind_dec dec_bytes (\<lambda>ss. bind_dec dec_bytes (\<lambda>od.
     ret_dec \<lparr>etx_Hash = h, etx_TransactionIndex = i, etx_Nonce = n, etx_BlockHash = bh,
              etx_BlockNumber = bn, etx_From = f, etx_To = t, etx_Value = v, etx_GasPrice = gp,
              etx_Gas = g, etx_Input = inp, etx_Logs = ls, etx_Status = st, etx_StatusStr = ss, etx_OutData = od\<rparr>)))))))))))))))"

definition enc_block :: "EvmBlock \<Rightarrow> bytes" where
  "enc_block b =
     enc_int (eblk_Number b) @ enc_bytes (eblk_Hash b) @ enc_bytes (eblk_ParentHash b) @
     enc_bytes (eblk_TransactionsRoot b) @ enc_bytes (eblk_StateRoot b) @ enc_bytes (eblk_Miner b) @
     enc_int (eblk_Size b) @ enc_int (eblk_GasUsed b) @ enc_int (eblk_Timestamp b) @
     enc_list enc_bytes (eblk_Transactions b) @ enc_bytes (eblk_LogsBloom b)"

definition dec_block :: "EvmBlock dec" where
  "dec_block =
     bind_dec dec_int (\<lambda>n. bind_dec dec_bytes (\<lambda>h. bind_dec dec_bytes (\<lambda>p. bind_dec dec_bytes (\<lambda>tr.
     bind_dec dec_bytes (\<lambda>sr. bind_dec dec_bytes (\<lambda>m. bind_dec dec_int (\<lambda>s. bind_dec dec_int (\<lambda>g.
     bind_dec dec_int (\<lambda>ts. bind_dec (dec_list dec_bytes) (\<lambda>txs. bind_dec dec_bytes (\<lambda>bl.
     ret_dec \<lparr>eblk_Number = n, eblk_Hash = h, eblk_ParentHash = p, eblk_TransactionsRoot = tr,
              eblk_StateRoot = sr, eblk_Miner = m, eblk_Size = s, eblk_GasUsed = g,
              eblk_Timestamp = ts, eblk_Transactions = txs, eblk_LogsBloom = bl\<rparr>)))))))))))"

lemmas dec_enc = bind_dec_enc [OF decodes_bytes] bind_dec_enc [OF decodes_int]
  bind_dec_enc [OF decodes_list [OF decodes_bytes]]
  bind_dec_enc_end [OF decodes_bytes] bind_dec_enc_end [OF decodes_list [OF decodes_bytes]]

lemma decodes_log: "decodes enc_log dec_log"
  by (simp add: decodes_def enc_log_def dec_log_def dec_enc ret_dec_def)

lemma dec_tx_enc_tx: "dec_tx (enc_tx t) = Some (t, [])"
  by (simp add: enc_tx_def dec_tx_def dec_enc bind_dec_enc [OF decodes_list [OF decodes_log]] ret_dec_def)

lemma dec_block_enc_block: "dec_block (enc_block b) = Some (b, [])"
  by (simp add: enc_block_def dec_block_def dec_enc ret_dec_def)

lemma enc_block_nonempty: "enc_block b \<noteq> []"
  by (simp add: enc_block_def enc_int_def)

section \<open>The Solidity ABI encoding of the log data\<close>

definition abi_uint :: "int \<Rightarrow> bytes" where
  "abi_uint v = be_bytes 32 v"

definition abi_nat :: "nat \<Rightarrow> bytes" where
  "abi_nat n = abi_uint (int n)"

definition abi_token :: "TokenInfo \<Rightarrow> bytes" where
  "abi_token t = abi_uint (AddressAndTokenAmount t) @ abi_uint (TokenCategory t) @
     abi_uint (NftCommitmentLengthAndHead t) @ abi_uint (NftCommitmentTail t)"

definition abi_bytes :: "bytes \<Rightarrow> bytes" where
  "abi_bytes b = abi_nat (length b) @ b @ zeros ((32 - length b mod 32) mod 32)"

definition abi_array :: "('a \<Rightarrow> bytes) \<Rightarrow> 'a list \<Rightarrow> bytes" where
  "abi_array enc xs = abi_nat (length xs) @ concat (map enc xs)"

text \<open>Offsets of dynamic elements laid out one after the other from \<open>start\<close>.\<close>

fun abi_offsets :: "nat \<Rightarrow> bytes list \<Rightarrow> bytes" where
  "abi_offsets start [] = []"
| "abi_offsets start (p # ps) = abi_nat start @ abi_offsets (start + length p) ps"

definition abi_dynamic :: "bytes list \<Rightarrow> nat \<Rightarrow> bytes" where
  "abi_dynamic parts start = abi_offsets start parts @ concat parts"

definition abi_log_data ::
  "int \<Rightarrow> int list \<Rightarrow> int list \<Rightarrow> TokenInfo list \<Rightarrow> TokenInfo list \<Rightarrow> bytes list \<Rightarrow> bytes" where
  "abi_log_data c outs ins otoks itoks other =
     abi_uint c @
     abi_dynamic
       [abi_array abi_uint outs, abi_array abi_uint ins, abi_array abi_token otoks,
        abi_array abi_token itoks,
        abi_nat (length other) @ abi_dynamic (map abi_bytes other) (32 * length other)] 192"

section \<open>The instance\<close>

definition ref_HexToHash :: "string \<Rightarrow> bytes" where
  "ref_HexToHash s = (case hexDecodeString s of Ok bs \<Rightarrow> take 32 (bs @ zeros 32) | _ \<Rightarrow> zeros 32)"

definition ref_NewHashFromStr :: "string \<Rightarrow> bytes outcome" where
  "ref_NewHashFromStr s =
     (case hexDecodeString s of
        Ok bs \<Rightarrow> if length bs = 32 then Ok (rev bs) else Err (ErrorString ''hash length'')
      | Err e \<Rightarrow> Err e
      | Panic e \<Rightarrow> Panic e)"

definition ref_deps :: deps where
  "ref_deps =
     \<lparr>d_u256 = word_uint256,
      d_script = ref_script,
      d_DecodeAddress = hexDecodeString,
      d_AbiPack = (\<lambda>c outs ins otoks itoks other.
        Ok ([0xde, 0xad, 0xbe, 0xef] @ abi_log_data c outs ins otoks itoks other)),
      d_HexToHash = ref_HexToHash,
      d_HashString = (\<lambda>h. hexEncodeToString (rev h)),
      d_NewHashFromStr = ref_NewHashFromStr,
      d_NewHash = (\<lambda>h. if length h = 32 then Ok h else Err (ErrorString ''hash length'')),
      d_MarshalTx = (\<lambda>t. Ok (enc_tx t)),
      d_UnmarshalTx = (\<lambda>bs. case dec_tx bs of None \<Rightarrow> Err (ErrorString ''msgp'') | Some (t, _) \<Rightarrow> Ok t),
      d_MarshalBlock = (\<lambda>b. Ok (enc_block b)),
      d_UnmarshalBlock = (\<lambda>bs. case dec_block bs of None \<Rightarrow> Err (ErrorString ''msgp'') | Some (b, _) \<Rightarrow> Ok b)\<rparr>"

lemma ref_deps_u256 [simp]: "d_u256 ref_deps = word_uint256"
  by (simp add: ref_deps_def)

lemma ref_deps_script [simp]: "d_script ref_deps = ref_script"
  by (simp add: ref_deps_def)

lemma uint256_lib_ref [simp]: "uint256_lib (d_u256 ref_deps)"
  using w256.uint256_lib_axioms by simp

lemma script_lib_ref [simp]: "script_lib (d_script ref_deps)"
  using ref_scripts.script_lib_axioms by simp

interpretation ref_txid: txid_lib ref_deps
  by unfold_locales
    (auto simp: ref_deps_def hex_roundtrip ref_NewHashFromStr_def ref_HexToHash_def split: outcome.split)

interpretation ref_codec: codec_lib ref_deps
  by unfold_locales
    (auto simp: ref_deps_def dec_tx_enc_tx dec_block_enc_block enc_block_nonempty)

end
