(* ===== verification/Modb.thy ===== *)
theory Modb
  imports Ref_Deps
begin

text \<open>
  The database of \<open>moeingdb/modb\<close>, a third-party package, as a parameter of the store: the
  functions store/store.go calls, on a database state of any type \<open>'db\<close>.  Functions that take
  a callback in Go (\<open>GetBlockByHash\<close>, \<open>GetTxByHash\<close>, \<open>QueryLogs\<close>) are given by the byte strings
  they offer to it, in order; the index of the database may offer candidates the caller did not
  ask for.  \<open>AddBlock\<close> takes a pointer, and nil adds nothing.  \<open>modb_lib\<close> is what the store relies
  on, relative to the list \<open>blocks\<close> of the blocks added so far; a list of blocks implements it.
  The package indexes an added block in the background and waits for that only in its next
  \<open>AddBlock\<close>, which is why the repository's tests call \<open>AddBlock(nil)\<close> before they read: the
  contract describes the reads once this has caught up with the last \<open>AddBlock\<close>.  The program has
  the five seconds to its next tick for that, and nothing here is said of a read that comes earlier.
\<close>

record 'db modb =
  modb_AddBlock :: "ModbBlock option \<Rightarrow> 'db \<Rightarrow> 'db"
  modb_GetLatestHeight :: "'db \<Rightarrow> int"
  modb_GetBlockByHeight :: "int \<Rightarrow> 'db \<Rightarrow> bytes"
  modb_GetBlockByHash :: "bytes \<Rightarrow> 'db \<Rightarrow> bytes list"
  modb_GetTxByHash :: "bytes \<Rightarrow> 'db \<Rightarrow> bytes list"
  modb_GetTxListByHeightWithRange :: "int \<Rightarrow> int \<Rightarrow> int \<Rightarrow> 'db \<Rightarrow> bytes list"
  modb_QueryLogs ::
    "bytes list \<Rightarrow> bytes list list \<Rightarrow> int \<Rightarrow> int \<Rightarrow> 'db \<Rightarrow> bytes option list \<times> goerr option"

section \<open>Vocabulary of the contract\<close>

text \<open>A transaction is stored after its 65-byte signature, zero when none is given.\<close>

definition sigContent :: "ModbTx \<Rightarrow> bytes" where
  "sigContent t = zeros 65 @ mtx_Content t"

definition allTxs :: "ModbBlock list \<Rightarrow> ModbTx list" where
  "allTxs bs = concat (map mblk_TxList bs)"

definition blockAt :: "int \<Rightarrow> ModbBlock list \<Rightarrow> ModbBlock option" where
  "blockAt h bs = find (\<lambda>b. mblk_Height b = h) (rev bs)"

lemma find_SomeD: "find P xs = Some x \<Longrightarrow> x \<in> set xs \<and> P x"
  by (induction xs) (auto split: if_splits)

lemma blockAt_SomeD: "blockAt h bs = Some b \<Longrightarrow> b \<in> set bs \<and> mblk_Height b = h"
  by (auto simp: blockAt_def dest: find_SomeD)

text \<open>The elements from \<open>lo\<close> (inclusive) to \<open>hi\<close> (exclusive), as far as there are any.\<close>

definition slice :: "int \<Rightarrow> int \<Rightarrow> 'a list \<Rightarrow> 'a list" where
  "slice lo hi xs = take (nat (hi - max 0 lo)) (drop (nat lo) xs)"

text \<open>
  The criteria of a log query: the address is listed, or no address is given, and at every
  position where topics are listed the log has one of them.
\<close>

definition wanted :: "bytes list \<Rightarrow> bytes list list \<Rightarrow> bytes \<Rightarrow> bytes list \<Rightarrow> bool" where
  "wanted addrs topicsList a topics \<longleftrightarrow>
     (addrs = [] \<or> a \<in> set addrs) \<and> length topicsList \<le> length topics \<and>
     list_all2 (\<lambda>sub t. sub = [] \<or> t \<in> set sub) topicsList (take (length topicsList) topics)"

definition wantedTx :: "bytes list \<Rightarrow> bytes list list \<Rightarrow> ModbTx \<Rightarrow> bool" where
  "wantedTx addrs topicsList t \<longleftrightarrow>
     list_ex (\<lambda>l. wanted addrs topicsList (mlog_Address l) (mlog_Topics l)) (mtx_LogList t)"

text \<open>The transactions of the blocks from \<open>lo\<close> to before \<open>hi\<close>.\<close>

definition txsBetween :: "int \<Rightarrow> int \<Rightarrow> ModbBlock list \<Rightarrow> ModbTx list" where
  "txsBetween lo hi bs = allTxs (filter (\<lambda>b. lo \<le> mblk_Height b \<and> mblk_Height b < hi) bs)"

section \<open>The contract\<close>

locale modb_lib =
  fixes M :: "'db modb" and blocks :: "'db \<Rightarrow> ModbBlock list"
  assumes blocks_add: "blocks (modb_AddBlock M (Some b) db) = blocks db @ [b]"
    and blocks_add_nil: "blocks (modb_AddBlock M None db) = blocks db"
    and latest_height: "blocks db \<noteq> [] \<Longrightarrow> modb_GetLatestHeight M db = mblk_Height (last (blocks db))"
    and block_by_height:
      "modb_GetBlockByHeight M h db = (case blockAt h (blocks db) of None \<Rightarrow> [] | Some b \<Rightarrow> mblk_BlockInfo b)"
    and block_by_hash_sound: "bz \<in> set (modb_GetBlockByHash M k db) \<Longrightarrow> bz \<in> mblk_BlockInfo ` set (blocks db)"
    and block_by_hash_complete:
      "b \<in> set (blocks db) \<Longrightarrow> mblk_BlockInfo b \<in> set (modb_GetBlockByHash M (mblk_BlockHash b) db)"
    and tx_by_hash_sound: "bz \<in> set (modb_GetTxByHash M k db) \<Longrightarrow> bz \<in> sigContent ` set (allTxs (blocks db))"
    and tx_by_hash_complete:
      "t \<in> set (allTxs (blocks db)) \<Longrightarrow> sigContent t \<in> set (modb_GetTxByHash M (mtx_HashId t) db)"
    and tx_list: "modb_GetTxListByHeightWithRange M h lo hi db =
        (case blockAt h (blocks db) of None \<Rightarrow> [] | Some b \<Rightarrow> map sigContent (slice lo hi (mblk_TxList b)))"
    and query_sound: "Some bz \<in> set (fst (modb_QueryLogs M addrs tops lo hi db)) \<Longrightarrow>
        bz \<in> sigContent ` set (txsBetween lo hi (blocks db))"
    and query_complete: "None \<notin> set (fst (modb_QueryLogs M addrs tops lo hi db)) \<Longrightarrow>
        t \<in> set (txsBetween lo hi (blocks db)) \<Longrightarrow> wantedTx addrs tops t \<Longrightarrow>
        Some (sigContent t) \<in> set (fst (modb_QueryLogs M addrs tops lo hi db))"
begin

lemma no_block: "blocks db = [] \<Longrightarrow> modb_GetBlockByHeight M h db = []"
  by (simp add: block_by_height blockAt_def)

lemma allTxs_add: "allTxs (blocks (modb_AddBlock M (Some b) db)) = allTxs (blocks db) @ mblk_TxList b"
  by (simp add: blocks_add allTxs_def)

lemma blockAt_last:
  "blocks db \<noteq> [] \<Longrightarrow> blockAt (mblk_Height (last (blocks db))) (blocks db) = Some (last (blocks db))"
  by (cases "blocks db" rule: rev_cases) (simp_all add: blockAt_def)

end

section \<open>A list of blocks as the database\<close>

definition listModb :: "ModbBlock list modb" where
  "listModb =
     \<lparr>modb_AddBlock = (\<lambda>blk db. case blk of None \<Rightarrow> db | Some b \<Rightarrow> db @ [b]),
      modb_GetLatestHeight = (\<lambda>db. if db = [] then 0 else mblk_Height (last db)),
      modb_GetBlockByHeight = (\<lambda>h db. case blockAt h db of None \<Rightarrow> [] | Some b \<Rightarrow> mblk_BlockInfo b),
      modb_GetBlockByHash = (\<lambda>k db. map mblk_BlockInfo (filter (\<lambda>b. mblk_BlockHash b = k) db)),
      modb_GetTxByHash = (\<lambda>k db. map sigContent (filter (\<lambda>t. mtx_HashId t = k) (allTxs db))),
      modb_GetTxListByHeightWithRange = (\<lambda>h lo hi db.
        case blockAt h db of None \<Rightarrow> [] | Some b \<Rightarrow> map sigContent (slice lo hi (mblk_TxList b))),
      modb_QueryLogs = (\<lambda>addrs tops lo hi db.
        (map (\<lambda>t. Some (sigContent t)) (filter (wantedTx addrs tops) (txsBetween lo hi db)), None))\<rparr>"

interpretation listModb: modb_lib listModb "\<lambda>db. db"
  by unfold_locales (auto simp: listModb_def)

end
