(* ===== verification/Log_Filter.thy ===== *)
theory Log_Filter
  imports Modb
begin

text \<open>
  rpc/api/filters/geth_filter.go: which logs match the criteria of a filter.  \<open>filterFunc\<close> is
  shown equal to the criteria \<open>wanted\<close>, and \<open>filterLogs\<close> to a filter on them and the range of
  block numbers.
\<close>

fun includesAddr :: "bytes list \<Rightarrow> bytes \<Rightarrow> bool" where
  "includesAddr [] a = False"
| "includesAddr (addr # addresses) a = (if addr = a then True else includesAddr addresses a)"

text \<open>The inner loop of \<open>filterFunc\<close> over the alternatives for one position.\<close>

fun matchTopic :: "bytes \<Rightarrow> bytes list \<Rightarrow> bool" where
  "matchTopic t [] = False"
| "matchTopic t (topic # sub) = (if t = topic then True else matchTopic t sub)"

fun topicsLoop :: "nat \<Rightarrow> bytes list \<Rightarrow> bytes list list \<Rightarrow> bool" where
  "topicsLoop i topics [] = True"
| "topicsLoop i topics (sub # topicsList) =
     (if \<not> (length sub = 0 \<or> matchTopic (topics ! i) sub) then False
      else topicsLoop (Suc i) topics topicsList)"

definition filterFunc :: "bytes \<Rightarrow> bytes list \<Rightarrow> bytes list \<Rightarrow> bytes list list \<Rightarrow> bool" where
  "filterFunc addr topics addrList topicsList =
     (if 0 < length addrList \<and> \<not> includesAddr addrList addr then False
      else if length topics < length topicsList then False
      else topicsLoop 0 topics topicsList)"

text \<open>
  One log of \<open>filterLogs\<close>.  A bound is a \<open>*big.Int\<close>, nil as None; \<open>Int64()\<close> and \<open>Uint64()\<close>
  wrap.
\<close>

definition inRange :: "int option \<Rightarrow> int option \<Rightarrow> EvmLog \<Rightarrow> bool" where
  "inRange fromBlock toBlock l =
     (if (case fromBlock of None \<Rightarrow> False
          | Some f \<Rightarrow> 0 \<le> as_i64 f \<and> log_BlockNumber l < as_u64 f) then False
      else if (case toBlock of None \<Rightarrow> False
          | Some t \<Rightarrow> 0 \<le> as_i64 t \<and> as_u64 t < log_BlockNumber l) then False
      else True)"

fun filterLogs ::
  "EvmLog list \<Rightarrow> int option \<Rightarrow> int option \<Rightarrow> bytes list \<Rightarrow> bytes list list \<Rightarrow> EvmLog list" where
  "filterLogs [] fromBlock toBlock addresses topics = []"
| "filterLogs (l # logs) fromBlock toBlock addresses topics =
     (if \<not> inRange fromBlock toBlock l then filterLogs logs fromBlock toBlock addresses topics
      else if filterFunc (log_Address l) (log_Topics l) addresses topics
      then l # filterLogs logs fromBlock toBlock addresses topics
      else filterLogs logs fromBlock toBlock addresses topics)"

section \<open>The loops\<close>

lemma includesAddr_iff: "includesAddr as a \<longleftrightarrow> a \<in> set as"
  by (induction as) auto

lemma matchTopic_iff: "matchTopic t sub \<longleftrightarrow> t \<in> set sub"
  by (induction sub) auto

lemma topicsLoop_iff:
  "i + length subs \<le> length ts \<Longrightarrow>
   topicsLoop i ts subs \<longleftrightarrow> list_all2 (\<lambda>sub t. sub = [] \<or> t \<in> set sub) subs (take (length subs) (drop i ts))"
proof (induction subs arbitrary: i)
  case (Cons sub subs)
  then have "take (length (sub # subs)) (drop i ts) = ts ! i # take (length subs) (drop (Suc i) ts)"
    by (simp add: Cons_nth_drop_Suc [symmetric])
  with Cons show ?case by (simp add: matchTopic_iff)
qed simp

lemma filterFunc_wanted: "filterFunc a ts as subs = wanted as subs a ts"
  by (auto simp: filterFunc_def wanted_def includesAddr_iff topicsLoop_iff)

section \<open>Properties\<close>

text \<open>
  \<open>filterFunc\<close> accepts a log if and only if its address is listed
  (or none is given), it has at least as many topics as there are positions in the criteria, and
  at every position with alternatives its topic is one of them.
\<close>

lemma filterFunc_iff:
  "filterFunc addr topics addrList topicsList \<longleftrightarrow>
     (addrList = [] \<or> addr \<in> set addrList) \<and> length topicsList \<le> length topics \<and>
     (\<forall>i < length topicsList. topicsList ! i = [] \<or> topics ! i \<in> set (topicsList ! i))"
  by (auto simp: filterFunc_wanted wanted_def list_all2_conv_all_nth)

text \<open>
  C33: \<open>filterLogs\<close> keeps, in order, exactly the logs that match the criteria and whose block number
  lies between the bounds; a bound that is absent or negative (\<open>latest\<close>, \<open>pending\<close>) does not
  restrict.
\<close>

theorem filterLogs_filter:
  assumes "\<And>f. fromBlock = Some f \<Longrightarrow> - (2 ^ 63) \<le> f \<and> f < 2 ^ 63"
    and "\<And>t. toBlock = Some t \<Longrightarrow> - (2 ^ 63) \<le> t \<and> t < 2 ^ 63"
    and "\<And>l. l \<in> set logs \<Longrightarrow> 0 \<le> log_BlockNumber l"
  shows "filterLogs logs fromBlock toBlock addresses topics =
    filter (\<lambda>l. (case fromBlock of None \<Rightarrow> True | Some f \<Rightarrow> f < 0 \<or> f \<le> log_BlockNumber l) \<and>
                (case toBlock of None \<Rightarrow> True | Some t \<Rightarrow> t < 0 \<or> log_BlockNumber l \<le> t) \<and>
                wanted addresses topics (log_Address l) (log_Topics l)) logs"
proof -
  have id: "as_i64 x = x" if "- (2 ^ 63) \<le> x \<and> x < 2 ^ 63" for x
    using that by (simp add: as_i64_def)
  have u: "as_u64 x = x" if "0 \<le> x \<and> x < 2 ^ 63" for x
    using that by (simp add: as_u64_def)
  have "inRange fromBlock toBlock l \<longleftrightarrow>
      (case fromBlock of None \<Rightarrow> True | Some f \<Rightarrow> f < 0 \<or> f \<le> log_BlockNumber l) \<and>
      (case toBlock of None \<Rightarrow> True | Some t \<Rightarrow> t < 0 \<or> log_BlockNumber l \<le> t)" for l
    using assms(1,2) id u by (auto simp: inRange_def split: option.splits)
  then show ?thesis by (induction logs) (simp_all add: filterFunc_wanted)
qed

theorem filterLogs_filter_witness:
  "let l = \<lparr>log_Address = [1], log_Topics = [[2], [3]], log_Data = [], log_BlockNumber = 7, log_TxHash = [],
            log_TxIndex = 0, log_BlockHash = []\<rparr>
   in filterLogs [l, l\<lparr>log_BlockNumber := 4\<rparr>, l\<lparr>log_Address := [9]\<rparr>] (Some 5) (Some (- 1)) [[1]] [[], [[3]]] = [l]"
proof -
  define l where "l = \<lparr>log_Address = [1], log_Topics = [[2], [3]], log_Data = [], log_BlockNumber = 7,
      log_TxHash = [], log_TxIndex = 0, log_BlockHash = []\<rparr>"
  have n: "\<And>k. k \<in> set [l, l\<lparr>log_BlockNumber := 4\<rparr>, l\<lparr>log_Address := [9]\<rparr>] \<Longrightarrow> 0 \<le> log_BlockNumber k"
    by (auto simp: l_def)
  have "filterLogs [l, l\<lparr>log_BlockNumber := 4\<rparr>, l\<lparr>log_Address := [9]\<rparr>] (Some 5) (Some (- 1)) [[1]] [[], [[3]]] = [l]"
    by (subst filterLogs_filter [OF _ _ n]) (auto simp: l_def wanted_def)
  then show ?thesis by (simp only: Let_def l_def)
qed

end
