(* ===== verification/Egtx.thy ===== *)
theory Egtx
  imports Ref_Deps
begin

text \<open>
  bch/egtx.go and the packing half of bch/abi.go: reading the OP_RETURN data of an EGTX
  output, normalising its elements to addresses and topics, describing an input's sender,
  and packing the log data.  The laws of the ABI encoder are the locale \<open>abi_lib\<close>.
\<close>

section \<open>Reading the OP\_RETURN data (bch/egtx.go)\<close>

definition EGTXFlag :: string where
  "EGTXFlag = ''6a0445475458''"

definition convertToByte32 :: "bytes \<Rightarrow> bytes" where
  "convertToByte32 o1 =
     (let out = zeros 32; l = length o1 in
      if l = 0 then out
      else if l \<le> 32 then copy_into out (32 - l) 32 o1
      else copy_into out 0 32 (take 32 o1))"

definition convertToByte20 :: "bytes \<Rightarrow> bytes" where
  "convertToByte20 o1 =
     (let out = zeros 20; l = length o1 in
      if l = 0 then out
      else if l \<le> 20 then copy_into out (20 - l) 20 o1
      else copy_into out 0 20 (take 20 o1))"

text \<open>The loop of \<open>ExtractEGTXNullData\<close>: \<open>i\<close> is the index of the next element.\<close>

fun extractLoop :: "nat \<Rightarrow> bytes list \<Rightarrow> bytes \<times> bytes list \<times> bytes list \<Rightarrow> bytes \<times> bytes list \<times> bytes list" where
  "extractLoop i [] acc = acc"
| "extractLoop i (e # es) (contractAddress, topics, otherData) =
     extractLoop (Suc i) es
       (if i = 0 then (convertToByte20 e, topics, otherData)
        else if 1 \<le> i \<and> i \<le> 4 then
          (if length e \<noteq> 0 then (contractAddress, topics @ [convertToByte32 e], otherData)
           else (contractAddress, topics, otherData))
        else (contractAddress, topics, otherData @ [e]))"

definition ExtractEGTXNullData :: "deps \<Rightarrow> string \<Rightarrow> (bytes \<times> bytes list \<times> bytes list) outcome" where
  "ExtractEGTXNullData D nullDataHexStr =
     (case hexDecodeString nullDataHexStr of
        Err e \<Rightarrow> Err e
      | Panic e \<Rightarrow> Panic e
      | Ok script \<Rightarrow>
        (case PushedData (d_script D) script of
           Err e \<Rightarrow> Err e
         | Panic e \<Rightarrow> Panic e
         | Ok es \<Rightarrow> Ok (extractLoop 0 es (zeros 20, [], []))))"

definition ParseEGTXNullData :: "deps \<Rightarrow> string \<Rightarrow> (bytes \<times> bytes list \<times> bytes list) outcome" where
  "ParseEGTXNullData D script =
     (if \<not> hasPrefix script EGTXFlag then Err NotHaveEGTXNulldata
      else ExtractEGTXNullData D (trimPrefix script EGTXFlag))"

definition ExtractNullData :: "deps \<Rightarrow> string \<Rightarrow> bytes list outcome" where
  "ExtractNullData D nullDataHexStr =
     (case hexDecodeString nullDataHexStr of
        Err e \<Rightarrow> Err e
      | Panic e \<Rightarrow> Panic e
      | Ok script \<Rightarrow> PushedData (d_script D) script)"

section \<open>Packing the log data (bch/abi.go, bch/egtx.go)\<close>

definition PackEGTXLogDataEvent ::
  "deps \<Rightarrow> int \<Rightarrow> int list \<Rightarrow> int list \<Rightarrow> TokenInfo list \<Rightarrow> TokenInfo list \<Rightarrow> bytes list \<Rightarrow> bytes outcome" where
  "PackEGTXLogDataEvent D confirmations outputs inputs outputTokenInfos inputTokenInfos otherData =
     (case d_AbiPack D confirmations outputs inputs outputTokenInfos inputTokenInfos otherData of
        Err e \<Rightarrow> Panic e
      | Panic e \<Rightarrow> Panic e
      | Ok out \<Rightarrow> if length out < 4 then Panic IndexOutOfRange else Ok (drop 4 out))"

definition BuildLogData ::
  "deps \<Rightarrow> uint256 \<Rightarrow> bytes list \<Rightarrow> bytes list \<Rightarrow> TokenInfo list \<Rightarrow> TokenInfo list \<Rightarrow> bytes list \<Rightarrow> bytes outcome" where
  "BuildLogData D confirmations outputInfoArray inputInfoArray outputTokenInfos inputTokenInfos other =
     (let U = d_u256 D;
          outputInfos = map (\<lambda>o1. u_ToBig U (u_SetBytes32 U o1)) outputInfoArray;
          inputInfos = map (\<lambda>i1. u_ToBig U (u_SetBytes32 U i1)) inputInfoArray
      in PackEGTXLogDataEvent D (u_ToBig U confirmations) outputInfos inputInfos
           outputTokenInfos inputTokenInfos other)"

section \<open>Amounts and senders (bch/egtx.go)\<close>

text \<open>\<open>uint64(value*1e8)\<close>, for the amounts a node can report.\<close>

definition satoshis :: "f64 \<Rightarrow> uint64" where
  "satoshis value = word_of_int (f64_trunc (f64_mul value (F64 100000000 0)))"

text \<open>\<open>Mul(NewInt(uint64(value*1e8)), NewInt(1e10)).Bytes20()[8:]\<close>: wei in 12 bytes.\<close>

definition amountBytes :: "deps \<Rightarrow> f64 \<Rightarrow> bytes" where
  "amountBytes D value =
     (let U = d_u256 D
      in drop 8 (u_Bytes20 U (u_Mul U (u_NewInt U (satoshis value)) (u_NewInt U 10000000000))))"

definition isP2PKHorP2SH :: "ScriptPubKeyResult \<Rightarrow> bool" where
  "isP2PKHorP2SH spk \<longleftrightarrow> spk_Type spk = ''pubkeyhash'' \<or> spk_Type spk = ''scripthash''"

text \<open>\<open>copy(info[:20], scriptAddress)\<close> and \<open>copy(info[20:], amount[8:])\<close> on a zero array.\<close>

definition addressAndAmount :: "deps \<Rightarrow> bytes \<Rightarrow> f64 \<Rightarrow> bytes" where
  "addressAndAmount D scriptAddress value =
     copy_into (copy_into (zeros 32) 0 20 scriptAddress) 20 32 (amountBytes D value)"

definition ExtractSenderInfo :: "deps \<Rightarrow> TxRawResult \<Rightarrow> nat \<Rightarrow> bytes outcome" where
  "ExtractSenderInfo D originTx vout =
     (if length (raw_Vout originTx) \<le> vout then Panic IndexOutOfRange
      else
        let originVoutPkScript = vout_ScriptPubKey (raw_Vout originTx ! vout);
            originValue = vout_Value (raw_Vout originTx ! vout)
        in if isP2PKHorP2SH originVoutPkScript then
             (if length (spk_Addresses originVoutPkScript) \<noteq> 1
              then Err (ErrorString ''wrong address count'')
              else
                case d_DecodeAddress D (spk_Addresses originVoutPkScript ! 0) of
                  Err _ \<Rightarrow> Err (ErrorString ''failed to decode address: %!w(<nil>)'')
                | Panic e \<Rightarrow> Panic e
                | Ok senderAddr \<Rightarrow> Ok (addressAndAmount D senderAddr originValue))
           else Err (ErrorString ''invalid pkScript''))"

section \<open>What the ABI encoder promises\<close>

text \<open>
  An encoded number is an unsigned 256-bit integer.  \<open>confirmations\<close> is the first argument and
  has a static type: its 32 bytes come right after the 4-byte selector, and the encoding of
  the other arguments does not depend on its value.
\<close>

definition is_u256 :: "int \<Rightarrow> bool" where
  "is_u256 x \<longleftrightarrow> 0 \<le> x \<and> x < 2 ^ 256"

definition token_ok :: "TokenInfo \<Rightarrow> bool" where
  "token_ok t \<longleftrightarrow> is_u256 (AddressAndTokenAmount t) \<and> is_u256 (TokenCategory t) \<and>
     is_u256 (NftCommitmentLengthAndHead t) \<and> is_u256 (NftCommitmentTail t)"

definition args_ok :: "int list \<Rightarrow> int list \<Rightarrow> TokenInfo list \<Rightarrow> TokenInfo list \<Rightarrow> bool" where
  "args_ok outs ins otoks itoks \<longleftrightarrow>
     list_all is_u256 outs \<and> list_all is_u256 ins \<and> list_all token_ok otoks \<and> list_all token_ok itoks"

locale abi_lib =
  fixes D :: deps
  assumes abi_static_head: "args_ok outs ins otoks itoks \<Longrightarrow>
    \<exists>sel rest. length sel = 4 \<and>
      (\<forall>c. is_u256 c \<longrightarrow> d_AbiPack D c outs ins otoks itoks other = Ok (sel @ be_bytes 32 c @ rest))"
begin

lemma pack_layout:
  assumes "args_ok outs ins otoks itoks"
  obtains rest where
    "\<And>c. is_u256 c \<Longrightarrow> PackEGTXLogDataEvent D c outs ins otoks itoks other = Ok (be_bytes 32 c @ rest)"
proof -
  from abi_static_head [OF assms, of other] obtain sel rest where
    sel: "length sel = 4" and
    enc: "\<And>c. is_u256 c \<Longrightarrow> d_AbiPack D c outs ins otoks itoks other = Ok (sel @ be_bytes 32 c @ rest)"
    by blast
  have "PackEGTXLogDataEvent D c outs ins otoks itoks other = Ok (be_bytes 32 c @ rest)"
    if "is_u256 c" for c
    using enc [OF that] sel by (simp add: PackEGTXLogDataEvent_def)
  then show ?thesis by (rule that)
qed

end

section \<open>Lemmas: normalised elements\<close>

lemma convertToByte32_short: "length e \<le> 32 \<Longrightarrow> convertToByte32 e = zeros (32 - length e) @ e"
  by (cases "e = []") (simp_all add: convertToByte32_def Let_def copy_into_exact)

lemma convertToByte32_long: "32 < length e \<Longrightarrow> convertToByte32 e = take 32 e"
  by (auto simp: convertToByte32_def Let_def copy_into_exact)

lemma convertToByte20_short: "length e \<le> 20 \<Longrightarrow> convertToByte20 e = zeros (20 - length e) @ e"
  by (cases "e = []") (simp_all add: convertToByte20_def Let_def copy_into_exact)

lemma convertToByte20_long: "20 < length e \<Longrightarrow> convertToByte20 e = take 20 e"
  by (auto simp: convertToByte20_def Let_def copy_into_exact)

lemma length_convertToByte32 [simp, array_len]: "length (convertToByte32 e) = 32"
  by (cases "length e \<le> 32") (simp_all add: convertToByte32_short convertToByte32_long)

lemma length_convertToByte20 [simp, array_len]: "length (convertToByte20 e) = 20"
  by (cases "length e \<le> 20") (simp_all add: convertToByte20_short convertToByte20_long)

section \<open>Lemmas: the extraction loop\<close>

lemma extractLoop_ge5:
  "5 \<le> i \<Longrightarrow> extractLoop i es (a, ts, od) = (a, ts, od @ es)"
  by (induction i es "(a, ts, od)" arbitrary: a ts od rule: extractLoop.induct) auto

lemma extractLoop_topics:
  "1 \<le> i \<Longrightarrow> i \<le> 5 \<Longrightarrow>
   extractLoop i es (a, ts, od) =
     (a, ts @ map convertToByte32 (filter (\<lambda>e. e \<noteq> []) (take (5 - i) es)), od @ drop (5 - i) es)"
proof (induction es arbitrary: i ts od)
  case Nil
  then show ?case by simp
next
  case (Cons e es)
  show ?case
  proof (cases "i = 5")
    case True
    then show ?thesis by (simp only: extractLoop_ge5) simp
  next
    case False
    with Cons.prems have "5 - i = Suc (5 - Suc i)" "1 \<le> Suc i" "Suc i \<le> 5" "i \<noteq> 0" "i \<le> 4" by auto
    with Cons.prems(1) show ?thesis by (simp add: Cons.IH)
  qed
qed

text \<open>The loop, as the README states its result.\<close>

lemma extractLoop_spec:
  "extractLoop 0 es (zeros 20, [], []) =
     (case es of [] \<Rightarrow> zeros 20 | e # _ \<Rightarrow> convertToByte20 e,
      map convertToByte32 (filter (\<lambda>e. e \<noteq> []) (take 4 (drop 1 es))),
      drop 5 es)"
  by (cases es) (simp_all add: extractLoop_topics [of 1, simplified] numeral_eq_Suc)

lemma ExtractEGTXNullData_Ok:
  "ExtractEGTXNullData D s = Ok r \<longleftrightarrow>
     (\<exists>script es. hexDecodeString s = Ok script \<and> PushedData (d_script D) script = Ok es \<and>
        r = extractLoop 0 es (zeros 20, [], []))"
  by (auto simp: ExtractEGTXNullData_def split: outcome.splits)

lemma ExtractEGTXNullData_shape:
  assumes "ExtractEGTXNullData D s = Ok (a, ts, od)"
  shows "length a = 20 \<and> length ts \<le> 4 \<and> (\<forall>t \<in> set ts. length t = 32)"
proof -
  from assms obtain es where "(a, ts, od) = extractLoop 0 es (zeros 20, [], [])"
    by (auto simp: ExtractEGTXNullData_Ok)
  then have a: "a = (case es of [] \<Rightarrow> zeros 20 | e # _ \<Rightarrow> convertToByte20 e)"
    and ts: "ts = map convertToByte32 (filter (\<lambda>e. e \<noteq> []) (take 4 (drop 1 es)))"
    by (simp_all add: extractLoop_spec)
  have "length ts \<le> length (take 4 (drop 1 es))"
    by (simp only: ts length_map length_filter_le)
  then have "length ts \<le> 4" by simp
  with a ts show ?thesis by (auto split: list.split)
qed

section \<open>Lemmas: amounts\<close>

context uint256_lib
begin

lemma amountBytes_be:
  "d_u256 D = U \<Longrightarrow> amountBytes D v = be_bytes 12 (uint (satoshis v) * 10000000000)"
  by (simp add: amountBytes_def product12)

end

lemma addressAndAmount_layout:
  assumes "uint256_lib (d_u256 D)" and "length a = 20"
  shows "addressAndAmount D a v = a @ be_bytes 12 (uint (satoshis v) * 10000000000)"
  using assms
  by (simp add: addressAndAmount_def uint256_lib.amountBytes_be copy_into_exact)

lemma length_addressAndAmount [simp, array_len]: "length (addressAndAmount D a v) = 32"
  by (simp add: addressAndAmount_def)

lemma ExtractSenderInfo_length: "ExtractSenderInfo D t i = Ok info \<Longrightarrow> length info = 32"
  by (auto simp: ExtractSenderInfo_def Let_def split: if_splits outcome.splits)

section \<open>The ABI encoding of the reference instance\<close>

lemma ref_AbiPack:
  "d_AbiPack ref_deps c outs ins otoks itoks other =
     Ok ([0xde, 0xad, 0xbe, 0xef] @ be_bytes 32 c @ drop 32 (abi_log_data 0 outs ins otoks itoks other))"
  by (simp add: ref_deps_def abi_log_data_def abi_uint_def)

interpretation ref_abi: abi_lib ref_deps
proof unfold_locales
  fix outs ins otoks itoks other
  show "\<exists>sel rest. length sel = 4 \<and>
      (\<forall>c. is_u256 c \<longrightarrow> d_AbiPack ref_deps c outs ins otoks itoks other = Ok (sel @ be_bytes 32 c @ rest))"
    by (rule exI [of _ "[0xde, 0xad, 0xbe, 0xef]"]) (auto simp: ref_AbiPack)
qed

section \<open>Properties\<close>

text \<open>
  The README's normalisation: zero-padded on the left if too short, cut at the end if too
  long.
\<close>

definition fit :: "nat \<Rightarrow> bytes \<Rightarrow> bytes" where
  "fit n e = (if length e \<le> n then zeros (n - length e) @ e else take n e)"

text \<open>An element as a script pushes it: \<open>OP_0\<close> for the empty one.\<close>

definition push_elem :: "bytes \<Rightarrow> bytes" where
  "push_elem d = (if d = [] then [0] else push d)"

definition egtx_script :: "bytes list \<Rightarrow> bytes" where
  "egtx_script ds = 0x6a # push (bytes_of ''EGTX'') @ concat (map push_elem ds)"

lemma fit_20: "convertToByte20 e = fit 20 e"
  by (simp add: fit_def convertToByte20_short convertToByte20_long)

lemma fit_32: "convertToByte32 e = fit 32 e"
  by (simp add: fit_def convertToByte32_short convertToByte32_long)

text \<open>A data element read as a number keeps its value unless it is cut.\<close>

lemma fit_value: "length e \<le> n \<Longrightarrow> be_val (fit n e) = be_val e"
  by (simp add: fit_def)

lemma EGTXFlag_hex: "hexEncodeToString (0x6a # push (bytes_of ''EGTX'')) = EGTXFlag"
  by code_simp

lemma push_elem_Nil [simp]: "push_elem [] = [0]"
  by (simp add: push_elem_def)

lemma push_elem_nonempty [simp]: "d \<noteq> [] \<Longrightarrow> push_elem d = push d"
  by (simp add: push_elem_def)

lemma pushed_elems:
  assumes "script_lib S"
  shows "(\<And>d. d \<in> set ds \<Longrightarrow> length d \<le> 75) \<Longrightarrow> PushedData S (concat (map push_elem ds)) = Ok ds"
proof (induction ds)
  case Nil
  then show ?case by (simp add: script_lib.pushed_Nil [OF assms])
next
  case (Cons d ds)
  then have "PushedData S (concat (map push_elem ds)) = Ok ds" and "length d \<le> 75" by simp_all
  then show ?case
    by (cases "d = []")
      (simp_all add: script_lib.pushed_OP_0 [OF assms] script_lib.pushed_push [OF assms] Suc_le_eq)
qed

lemma parse_egtx_script:
  assumes "script_lib (d_script D)" and "\<And>d. d \<in> set ds \<Longrightarrow> length d \<le> 75"
  shows "ParseEGTXNullData D (hexEncodeToString (egtx_script ds)) =
    Ok (fit 20 (case ds of [] \<Rightarrow> [] | d # _ \<Rightarrow> d),
        map (fit 32) (filter (\<lambda>d. d \<noteq> []) (take 4 (drop 1 ds))),
        drop 5 ds)"
proof -
  let ?rest = "hexEncodeToString (concat (map push_elem ds))"
  have "hexEncodeToString (egtx_script ds) = EGTXFlag @ ?rest"
    using hexEncode_append [of "0x6a # push (bytes_of ''EGTX'')" "concat (map push_elem ds)"]
    by (simp add: egtx_script_def EGTXFlag_hex)
  then have "ParseEGTXNullData D (hexEncodeToString (egtx_script ds)) = ExtractEGTXNullData D ?rest"
    by (simp add: ParseEGTXNullData_def)
  also have "\<dots> = Ok (extractLoop 0 ds (zeros 20, [], []))"
    using pushed_elems [OF assms] by (simp add: ExtractEGTXNullData_def hex_roundtrip)
  finally show ?thesis
    by (cases ds) (simp_all add: extractLoop_spec fit_20 fit_32 fit_def [of 20 "[]"]
        del: extractLoop.simps cong: map_cong)
qed

text \<open>
  C11: The deriving rules of the README, on a whole script.  For an output script that is
  OP\_RETURN, a push of \<open>EGTX\<close> and then pushes of the elements \<open>ds\<close> (each of at most 75
  bytes, empty ones as OP\_FALSE), \<open>ParseEGTXNullData\<close> succeeds: the first element is the
  contract address, the non-empty ones among the next four are the topics in order, all
  normalised to 20 and 32 bytes, and everything from the sixth element on is other data,
  unchanged.
\<close>

theorem ParseEGTXNullData_rules:
  assumes "script_lib (d_script D)" and "\<And>d. d \<in> set ds \<Longrightarrow> length d \<le> 75"
  shows "ParseEGTXNullData D (hexEncodeToString (egtx_script ds)) =
    Ok (fit 20 (case ds of [] \<Rightarrow> [] | d # _ \<Rightarrow> d),
        map (fit 32) (filter (\<lambda>d. d \<noteq> []) (take 4 (drop 1 ds))),
        drop 5 ds)"
  by (rule parse_egtx_script [OF assms])

theorem ParseEGTXNullData_rules_witness:
  "ParseEGTXNullData ref_deps
     (hexEncodeToString (egtx_script [[1], [2, 3], [], replicate 40 9, [4], [5], []])) =
   Ok (zeros 19 @ [1], [zeros 30 @ [2, 3], replicate 32 9, zeros 31 @ [4]], [[5], []])"
  by (subst ParseEGTXNullData_rules [OF script_lib_ref]) (auto simp: fit_def)

text \<open>
  C36: Whatever the script, a successful \<open>ExtractEGTXNullData\<close> yields a 20-byte contract
  address and at most four topics, each of 32 bytes: what the EVM's LOG1 to LOG4 and the
  four-element array of the store's \<open>QueryLogs\<close> allow.
\<close>

theorem ExtractEGTXNullData_bounds:
  assumes "ExtractEGTXNullData D s = Ok (contractAddress, topics, otherData)"
  shows "length contractAddress = 20 \<and> length topics \<le> 4 \<and> list_all (\<lambda>t. length t = 32) topics"
  using ExtractEGTXNullData_shape [OF assms] by (simp add: list_all_iff)

theorem ExtractEGTXNullData_bounds_witness:
  "ExtractEGTXNullData ref_deps ''0101000102'' = Ok (zeros 19 @ [1], [zeros 31 @ [2]], []) \<and>
   length (zeros 19 @ [1] :: bytes) = 20 \<and> length [zeros 31 @ [2] :: bytes] \<le> 4 \<and>
   list_all (\<lambda>t. length t = 32) [zeros 31 @ [2] :: bytes]"
proof -
  have e: "ExtractEGTXNullData ref_deps ''0101000102'' = Ok (zeros 19 @ [1], [zeros 31 @ [2]], [])"
    by code_simp
  from e ExtractEGTXNullData_bounds [OF e] show ?thesis by (rule conjI)
qed

text \<open>
  C35: Amounts are off by at most one satoshi.  If the node reports \<open>s\<close> satoshis (up to the
  21 million coins there are) as the \<open>float64\<close> nearest to \<open>s / 1e8\<close>, then
  \<open>uint64(value*1e8)\<close> is \<open>s\<close> or \<open>s - 1\<close>.
\<close>

theorem satoshis_within_one:
  assumes s: "0 \<le> s" "s \<le> 2100000000000000"
    and v: "\<bar>f64_val v - of_int s / 10 ^ 8\<bar> \<le> of_int s / 10 ^ 8 / 2 ^ 53"
  shows "uint (satoshis v) = s \<or> uint (satoshis v) = s - 1"
proof -
  obtain m e where ve: "v = F64 m e" by (cases v)
  define x where "x = f64_val v * 10 ^ 8"
  define r where "r = f64_val (f64_mul v (F64 100000000 0))"
  have x: "\<bar>x - s\<bar> \<le> s / 2 ^ 53"
    using v unfolding x_def by (simp add: abs_le_iff field_simps)
  have sb: "0 \<le> real_of_int s" "real_of_int s \<le> 2100000000000000" using s by simp_all
  from x have "\<bar>x - s\<bar> \<le> s / 9007199254740992" by simp
  then have x1: "x - s \<le> s / 9007199254740992" "s - x \<le> s / 9007199254740992"
    by linarith+
  with sb have x0: "0 \<le> x" "x \<le> 2 * s" by linarith+
  then have "0 \<le> real_of_int m * 2 powi e" by (simp add: x_def ve)
  then have "0 \<le> m" by (metis mult_neg_pos not_le of_int_0_le_iff zero_less_numeral zero_less_power_int)
  then have "\<bar>r - of_int (m * 100000000) * 2 powi e\<bar> \<le> of_int (m * 100000000) * 2 powi e / 2 ^ 53"
    using f64_round_error [of "m * 100000000" e] by (simp only: r_def ve f64_mul.simps add_0_right)
  moreover have "of_int (m * 100000000) * 2 powi e = x" by (simp add: x_def ve)
  ultimately have r: "\<bar>r - x\<bar> \<le> x / 2 ^ 53" by simp
  then have "\<bar>r - x\<bar> \<le> x / 9007199254740992" by simp
  then have "r - x \<le> x / 9007199254740992" "x - r \<le> x / 9007199254740992"
    by linarith+
  with x1 x0 sb have "r - s < 1" "s - r < 1" and r0: "0 \<le> r" by linarith+
  then have close: "\<bar>r - s\<bar> < 1" by linarith
  have t: "f64_trunc (f64_mul v (F64 100000000 0)) = \<lfloor>r\<rfloor>"
    unfolding r_def by (rule f64_trunc_floor) (use r0 r_def in simp)
  have fl: "\<lfloor>r\<rfloor> = s \<or> \<lfloor>r\<rfloor> = s - 1" using close by linarith
  moreover have "0 \<le> \<lfloor>r\<rfloor>" using r0 by simp
  ultimately have "0 \<le> \<lfloor>r\<rfloor>" "\<lfloor>r\<rfloor> < 18446744073709551616" using s by linarith+
  then have "uint (word_of_int \<lfloor>r\<rfloor> :: uint64) = \<lfloor>r\<rfloor>"
    by (simp only: uint_word_of_int) simp
  with fl t show ?thesis by (simp add: satoshis_def)
qed

text \<open>
  The conversion truncates where it should round: for the \<open>float64\<close> nearest to 0.29, an
  output of 29000000 satoshis is recorded as 28999999.
\<close>

lemma satoshis_loses_one: "satoshis (F64 5224175567749775 (- 54)) = 28999999"
  by code_simp

lemma f64_029: "\<bar>f64_val (F64 5224175567749775 (- 54)) - of_int 29000000 / 10 ^ 8\<bar> \<le> of_int 29000000 / 10 ^ 8 / 2 ^ 53"
  by (simp add: power_int_minus abs_le_iff)

theorem satoshis_within_one_witness:
  "uint (satoshis (F64 5224175567749775 (- 54))) = 29000000 \<or>
   uint (satoshis (F64 5224175567749775 (- 54))) = 28999999"
  using satoshis_within_one [OF _ _ f64_029] by simp

end
