(* ===== verification/Scanner.thy ===== *)
theory Scanner
  imports Egtx
begin

text \<open>
  scanner/bch.go: turning the node's transactions into virtual transactions and collecting the
  new ones from mined blocks and from the mempool.

  The node is a \<open>BchClient\<close>, the answers of the interface \<open>IBchClient\<close> (bch/client.go) during
  one call of the scanner; nothing is assumed of them, so a transaction may, for instance, be
  in a block and in the mempool.  The store is the predicate \<open>isTxMined\<close>.  Go's random choice
  among the keys of a map is the argument \<open>pick\<close> of \<open>AddKnownTx\<close>.
\<close>

record BchClient =
  GetRawMempool :: "bytes list outcome"
  GetRawTransactionVerbose :: "bytes \<Rightarrow> TxRawResult outcome"
  GetBlockCount :: "int outcome"
  GetBlockHash :: "int \<Rightarrow> bytes outcome"
  GetBlockVerboseTx :: "bytes \<Rightarrow> TxRawResult list outcome"

record BchScanner =
  bs_MaxTxsInBlock :: int
  bs_LatestScanBlockHeight :: int
  bs_knownTxCache :: "string set"

definition MaxCacheSize :: nat where
  "MaxCacheSize = 100000"

definition NewBchScanner :: "int \<Rightarrow> BchScanner" where
  "NewBchScanner maxTxsInBlock =
     \<lparr>bs_MaxTxsInBlock = maxTxsInBlock, bs_LatestScanBlockHeight = 0, bs_knownTxCache = {}\<rparr>"

definition SetLatestScanHeight :: "int \<Rightarrow> BchScanner \<Rightarrow> BchScanner" where
  "SetLatestScanHeight blockHeight b = b\<lparr>bs_LatestScanBlockHeight := blockHeight\<rparr>"

definition GetLatestScanHeight :: "BchScanner \<Rightarrow> int" where
  "GetLatestScanHeight b = bs_LatestScanBlockHeight b"

definition AddKnownTx :: "(string set \<Rightarrow> string) \<Rightarrow> string \<Rightarrow> BchScanner \<Rightarrow> BchScanner" where
  "AddKnownTx pick txHash b =
     (let cache = bs_knownTxCache b;
          kept = (if MaxCacheSize < card cache then cache - {pick cache} else cache)
      in b\<lparr>bs_knownTxCache := insert txHash kept\<rparr>)"

definition isKnownTx :: "string \<Rightarrow> BchScanner \<Rightarrow> bool" where
  "isKnownTx txHash b \<longleftrightarrow> txHash \<in> bs_knownTxCache b"

section \<open>Token information\<close>

definition capabilityCode :: "string \<Rightarrow> byte" where
  "capabilityCode c =
     (if c = ''none'' then 1 else if c = ''mutable'' then 2 else if c = ''minting'' then 3 else 0)"

definition buildTokenInfo :: "deps \<Rightarrow> bytes \<Rightarrow> TokenDataResult \<Rightarrow> TokenInfo outcome" where
  "buildTokenInfo D address tokenData =
     (let U = d_u256 D;
          addressAndTokenAmount = copy_into (zeros 32) 0 20 address
      in case parseInt (td_Amount tokenData) of
           Err e \<Rightarrow> Err e
         | Panic e \<Rightarrow> Panic e
         | Ok amount \<Rightarrow>
           (let amount20 = u_Bytes20 U (u_NewInt U (word_of_int amount));
                addressAndTokenAmount = copy_into addressAndTokenAmount 20 32 (drop 8 amount20)
            in case hexDecodeString (td_Category tokenData) of
                 Err e \<Rightarrow> Err e
               | Panic e \<Rightarrow> Panic e
               | Ok category \<Rightarrow>
                 if length category \<noteq> 32 then Err (ErrorString ''invalid category'')
                 else
                   let commitment = bytes_of (td_Commitment tokenData);
                       lengthAndHead = (zeros 32)[0 := word_of_nat (length commitment)];
                       lengthAndHead = lengthAndHead[1 := capabilityCode (td_Capability tokenData)]
                   in if 40 < length commitment then Err (ErrorString ''invalid nft commitment'')
                      else
                        let lengthAndHead = copy_into lengthAndHead 24 32 commitment;
                            tail = (if 8 < length commitment
                                    then copy_into (zeros 32) 0 32 (drop 8 commitment) else zeros 32)
                        in Ok \<lparr>AddressAndTokenAmount = be_val addressAndTokenAmount,
                               TokenCategory = be_val category,
                               NftCommitmentLengthAndHead = be_val lengthAndHead,
                               NftCommitmentTail = be_val tail\<rparr>))"

section \<open>Deriving a transaction\<close>

record VoutAcc =
  acc_nullData :: string
  acc_receiverInfos :: "bytes list"
  acc_otherNullDatas :: "bytes list"
  acc_outputTokenInfos :: "TokenInfo list"

definition noVout :: VoutAcc where
  "noVout = \<lparr>acc_nullData = [], acc_receiverInfos = [], acc_otherNullDatas = [], acc_outputTokenInfos = []\<rparr>"

text \<open>The checks on the first two outputs.\<close>

definition checkVout :: "nat \<Rightarrow> Vout \<Rightarrow> VoutAcc \<Rightarrow> VoutAcc outcome" where
  "checkVout i vout acc =
     (let spk = vout_ScriptPubKey vout in
      if i = 0 \<and> spk_Type spk \<noteq> ''nulldata'' then Err FirstOutputMustEGTX
      else if i = 0 \<and> \<not> hasPrefix (spk_Hex spk) EGTXFlag then Err NotHaveEGTXNulldata
      else if i = 1 \<and> \<not> isP2PKHorP2SH spk then Err SecondOutputInvalid
      else Ok (if i = 0 then acc\<lparr>acc_nullData := drop (length EGTXFlag) (spk_Hex spk)\<rparr> else acc))"

text \<open>One iteration of the loop over \<open>tx.Vout\<close>.\<close>

definition processVout :: "deps \<Rightarrow> nat \<Rightarrow> Vout \<Rightarrow> VoutAcc \<Rightarrow> VoutAcc outcome" where
  "processVout D i vout acc =
     (case checkVout i vout acc of
        Err e \<Rightarrow> Err e
      | Panic e \<Rightarrow> Panic e
      | Ok acc \<Rightarrow>
        (let spk = vout_ScriptPubKey vout in
         if isP2PKHorP2SH spk then
           (if length (spk_Addresses spk) \<noteq> 1 then Panic PubkeyScriptAddressNumInvalid
            else
              case d_DecodeAddress D (spk_Addresses spk ! 0) of
                Err e \<Rightarrow> Panic e
              | Panic e \<Rightarrow> Panic e
              | Ok address \<Rightarrow>
                (let receiverInfo = addressAndAmount D address (vout_Value vout);
                     acc = acc\<lparr>acc_receiverInfos := acc_receiverInfos acc @ [receiverInfo]\<rparr>
                 in case buildTokenInfo D (take 20 receiverInfo) (vout_TokenData vout) of
                      Err e \<Rightarrow> Ok acc
                    | Panic e \<Rightarrow> Panic e
                    | Ok tokenInfo \<Rightarrow>
                        Ok (acc\<lparr>acc_outputTokenInfos := acc_outputTokenInfos acc @ [tokenInfo]\<rparr>)))
         else if 1 < i \<and> spk_Type spk = ''nulldata'' then
           (if 2 < length (spk_Hex spk) then
              (case ExtractNullData D (drop 2 (spk_Hex spk)) of
                 Ok data \<Rightarrow> Ok (acc\<lparr>acc_otherNullDatas := acc_otherNullDatas acc @ data\<rparr>)
               | Err e \<Rightarrow> Ok acc
               | Panic e \<Rightarrow> Panic e)
            else Ok acc)
         else Ok acc))"

fun voutLoop :: "deps \<Rightarrow> nat \<Rightarrow> Vout list \<Rightarrow> VoutAcc \<Rightarrow> VoutAcc outcome" where
  "voutLoop D i [] acc = Ok acc"
| "voutLoop D i (v # vs) acc =
     (case processVout D i v acc of
        Ok acc' \<Rightarrow> voutLoop D (Suc i) vs acc'
      | Err e \<Rightarrow> Err e
      | Panic e \<Rightarrow> Panic e)"

text \<open>One iteration of the loop over \<open>tx.Vin\<close>: the sender and, if there is one, the token.\<close>

definition processVin :: "deps \<Rightarrow> BchClient \<Rightarrow> Vin \<Rightarrow> (bytes \<times> TokenInfo option) outcome" where
  "processVin D C vin =
     (case d_NewHashFromStr D (vin_Txid vin) of
        Err e \<Rightarrow> Panic e
      | Panic e \<Rightarrow> Panic e
      | Ok txHash \<Rightarrow>
        (case GetRawTransactionVerbose C txHash of
           Err e \<Rightarrow> Panic e
         | Panic e \<Rightarrow> Panic e
         | Ok originTx \<Rightarrow>
           (case ExtractSenderInfo D originTx (vin_Vout vin) of
              Err e \<Rightarrow> Panic e
            | Panic e \<Rightarrow> Panic e
            | Ok senderInfo \<Rightarrow>
              (case buildTokenInfo D (take 20 senderInfo) (vout_TokenData (raw_Vout originTx ! vin_Vout vin)) of
                 Err e \<Rightarrow> Ok (senderInfo, None)
               | Panic e \<Rightarrow> Panic e
               | Ok tokenInfo \<Rightarrow> Ok (senderInfo, Some tokenInfo)))))"

fun vinLoop :: "deps \<Rightarrow> BchClient \<Rightarrow> Vin list \<Rightarrow> bytes list \<times> TokenInfo list \<Rightarrow> (bytes list \<times> TokenInfo list) outcome" where
  "vinLoop D C [] acc = Ok acc"
| "vinLoop D C (vin # vins) (senderInfos, tokenInfos) =
     (case processVin D C vin of
        Err e \<Rightarrow> Err e
      | Panic e \<Rightarrow> Panic e
      | Ok (senderInfo, tok) \<Rightarrow>
          vinLoop D C vins
            (senderInfos @ [senderInfo],
             case tok of None \<Rightarrow> tokenInfos | Some t \<Rightarrow> tokenInfos @ [t]))"

definition extractInputInfos :: "deps \<Rightarrow> BchClient \<Rightarrow> TxRawResult \<Rightarrow> (bytes list \<times> TokenInfo list) outcome" where
  "extractInputInfos D C tx = vinLoop D C (raw_Vin tx) ([], [])"

text \<open>\<open>copy(addr[:], infos[0][:20])\<close> unless there is no entry.\<close>

definition firstAddress :: "bytes list \<Rightarrow> bytes" where
  "firstAddress infos = (case infos of [] \<Rightarrow> zeros 20 | info # _ \<Rightarrow> copy_into (zeros 20) 0 20 (take 20 info))"

definition evmTxOf :: "bytes \<Rightarrow> int \<Rightarrow> int \<Rightarrow> bytes \<Rightarrow> bytes \<Rightarrow> bytes \<Rightarrow> bytes \<Rightarrow> bytes list \<Rightarrow> bytes \<Rightarrow> EvmTx" where
  "evmTxOf txHash txIndex blockHeight blockHash srcAddr dstAddr contractAddress topics data =
     \<lparr>etx_Hash = txHash, etx_TransactionIndex = txIndex, etx_Nonce = 0, etx_BlockHash = blockHash,
      etx_BlockNumber = blockHeight, etx_From = srcAddr, etx_To = dstAddr, etx_Value = zeros 32,
      etx_GasPrice = zeros 32, etx_Gas = 0, etx_Input = [],
      etx_Logs =
        [\<lparr>log_Address = contractAddress, log_Topics = topics, log_Data = data,
          log_BlockNumber = as_u64 blockHeight, log_TxHash = txHash, log_TxIndex = as_u64 txIndex,
          log_BlockHash = blockHash\<rparr>],
      etx_Status = 0, etx_StatusStr = [], etx_OutData = []\<rparr>"

definition convertUtxoInfoToTx ::
  "deps \<Rightarrow> BchClient \<Rightarrow> TxRawResult \<Rightarrow> int \<Rightarrow> int \<Rightarrow> bytes \<Rightarrow> ModbTx outcome" where
  "convertUtxoInfoToTx D C tx txIndex blockHeight blockHash =
     (case voutLoop D 0 (raw_Vout tx) noVout of
        Err e \<Rightarrow> Err e
      | Panic e \<Rightarrow> Panic e
      | Ok acc \<Rightarrow>
        (case extractInputInfos D C tx of
           Err e \<Rightarrow> Err e
         | Panic e \<Rightarrow> Panic e
         | Ok (senderInfos, inputTokenInfos) \<Rightarrow>
           (let srcAddr = firstAddress senderInfos;
                dstAddr = firstAddress (acc_receiverInfos acc)
            in case ExtractEGTXNullData D (acc_nullData acc) of
                 Err e \<Rightarrow> Err e
               | Panic e \<Rightarrow> Panic e
               | Ok (contractAddress, topics, otherData) \<Rightarrow>
                 (case BuildLogData D (u_NewInt (d_u256 D) 0) (acc_receiverInfos acc) senderInfos
                         (acc_outputTokenInfos acc) inputTokenInfos (otherData @ acc_otherNullDatas acc) of
                    Err e \<Rightarrow> Err e
                  | Panic e \<Rightarrow> Panic e
                  | Ok data \<Rightarrow>
                    (let txHash = d_HexToHash D (raw_Txid tx)
                     in case d_MarshalTx D (evmTxOf txHash txIndex blockHeight blockHash srcAddr dstAddr
                               contractAddress topics data) of
                          Err e \<Rightarrow> Panic e
                        | Panic e \<Rightarrow> Panic e
                        | Ok txContent \<Rightarrow>
                            Ok \<lparr>mtx_HashId = txHash, mtx_SrcAddr = srcAddr, mtx_DstAddr = dstAddr,
                                mtx_Content = txContent,
                                mtx_LogList = [\<lparr>mlog_Address = contractAddress, mlog_Topics = topics\<rparr>]\<rparr>)))))"

section \<open>Scanning blocks\<close>

text \<open>The transactions of one main chain block; the accumulator holds the new ones and \<open>txIndex\<close>.\<close>

fun blockTxLoop ::
  "deps \<Rightarrow> BchClient \<Rightarrow> (string \<Rightarrow> bool) \<Rightarrow> BchScanner \<Rightarrow> int \<Rightarrow> bytes \<Rightarrow> TxRawResult list \<Rightarrow>
   ModbTx list \<times> int \<Rightarrow> (ModbTx list \<times> int) outcome" where
  "blockTxLoop D C isTxMined b blockHeight blockHash [] acc = Ok acc"
| "blockTxLoop D C isTxMined b blockHeight blockHash (tx # txs) (newModbTxs, txIndex) =
     (if isKnownTx (raw_Txid tx) b \<or> isTxMined (raw_Txid tx) then
        blockTxLoop D C isTxMined b blockHeight blockHash txs (newModbTxs, txIndex)
      else
        case convertUtxoInfoToTx D C tx txIndex blockHeight blockHash of
          Err e \<Rightarrow> blockTxLoop D C isTxMined b blockHeight blockHash txs (newModbTxs, txIndex)
        | Panic e \<Rightarrow> Panic e
        | Ok modbTx \<Rightarrow>
            blockTxLoop D C isTxMined b blockHeight blockHash txs (newModbTxs @ [modbTx], txIndex + 1))"

definition fetchBlock :: "BchClient \<Rightarrow> int \<Rightarrow> TxRawResult list outcome" where
  "fetchBlock C h =
     (case GetBlockHash C h of
        Err e \<Rightarrow> Panic e
      | Panic e \<Rightarrow> Panic e
      | Ok hash \<Rightarrow>
        (case GetBlockVerboseTx C hash of
           Err e \<Rightarrow> Panic e
         | Panic e \<Rightarrow> Panic e
         | Ok txs \<Rightarrow> Ok txs))"

text \<open>The loop over the heights, with the cap on the number of transactions.\<close>

function heightLoop ::
  "deps \<Rightarrow> BchClient \<Rightarrow> (string \<Rightarrow> bool) \<Rightarrow> int \<Rightarrow> bytes \<Rightarrow> int \<Rightarrow> int \<Rightarrow>
   ModbTx list \<times> int \<times> BchScanner \<Rightarrow> (ModbTx list \<times> int \<times> BchScanner) outcome" where
  "heightLoop D C isTxMined blockHeight blockHash h newestHeight (newModbTxs, txIndex, b) =
     (if newestHeight < h then Ok (newModbTxs, txIndex, b)
      else
        case fetchBlock C h of
          Err e \<Rightarrow> Err e
        | Panic e \<Rightarrow> Panic e
        | Ok txs \<Rightarrow>
          (case blockTxLoop D C isTxMined b blockHeight blockHash txs (newModbTxs, txIndex) of
             Err e \<Rightarrow> Err e
           | Panic e \<Rightarrow> Panic e
           | Ok (newModbTxs', txIndex') \<Rightarrow>
             (let b' = SetLatestScanHeight h b in
              if bs_MaxTxsInBlock b' \<le> int (length newModbTxs') then Ok (newModbTxs', txIndex', b')
              else heightLoop D C isTxMined blockHeight blockHash (h + 1) newestHeight
                     (newModbTxs', txIndex', b'))))"
  by pat_completeness auto
termination
  by (relation "measure (\<lambda>(D, C, m, bh, bhash, h, newest, acc). nat (newest + 1 - h))") auto

declare heightLoop.simps [simp del]

definition collectMainChainBlockTxs ::
  "deps \<Rightarrow> BchClient \<Rightarrow> (string \<Rightarrow> bool) \<Rightarrow> int \<Rightarrow> bytes \<Rightarrow> int \<Rightarrow> BchScanner \<Rightarrow>
   (ModbTx list \<times> int \<times> BchScanner) outcome" where
  "collectMainChainBlockTxs D C isTxMined blockHeight blockHash txIndex b =
     (case GetBlockCount C of
        Err e \<Rightarrow> Panic e
      | Panic e \<Rightarrow> Panic e
      | Ok newestHeight \<Rightarrow>
          heightLoop D C isTxMined blockHeight blockHash (bs_LatestScanBlockHeight b + 1) newestHeight
            ([], txIndex, b))"

section \<open>Scanning the mempool\<close>

fun mempoolLoop ::
  "deps \<Rightarrow> (string set \<Rightarrow> string) \<Rightarrow> BchClient \<Rightarrow> (string \<Rightarrow> bool) \<Rightarrow> int \<Rightarrow> int \<Rightarrow> bytes \<Rightarrow> bytes list \<Rightarrow>
   ModbTx list \<times> BchScanner \<Rightarrow> (ModbTx list \<times> BchScanner) outcome" where
  "mempoolLoop D pick C isTxMined txIndex blockHeight blockHash [] acc = Ok acc"
| "mempoolLoop D pick C isTxMined txIndex blockHeight blockHash (txHash # txHashes) (newModbTxs, b) =
     (let txid = d_HashString D txHash in
      if isKnownTx txid b \<or> isTxMined txid then
        mempoolLoop D pick C isTxMined txIndex blockHeight blockHash txHashes (newModbTxs, b)
      else
        case GetRawTransactionVerbose C txHash of
          Err e \<Rightarrow> mempoolLoop D pick C isTxMined txIndex blockHeight blockHash txHashes (newModbTxs, b)
        | Panic e \<Rightarrow> Panic e
        | Ok tx \<Rightarrow>
          (case convertUtxoInfoToTx D C tx txIndex blockHeight blockHash of
             Err e \<Rightarrow>
               mempoolLoop D pick C isTxMined txIndex blockHeight blockHash txHashes
                 (newModbTxs, AddKnownTx pick txid b)
           | Panic e \<Rightarrow> Panic e
           | Ok modbTx \<Rightarrow>
             (let newModbTxs' = newModbTxs @ [modbTx];
                  b' = AddKnownTx pick txid b
              in if bs_MaxTxsInBlock b' \<le> int (length newModbTxs') then Ok (newModbTxs', b')
                 else mempoolLoop D pick C isTxMined txIndex blockHeight blockHash txHashes
                        (newModbTxs', b'))))"

definition GetNewTxs ::
  "deps \<Rightarrow> (string set \<Rightarrow> string) \<Rightarrow> BchClient \<Rightarrow> (string \<Rightarrow> bool) \<Rightarrow> int \<Rightarrow> bytes \<Rightarrow> bool \<Rightarrow> BchScanner \<Rightarrow>
   (ModbTx list \<times> BchScanner) outcome" where
  "GetNewTxs D pick C isTxMined blockHeight blockHash scanBlock b =
     (case (if scanBlock then collectMainChainBlockTxs D C isTxMined blockHeight blockHash 0 b
            else Ok ([], 0, b)) of
        Err e \<Rightarrow> Err e
      | Panic e \<Rightarrow> Panic e
      | Ok (newModbTxs, txIndex, b') \<Rightarrow>
        if bs_MaxTxsInBlock b' \<le> int (length newModbTxs) then Ok (newModbTxs, b')
        else
          (case GetRawMempool C of
             Err e \<Rightarrow> Panic e
           | Panic e \<Rightarrow> Panic e
           | Ok txHashes \<Rightarrow>
               mempoolLoop D pick C isTxMined txIndex blockHeight blockHash txHashes (newModbTxs, b')))"

section \<open>Confirmations\<close>

definition GetConfirmations :: "deps \<Rightarrow> BchClient \<Rightarrow> bytes \<Rightarrow> int outcome" where
  "GetConfirmations D C txHash =
     (case d_NewHash D txHash of
        Err e \<Rightarrow> Panic e
      | Panic e \<Rightarrow> Panic e
      | Ok hash \<Rightarrow>
        (case GetRawTransactionVerbose C hash of
           Err e \<Rightarrow> Ok (- 1)
         | Panic e \<Rightarrow> Panic e
         | Ok res \<Rightarrow> Ok (as_i32 (raw_Confirmations res))))"

end
