(* ===== verification/Scanner_Derive.thy ===== *)
theory Scanner_Derive
  imports Scanner
begin

text \<open>
  What \<open>convertUtxoInfoToTx\<close> of scanner/bch.go computes: the loops over the outputs and the
  inputs as filters and maps (the README's deriving rules), when a transaction is rejected,
  when the conversion succeeds, and the packing of token information.
\<close>

section \<open>The declarative reading of the outputs\<close>

abbreviation p2 :: "Vout \<Rightarrow> bool" where
  "p2 v \<equiv> isP2PKHorP2SH (vout_ScriptPubKey v)"

abbreviation vhex :: "Vout \<Rightarrow> string" where
  "vhex v \<equiv> spk_Hex (vout_ScriptPubKey v)"

abbreviation vtype :: "Vout \<Rightarrow> string" where
  "vtype v \<equiv> spk_Type (vout_ScriptPubKey v)"

text \<open>The address of a P2PKH/P2SH output, where it decodes.\<close>

definition outAddress :: "deps \<Rightarrow> Vout \<Rightarrow> bytes outcome" where
  "outAddress D v =
     (if length (spk_Addresses (vout_ScriptPubKey v)) \<noteq> 1 then Panic PubkeyScriptAddressNumInvalid
      else d_DecodeAddress D (spk_Addresses (vout_ScriptPubKey v) ! 0))"

definition ok_or :: "'a \<Rightarrow> 'a outcome \<Rightarrow> 'a" where
  "ok_or d r = (case r of Ok x \<Rightarrow> x | _ \<Rightarrow> d)"

definition ok_option :: "'a outcome \<Rightarrow> 'a option" where
  "ok_option r = (case r of Ok x \<Rightarrow> Some x | _ \<Rightarrow> None)"

definition receiver :: "deps \<Rightarrow> Vout \<Rightarrow> bytes" where
  "receiver D v = addressAndAmount D (ok_or [] (outAddress D v)) (vout_Value v)"

definition outToken :: "deps \<Rightarrow> Vout \<Rightarrow> TokenInfo option" where
  "outToken D v = ok_option (buildTokenInfo D (take 20 (receiver D v)) (vout_TokenData v))"

definition otherElements :: "deps \<Rightarrow> Vout \<Rightarrow> bytes list" where
  "otherElements D v =
     (if \<not> p2 v \<and> vtype v = ''nulldata'' \<and> 2 < length (vhex v)
      then ok_or [] (ExtractNullData D (drop 2 (vhex v))) else [])"

text \<open>The outputs a derivable transaction must have.\<close>

definition egtxOutputs :: "Vout list \<Rightarrow> bool" where
  "egtxOutputs vs =
     (case vs of
        [] \<Rightarrow> True
      | v0 # rest \<Rightarrow> vtype v0 = ''nulldata'' \<and> hasPrefix (vhex v0) EGTXFlag \<and>
          (case rest of [] \<Rightarrow> True | v1 # _ \<Rightarrow> p2 v1))"

section \<open>Never panics, never errs\<close>

lemma buildTokenInfo_never_panics: "buildTokenInfo D a td \<noteq> Panic e"
  by (auto simp: buildTokenInfo_def Let_def parseInt_never_panics hexDecode_never_panics
      split: outcome.splits)

lemma processVin_never_errs: "processVin D C vin \<noteq> Err e"
  by (auto simp: processVin_def split: outcome.splits)

lemma vinLoop_never_errs: "vinLoop D C vins acc \<noteq> Err e"
  by (induction D C vins acc rule: vinLoop.induct)
    (auto simp: processVin_never_errs split: outcome.splits)

section \<open>The loop over the outputs\<close>

lemma p2_not_nulldata: "vtype v = ''nulldata'' \<Longrightarrow> \<not> p2 v"
  by (simp add: isP2PKHorP2SH_def)

text \<open>One iteration past the first output.\<close>

definition accStep :: "deps \<Rightarrow> nat \<Rightarrow> Vout \<Rightarrow> VoutAcc \<Rightarrow> VoutAcc" where
  "accStep D i v acc =
     acc\<lparr>acc_nullData := (if i = 0 then drop (length EGTXFlag) (vhex v) else acc_nullData acc),
         acc_receiverInfos := acc_receiverInfos acc @ (if p2 v then [receiver D v] else []),
         acc_otherNullDatas := acc_otherNullDatas acc @ (if 1 < i then otherElements D v else []),
         acc_outputTokenInfos := acc_outputTokenInfos acc @
           (if p2 v then (case outToken D v of None \<Rightarrow> [] | Some t \<Rightarrow> [t]) else [])\<rparr>"

lemma processVout_Ok:
  "processVout D i v acc = Ok acc' \<longleftrightarrow>
     (i = 0 \<longrightarrow> vtype v = ''nulldata'' \<and> hasPrefix (vhex v) EGTXFlag) \<and>
     (i = 1 \<longrightarrow> p2 v) \<and>
     (p2 v \<longrightarrow> (\<exists>a. outAddress D v = Ok a)) \<and>
     (\<not> p2 v \<and> 1 < i \<and> vtype v = ''nulldata'' \<and> 2 < length (vhex v) \<longrightarrow>
        (\<forall>e. ExtractNullData D (drop 2 (vhex v)) \<noteq> Panic e)) \<and>
     acc' = accStep D i v acc"
proof (cases "p2 v")
  case True
  then have "vtype v \<noteq> ''nulldata''" using p2_not_nulldata by blast
  with True show ?thesis
    by (auto simp: processVout_def checkVout_def accStep_def outAddress_def receiver_def outToken_def
        otherElements_def
        ok_or_def ok_option_def Let_def buildTokenInfo_never_panics split: outcome.splits if_splits)
next
  case False
  then show ?thesis
    by (auto simp: processVout_def checkVout_def accStep_def otherElements_def ok_or_def Let_def
        split: outcome.splits if_splits)
qed

fun accFold :: "deps \<Rightarrow> nat \<Rightarrow> Vout list \<Rightarrow> VoutAcc \<Rightarrow> VoutAcc" where
  "accFold D i [] acc = acc"
| "accFold D i (v # vs) acc = accFold D (Suc i) vs (accStep D i v acc)"

lemma voutLoop_accFold: "voutLoop D i vs acc = Ok acc' \<Longrightarrow> acc' = accFold D i vs acc"
  by (induction D i vs acc rule: voutLoop.induct) (auto simp: processVout_Ok split: outcome.splits)

lemma voutLoop_egtxOutputs:
  assumes "voutLoop D 0 vs acc = Ok acc'"
  shows "egtxOutputs vs"
proof (cases vs)
  case Nil
  then show ?thesis by (simp add: egtxOutputs_def)
next
  case (Cons v0 rest)
  with assms obtain a1 where a1: "processVout D 0 v0 acc = Ok a1" "voutLoop D 1 rest a1 = Ok acc'"
    by (auto split: outcome.splits)
  show ?thesis
  proof (cases rest)
    case Nil
    with Cons a1 show ?thesis by (simp add: egtxOutputs_def processVout_Ok)
  next
    case (Cons v1 vs')
    with a1(2) obtain a2 where "processVout D 1 v1 a1 = Ok a2" by (auto split: outcome.splits)
    with \<open>vs = v0 # rest\<close> Cons a1(1) show ?thesis by (simp add: egtxOutputs_def processVout_Ok)
  qed
qed

text \<open>The fold in closed form: the P2PKH/P2SH outputs in order, then the data of the rest.\<close>

lemma accFold_receivers:
  "acc_receiverInfos (accFold D i vs acc) = acc_receiverInfos acc @ map (receiver D) (filter p2 vs)"
  by (induction D i vs acc rule: accFold.induct) (auto simp: accStep_def)

lemma accFold_tokens:
  "acc_outputTokenInfos (accFold D i vs acc) =
     acc_outputTokenInfos acc @ List.map_filter (outToken D) (filter p2 vs)"
  by (induction D i vs acc rule: accFold.induct)
    (auto simp: accStep_def split: option.split)

lemma accFold_other:
  "1 < i \<Longrightarrow> acc_otherNullDatas (accFold D i vs acc) =
     acc_otherNullDatas acc @ concat (map (otherElements D) vs)"
  by (induction D i vs acc rule: accFold.induct) (auto simp: accStep_def)

lemma accFold_nullData: "0 < i \<Longrightarrow> acc_nullData (accFold D i vs acc) = acc_nullData acc"
  by (induction D i vs acc rule: accFold.induct) (auto simp: accStep_def)

lemma accFold_lists:
  "acc_receiverInfos (accFold D 0 vs noVout) = map (receiver D) (filter p2 vs) \<and>
   acc_outputTokenInfos (accFold D 0 vs noVout) = List.map_filter (outToken D) (filter p2 vs)"
  by (simp add: accFold_receivers accFold_tokens) (simp add: noVout_def)

lemma accFold_from_start:
  "acc_nullData (accFold D 0 (v0 # rest) noVout) = drop (length EGTXFlag) (vhex v0) \<and>
   acc_otherNullDatas (accFold D 0 (v0 # rest) noVout) = concat (map (otherElements D) (drop 1 rest))"
  by (cases rest) (simp_all add: accFold_nullData accFold_other accStep_def noVout_def)

section \<open>The loop over the inputs\<close>

text \<open>The output an input spends, as the node reports it.\<close>

definition spentOutput :: "deps \<Rightarrow> BchClient \<Rightarrow> Vin \<Rightarrow> Vout option" where
  "spentOutput D C vin =
     (case d_NewHashFromStr D (vin_Txid vin) of
        Ok h \<Rightarrow>
          (case GetRawTransactionVerbose C h of
             Ok origin \<Rightarrow> if vin_Vout vin < length (raw_Vout origin) then Some (raw_Vout origin ! vin_Vout vin) else None
           | _ \<Rightarrow> None)
      | _ \<Rightarrow> None)"

lemma ExtractSenderInfo_Ok_iff:
  "ExtractSenderInfo D origin i = Ok r \<longleftrightarrow>
     i < length (raw_Vout origin) \<and> p2 (raw_Vout origin ! i) \<and>
     (\<exists>a. outAddress D (raw_Vout origin ! i) = Ok a) \<and> r = receiver D (raw_Vout origin ! i)"
  by (auto simp: ExtractSenderInfo_def Let_def outAddress_def receiver_def ok_or_def split: outcome.splits)

lemma processVin_Ok_iff:
  "processVin D C vin = Ok r \<longleftrightarrow>
     (\<exists>v. spentOutput D C vin = Some v \<and> p2 v \<and> (\<exists>a. outAddress D v = Ok a) \<and> r = (receiver D v, outToken D v))"
  by (auto simp: processVin_def spentOutput_def ExtractSenderInfo_Ok_iff outToken_def ok_option_def
      buildTokenInfo_never_panics ExtractSenderInfo_Ok_iff [THEN iffD2] split: outcome.splits if_splits)

lemma vinLoop_closed:
  "vinLoop D C vins (ss, ts) = Ok (ss', ts') \<Longrightarrow>
     \<exists>spent. map (spentOutput D C) vins = map Some spent \<and>
       ss' = ss @ map (receiver D) spent \<and> ts' = ts @ List.map_filter (outToken D) spent"
proof (induction vins arbitrary: ss ts)
  case Nil
  then show ?case by simp
next
  case (Cons vin vins)
  then obtain s t where v: "processVin D C vin = Ok (s, t)"
    and rest: "vinLoop D C vins (ss @ [s], case t of None \<Rightarrow> ts | Some t \<Rightarrow> ts @ [t]) = Ok (ss', ts')"
    by (auto split: outcome.splits prod.splits)
  from v obtain v where o: "spentOutput D C vin = Some v" "s = receiver D v" "t = outToken D v"
    by (auto simp: processVin_Ok_iff)
  from Cons.IH [OF rest] obtain spent where "map (spentOutput D C) vins = map Some spent"
    "ss' = (ss @ [s]) @ map (receiver D) spent"
    "ts' = (case t of None \<Rightarrow> ts | Some t \<Rightarrow> ts @ [t]) @ List.map_filter (outToken D) spent"
    by blast
  with o show ?case by (intro exI [of _ "v # spent"]) (auto split: option.splits)
qed

lemma vinLoop_total:
  "(\<And>v. v \<in> set vins \<Longrightarrow> \<exists>r. processVin D C v = Ok r) \<Longrightarrow> \<exists>r. vinLoop D C vins acc = Ok r"
proof (induction vins arbitrary: acc)
  case Nil
  then show ?case by simp
next
  case (Cons vin vins)
  obtain s t where "processVin D C vin = Ok (s, t)" using Cons.prems [of vin] by auto
  moreover obtain ss ts where "acc = (ss, ts)" by (cases acc)
  ultimately show ?case using Cons by simp
qed

lemma vinLoop_panics:
  "v \<in> set vins \<Longrightarrow> processVin D C v = Panic e \<Longrightarrow> \<exists>e'. vinLoop D C vins acc = Panic e'"
proof (induction vins arbitrary: acc)
  case Nil
  then show ?case by simp
next
  case (Cons vin vins)
  obtain ss ts where acc: "acc = (ss, ts)" by (cases acc)
  show ?case
  proof (cases "processVin D C vin")
    case (Ok r)
    then obtain s t where "processVin D C vin = Ok (s, t)" by (cases r) auto
    with Cons acc show ?thesis by auto
  next
    case (Err e)
    then show ?thesis using processVin_never_errs by blast
  next
    case (Panic e)
    then show ?thesis using acc by simp
  qed
qed

lemma length_receiver [simp, array_len]: "length (receiver D v) = 32"
  by (simp add: receiver_def)

section \<open>The conversion in one piece\<close>

lemma convert_Ok:
  assumes "convertUtxoInfoToTx D C tx txIndex blockHeight blockHash = Ok m"
  obtains acc senders itoks ca ts od data where
    "voutLoop D 0 (raw_Vout tx) noVout = Ok acc"
    "extractInputInfos D C tx = Ok (senders, itoks)"
    "ExtractEGTXNullData D (acc_nullData acc) = Ok (ca, ts, od)"
    "BuildLogData D (u_NewInt (d_u256 D) 0) (acc_receiverInfos acc) senders
       (acc_outputTokenInfos acc) itoks (od @ acc_otherNullDatas acc) = Ok data"
    "d_MarshalTx D (evmTxOf (d_HexToHash D (raw_Txid tx)) txIndex blockHeight blockHash
       (firstAddress senders) (firstAddress (acc_receiverInfos acc)) ca ts data) = Ok (mtx_Content m)"
    "mtx_HashId m = d_HexToHash D (raw_Txid tx)"
    "mtx_SrcAddr m = firstAddress senders"
    "mtx_DstAddr m = firstAddress (acc_receiverInfos acc)"
    "mtx_LogList m = [\<lparr>mlog_Address = ca, mlog_Topics = ts\<rparr>]"
  using assms
  by (auto simp: convertUtxoInfoToTx_def Let_def split: outcome.splits prod.splits)

text \<open>The same with both loops in closed form.\<close>

lemma convert_closed:
  assumes conv: "convertUtxoInfoToTx D C tx txIndex blockHeight blockHash = Ok m"
    and vs: "raw_Vout tx = v0 # rest"
  obtains ca ts od data spent where
    "egtxOutputs (raw_Vout tx)"
    "ParseEGTXNullData D (vhex v0) = Ok (ca, ts, od)"
    "BuildLogData D (u_NewInt (d_u256 D) 0)
       (map (receiver D) (filter p2 (raw_Vout tx)))
       (map (receiver D) spent)
       (List.map_filter (outToken D) (filter p2 (raw_Vout tx)))
       (List.map_filter (outToken D) spent)
       (od @ concat (map (otherElements D) (drop 1 rest))) = Ok data"
    "d_MarshalTx D (evmTxOf (mtx_HashId m) txIndex blockHeight blockHash
       (mtx_SrcAddr m) (mtx_DstAddr m) ca ts data) = Ok (mtx_Content m)"
    "mtx_HashId m = d_HexToHash D (raw_Txid tx)"
    "map (spentOutput D C) (raw_Vin tx) = map Some spent"
    "mtx_SrcAddr m = firstAddress (map (receiver D) spent)"
    "mtx_DstAddr m = firstAddress (map (receiver D) (filter p2 (raw_Vout tx)))"
    "mtx_LogList m = [\<lparr>mlog_Address = ca, mlog_Topics = ts\<rparr>]"
proof -
  from conv obtain acc senders itoks ca ts od data where
    l: "voutLoop D 0 (raw_Vout tx) noVout = Ok acc" and
    i: "extractInputInfos D C tx = Ok (senders, itoks)" and
    n: "ExtractEGTXNullData D (acc_nullData acc) = Ok (ca, ts, od)" and
    rest: "BuildLogData D (u_NewInt (d_u256 D) 0) (acc_receiverInfos acc) senders
       (acc_outputTokenInfos acc) itoks (od @ acc_otherNullDatas acc) = Ok data"
      "d_MarshalTx D (evmTxOf (d_HexToHash D (raw_Txid tx)) txIndex blockHeight blockHash
       (firstAddress senders) (firstAddress (acc_receiverInfos acc)) ca ts data) = Ok (mtx_Content m)"
      "mtx_HashId m = d_HexToHash D (raw_Txid tx)" "mtx_SrcAddr m = firstAddress senders"
      "mtx_DstAddr m = firstAddress (acc_receiverInfos acc)"
      "mtx_LogList m = [\<lparr>mlog_Address = ca, mlog_Topics = ts\<rparr>]"
    by (rule convert_Ok)
  note start = accFold_from_start [of D v0 rest] accFold_lists [of D "v0 # rest"]
  have eg: "egtxOutputs (raw_Vout tx)" using l by (rule voutLoop_egtxOutputs)
  then have "hasPrefix (vhex v0) EGTXFlag" by (simp add: vs egtxOutputs_def)
  moreover have acc: "acc = accFold D 0 (v0 # rest) noVout" using voutLoop_accFold [OF l] vs by simp
  ultimately have p: "ParseEGTXNullData D (vhex v0) = Ok (ca, ts, od)"
    using n start by (simp add: ParseEGTXNullData_def trimPrefix_def del: accFold.simps)
  obtain spent where ins: "map (spentOutput D C) (raw_Vin tx) = map Some spent"
    "senders = map (receiver D) spent" "itoks = List.map_filter (outToken D) spent"
    using vinLoop_closed [OF i [unfolded extractInputInfos_def]] by auto
  show ?thesis
    using that [OF eg p _ _ _ ins(1)] rest start acc by (simp add: vs ins del: accFold.simps)
qed

section \<open>When the loops succeed\<close>

definition voutOk :: "deps \<Rightarrow> nat \<Rightarrow> Vout \<Rightarrow> bool" where
  "voutOk D i v \<longleftrightarrow>
     (i = 0 \<longrightarrow> vtype v = ''nulldata'' \<and> hasPrefix (vhex v) EGTXFlag) \<and>
     (i = 1 \<longrightarrow> p2 v) \<and> (p2 v \<longrightarrow> (\<exists>a. outAddress D v = Ok a))"

fun voutsOk :: "deps \<Rightarrow> nat \<Rightarrow> Vout list \<Rightarrow> bool" where
  "voutsOk D i [] = True"
| "voutsOk D i (v # vs) = (voutOk D i v \<and> voutsOk D (Suc i) vs)"

text \<open>Every P2PKH/P2SH output has one address and it decodes.\<close>

definition addressesOk :: "deps \<Rightarrow> Vout list \<Rightarrow> bool" where
  "addressesOk D vs = list_all (\<lambda>v. p2 v \<longrightarrow> (\<exists>a. outAddress D v = Ok a)) vs"

text \<open>Every input's transaction is found and the output it spends is P2PKH/P2SH.\<close>

definition inputsOk :: "deps \<Rightarrow> BchClient \<Rightarrow> Vin list \<Rightarrow> bool" where
  "inputsOk D C vins =
     list_all (\<lambda>vin. \<exists>v. spentOutput D C vin = Some v \<and> p2 v \<and> (\<exists>a. outAddress D v = Ok a)) vins"

lemma inputsOk_processVin: "inputsOk D C vins \<longleftrightarrow> (\<forall>v \<in> set vins. \<exists>r. processVin D C v = Ok r)"
  by (auto simp: inputsOk_def list_all_iff processVin_Ok_iff)

lemma ExtractNullData_never_panics:
  "script_lib (d_script D) \<Longrightarrow> ExtractNullData D s \<noteq> Panic e"
  by (auto simp: ExtractNullData_def hexDecode_never_panics script_lib.pushed_total split: outcome.splits)

lemma voutLoop_voutsOk:
  assumes "script_lib (d_script D)"
  shows "(\<exists>acc'. voutLoop D i vs acc = Ok acc') \<longleftrightarrow> voutsOk D i vs"
proof (induction vs arbitrary: i acc)
  case Nil
  then show ?case by simp
next
  case (Cons v vs)
  have ok: "processVout D i v acc = Ok a \<longleftrightarrow> voutOk D i v \<and> a = accStep D i v acc" for a
    by (auto simp: processVout_Ok voutOk_def ExtractNullData_never_panics [OF assms])
  show ?case
  proof (cases "voutOk D i v")
    case True
    then have "processVout D i v acc = Ok (accStep D i v acc)" by (simp add: ok)
    with True Cons.IH [of "Suc i"] show ?thesis by simp
  next
    case False
    with ok show ?thesis by (cases "processVout D i v acc") auto
  qed
qed

lemma voutsOk_later: "1 < i \<Longrightarrow> voutsOk D i vs \<longleftrightarrow> addressesOk D vs"
  by (induction vs arbitrary: i) (auto simp: voutOk_def addressesOk_def)

lemma voutsOk_start: "voutsOk D 0 vs \<longleftrightarrow> egtxOutputs vs \<and> addressesOk D vs"
proof (cases vs)
  case Nil
  then show ?thesis by (simp add: egtxOutputs_def addressesOk_def)
next
  case (Cons v0 rest)
  then show ?thesis
    by (cases rest)
      (auto simp: voutsOk_later voutOk_def addressesOk_def egtxOutputs_def dest: p2_not_nulldata)
qed

lemma extractInputInfos_inputsOk:
  "(\<exists>r. extractInputInfos D C tx = Ok r) \<longleftrightarrow> inputsOk D C (raw_Vin tx)"
proof
  assume "inputsOk D C (raw_Vin tx)"
  then show "\<exists>r. extractInputInfos D C tx = Ok r"
    using vinLoop_total by (fastforce simp: extractInputInfos_def inputsOk_processVin)
next
  assume ok: "\<exists>r. extractInputInfos D C tx = Ok r"
  have "\<exists>r. processVin D C v = Ok r" if v: "v \<in> set (raw_Vin tx)" for v
  proof (cases "processVin D C v")
    case (Panic e)
    with v obtain e' where "vinLoop D C (raw_Vin tx) ([], []) = Panic e'"
      using vinLoop_panics by blast
    with ok show ?thesis by (simp add: extractInputInfos_def)
  qed (use processVin_never_errs in auto)
  then show "inputsOk D C (raw_Vin tx)" by (simp add: inputsOk_processVin)
qed

section \<open>Packing always succeeds\<close>

lemma be_val_u256: "length bs = 32 \<Longrightarrow> is_u256 (be_val bs)"
  using be_val_lt [of bs] be_val_nonneg [of bs] by (simp add: is_u256_def)

lemma is_u256_0 [simp]: "is_u256 0"
  by (simp add: is_u256_def)

lemma buildTokenInfo_token_ok: "length a = 20 \<Longrightarrow> buildTokenInfo D a td = Ok t \<Longrightarrow> token_ok t"
  by (auto simp: buildTokenInfo_def Let_def token_ok_def be_val_u256 split: outcome.splits if_splits)

lemma BuildLogData_total:
  assumes "uint256_lib (d_u256 D)" and "abi_lib D"
    and "list_all (\<lambda>x. length x = 32) outs" and "list_all (\<lambda>x. length x = 32) ins"
    and "list_all token_ok otoks" and "list_all token_ok itoks"
  shows "\<exists>data. BuildLogData D c outs ins otoks itoks other = Ok data"
proof -
  let ?n = "\<lambda>x. u_ToBig (d_u256 D) (u_SetBytes32 (d_u256 D) x)"
  have "list_all is_u256 (map ?n outs)" "list_all is_u256 (map ?n ins)"
    using assms by (auto simp: list_all_iff uint256_lib.ToBig_SetBytes32 be_val_u256)
  with assms have "args_ok (map ?n outs) (map ?n ins) otoks itoks" by (simp add: args_ok_def)
  then obtain rest where "\<And>x. is_u256 x \<Longrightarrow>
      PackEGTXLogDataEvent D x (map ?n outs) (map ?n ins) otoks itoks other = Ok (be_bytes 32 x @ rest)"
    using abi_lib.pack_layout [OF assms(2)] by metis
  moreover have "is_u256 (u_ToBig (d_u256 D) c)"
    using uint_lt2p [of c] by (simp add: uint256_lib.ToBig_law [OF assms(1)] is_u256_def)
  ultimately show ?thesis by (simp add: BuildLogData_def)
qed

lemma outTokens_ok: "list_all token_ok (List.map_filter (outToken D) vs)"
proof (induction vs)
  case Nil
  then show ?case by simp
next
  case (Cons v vs)
  have "token_ok t" if "outToken D v = Some t" for t
    using that buildTokenInfo_token_ok [of "take 20 (receiver D v)"]
    by (auto simp: outToken_def ok_option_def split: outcome.splits)
  with Cons show ?case by (auto split: option.split)
qed

lemma convert_succeeds_iff:
  assumes libs: "uint256_lib (d_u256 D)" "script_lib (d_script D)" "abi_lib D" "codec_lib D"
    and vs: "raw_Vout tx = v0 # rest"
  shows "(\<exists>m. convertUtxoInfoToTx D C tx txIndex blockHeight blockHash = Ok m) \<longleftrightarrow>
    egtxOutputs (raw_Vout tx) \<and> addressesOk D (raw_Vout tx) \<and> inputsOk D C (raw_Vin tx) \<and>
    (\<exists>r. ParseEGTXNullData D (vhex v0) = Ok r)"
    (is "?lhs = ?rhs")
proof
  assume ?lhs
  then obtain m where m: "convertUtxoInfoToTx D C tx txIndex blockHeight blockHash = Ok m" ..
  from m have "\<exists>a. voutLoop D 0 (raw_Vout tx) noVout = Ok a" "\<exists>r. extractInputInfos D C tx = Ok r"
    by (auto elim!: convert_Ok)
  then have "egtxOutputs (raw_Vout tx) \<and> addressesOk D (raw_Vout tx)" "inputsOk D C (raw_Vin tx)"
    by (simp_all only: voutLoop_voutsOk [OF libs(2)] voutsOk_start extractInputInfos_inputsOk)
  moreover have "\<exists>r. ParseEGTXNullData D (vhex v0) = Ok r" using convert_closed [OF m vs] by metis
  ultimately show ?rhs by blast
next
  assume r: ?rhs
  then obtain acc where l: "voutLoop D 0 (raw_Vout tx) noVout = Ok acc"
    using voutLoop_voutsOk [OF libs(2), of 0 "raw_Vout tx" noVout] voutsOk_start by auto
  from r obtain senders itoks where i: "extractInputInfos D C tx = Ok (senders, itoks)"
    using extractInputInfos_inputsOk by (metis prod.collapse)
  have acc: "acc = accFold D 0 (v0 # rest) noVout" using voutLoop_accFold [OF l] vs by simp
  from r obtain ca ts od where n: "ExtractEGTXNullData D (acc_nullData acc) = Ok (ca, ts, od)"
    using accFold_from_start [of D v0 rest]
    by (auto simp: vs acc egtxOutputs_def ParseEGTXNullData_def trimPrefix_def simp del: accFold.simps)
  have "list_all (\<lambda>x. length x = 32) (acc_receiverInfos acc)" "list_all token_ok (acc_outputTokenInfos acc)"
    using accFold_lists [of D "v0 # rest"] outTokens_ok by (simp_all add: acc list_all_iff del: accFold.simps)
  moreover have "list_all (\<lambda>x. length x = 32) senders" "list_all token_ok itoks"
    using vinLoop_closed [OF i [unfolded extractInputInfos_def]] outTokens_ok by (auto simp: list_all_iff)
  ultimately obtain data where d: "BuildLogData D (u_NewInt (d_u256 D) 0) (acc_receiverInfos acc) senders
       (acc_outputTokenInfos acc) itoks (od @ acc_otherNullDatas acc) = Ok data"
    using BuildLogData_total [OF libs(1,3)] by metis
  obtain bs where "d_MarshalTx D (evmTxOf (d_HexToHash D (raw_Txid tx)) txIndex blockHeight blockHash
      (firstAddress senders) (firstAddress (acc_receiverInfos acc)) ca ts data) = Ok bs"
    using codec_lib.tx_codec [OF libs(4)] by blast
  then show ?lhs by (simp add: convertUtxoInfoToTx_def l i n d Let_def)
qed

section \<open>An example\<close>

text \<open>
  A transaction with an EGTX output, a P2PKH output that carries a token and a further
  OP\_RETURN output; its one input spends an output of the type given to \<open>exClient\<close>.
\<close>

definition exNoToken :: TokenDataResult where
  "exNoToken = \<lparr>td_Amount = [], td_Category = [], td_Commitment = [], td_Capability = []\<rparr>"

definition exToken :: TokenDataResult where
  "exToken = \<lparr>td_Amount = ''7'', td_Category = hexEncodeToString (replicate 32 0xab),
     td_Commitment = ''0102030405'', td_Capability = ''mutable''\<rparr>"

definition exVout :: "string \<Rightarrow> string \<Rightarrow> string list \<Rightarrow> TokenDataResult \<Rightarrow> Vout" where
  "exVout t hx as td = \<lparr>vout_Value = F64 1 0,
     vout_ScriptPubKey = \<lparr>spk_Type = t, spk_Hex = hx, spk_Addresses = as\<rparr>, vout_TokenData = td\<rparr>"

definition exAddr :: "byte \<Rightarrow> string" where
  "exAddr b = hexEncodeToString (replicate 20 b)"

definition exOrigin :: "string \<Rightarrow> TxRawResult" where
  "exOrigin t = \<lparr>raw_Txid = hexEncodeToString (rev (replicate 32 6)), raw_Vin = [], raw_Vout = [exVout t [] [exAddr 3] exNoToken], raw_Confirmations = 1\<rparr>"

definition exEgtx :: Vout where
  "exEgtx = exVout ''nulldata'' (hexEncodeToString (egtx_script [[1], [2], [], [3]])) [] exNoToken"

definition exPay :: Vout where
  "exPay = exVout ''pubkeyhash'' [] [exAddr 4] exToken"

definition exTx :: TxRawResult where
  "exTx = \<lparr>raw_Txid = hexEncodeToString (replicate 32 5),
     raw_Vin = [\<lparr>vin_Txid = hexEncodeToString (rev (replicate 32 6)), vin_Vout = 0\<rparr>],
     raw_Vout = [exEgtx, exPay, exVout ''nulldata'' ''6a0108'' [] exNoToken],
     raw_Confirmations = 0\<rparr>"

definition exClient :: "string \<Rightarrow> BchClient" where
  "exClient t = \<lparr>GetRawMempool = Ok [],
     GetRawTransactionVerbose = (\<lambda>h. if h = replicate 32 6 then Ok (exOrigin t) else Err (ErrorString ''no tx'')),
     GetBlockCount = Ok 0, GetBlockHash = (\<lambda>h. Err (ErrorString ''no block'')),
     GetBlockVerboseTx = (\<lambda>h. Ok [])\<rparr>"

lemma ref_DecodeAddress [simp]: "d_DecodeAddress ref_deps (exAddr b) = Ok (replicate 20 b)"
  by (simp add: ref_deps_def exAddr_def hex_roundtrip)

lemma exTx_Vout: "raw_Vout exTx = exEgtx # [exPay, exVout ''nulldata'' ''6a0108'' [] exNoToken]"
  by (simp add: exTx_def)

lemma exTx_egtxOutputs: "egtxOutputs (raw_Vout exTx)"
  by code_simp

lemma exTx_addressesOk: "addressesOk ref_deps (raw_Vout exTx)"
  by (simp add: addressesOk_def exTx_def exEgtx_def exPay_def exVout_def isP2PKHorP2SH_def outAddress_def)

lemma exTx_spent:
  "GetRawTransactionVerbose C (replicate 32 6) = Ok (exOrigin t) \<Longrightarrow>
   spentOutput ref_deps C \<lparr>vin_Txid = hexEncodeToString (rev (replicate 32 6)), vin_Vout = 0\<rparr> =
     Some (exVout t [] [exAddr 3] exNoToken)"
  using ref_txid.hash_from_string [of "replicate 32 6"] by (simp add: spentOutput_def exOrigin_def)

lemma exTx_inputsOk:
  "GetRawTransactionVerbose C (replicate 32 6) = Ok (exOrigin ''scripthash'') \<Longrightarrow>
   inputsOk ref_deps C (raw_Vin exTx)"
  by (simp add: inputsOk_def exTx_def exTx_spent [simplified])
    (simp add: exVout_def isP2PKHorP2SH_def outAddress_def)

lemma exClient_origin: "GetRawTransactionVerbose (exClient t) (replicate 32 6) = Ok (exOrigin t)"
  by (simp add: exClient_def)

lemma exTx_parse: "ParseEGTXNullData ref_deps (vhex exEgtx) = Ok (fit 20 [1], [fit 32 [2], fit 32 [3]], [])"
  unfolding exEgtx_def exVout_def Vout.select_convs ScriptPubKeyResult.select_convs
  by (subst parse_egtx_script [OF script_lib_ref]) auto

lemma exTx_derives:
  assumes "GetRawTransactionVerbose C (replicate 32 6) = Ok (exOrigin ''scripthash'')"
  shows "\<exists>m. convertUtxoInfoToTx ref_deps C exTx i height hash = Ok m"
  by (simp only: convert_succeeds_iff [OF uint256_lib_ref script_lib_ref ref_abi.abi_lib_axioms
        ref_codec.codec_lib_axioms exTx_Vout] exTx_egtxOutputs exTx_addressesOk exTx_inputsOk [OF assms] exTx_parse) simp

lemmas exTx_derived = exTx_derives [OF exClient_origin]

section \<open>Properties\<close>

text \<open>
  C13: The deriving rules.  If \<open>convertUtxoInfoToTx\<close> accepts a transaction, its first output is an
  OP\_RETURN output that starts with EGTX and its second one, if any, is P2PKH or P2SH; the single
  log has the contract address and the topics of the first output's data; the hash is the
  transaction id; the to-address is that of the first P2PKH/P2SH output and the from-address that
  of the output the first input spends (zero if there is none).
\<close>

theorem convertUtxoInfoToTx_rules:
  assumes conv: "convertUtxoInfoToTx D C tx txIndex blockHeight blockHash = Ok m"
    and vs: "raw_Vout tx = v0 # rest"
  shows "egtxOutputs (raw_Vout tx) \<and>
    (\<exists>ca ts od. ParseEGTXNullData D (vhex v0) = Ok (ca, ts, od) \<and>
       mtx_LogList m = [\<lparr>mlog_Address = ca, mlog_Topics = ts\<rparr>]) \<and>
    mtx_HashId m = d_HexToHash D (raw_Txid tx) \<and>
    mtx_DstAddr m = firstAddress (map (receiver D) (filter p2 (raw_Vout tx))) \<and>
    (\<exists>spent. map (spentOutput D C) (raw_Vin tx) = map Some spent \<and>
       mtx_SrcAddr m = firstAddress (map (receiver D) spent))"
  using convert_closed [OF assms] by metis

theorem convertUtxoInfoToTx_rules_witness:
  "\<exists>m. convertUtxoInfoToTx ref_deps (exClient ''scripthash'') exTx 0 7 (zeros 32) = Ok m \<and>
     mtx_LogList m = [\<lparr>mlog_Address = fit 20 [1], mlog_Topics = [fit 32 [2], fit 32 [3]]\<rparr>] \<and>
     mtx_HashId m = d_HexToHash ref_deps (raw_Txid exTx)"
proof -
  obtain m where m: "convertUtxoInfoToTx ref_deps (exClient ''scripthash'') exTx 0 7 (zeros 32) = Ok m"
    using exTx_derived by blast
  with convertUtxoInfoToTx_rules [OF m exTx_Vout] exTx_parse show ?thesis by auto
qed



text \<open>
  Rejection.  A transaction whose outputs break the rules is rejected with the error of the
  first broken rule, whatever the node answers: nothing is looked up and nothing panics.
\<close>

lemma convertUtxoInfoToTx_rejects:
  assumes "\<not> egtxOutputs (raw_Vout tx)"
  shows "convertUtxoInfoToTx D C tx txIndex blockHeight blockHash =
    Err (if vtype (hd (raw_Vout tx)) \<noteq> ''nulldata'' then FirstOutputMustEGTX
         else if \<not> hasPrefix (vhex (hd (raw_Vout tx))) EGTXFlag then NotHaveEGTXNulldata
         else SecondOutputInvalid)"
proof -
  from assms obtain v0 rest where vs: "raw_Vout tx = v0 # rest"
    by (cases "raw_Vout tx") (simp_all add: egtxOutputs_def)
  show ?thesis
  proof (cases "vtype v0 = ''nulldata'' \<and> hasPrefix (vhex v0) EGTXFlag")
    case False
    then show ?thesis by (auto simp: vs convertUtxoInfoToTx_def processVout_def checkVout_def)
  next
    case True
    with assms obtain v1 vs' where rest: "rest = v1 # vs'" and v1: "\<not> p2 v1"
      by (auto simp: vs egtxOutputs_def split: list.splits)
    have "processVout D 0 v0 noVout = Ok (accStep D 0 v0 noVout)"
      using True p2_not_nulldata [of v0] by (simp add: processVout_Ok)
    with True v1 show ?thesis
      by (simp add: vs rest convertUtxoInfoToTx_def processVout_def [of D "Suc 0"] checkVout_def)
  qed
qed

text \<open>
  C12: Exactly which transactions are derived.  Given packages that keep their documented
  promises, \<open>convertUtxoInfoToTx\<close> succeeds on a transaction with outputs if and only if the
  outputs obey the rules, the first output's data decode, every P2PKH/P2SH output has one
  decodable address, and every input can be looked up and spends a P2PKH/P2SH output.
\<close>

theorem convertUtxoInfoToTx_succeeds_iff:
  assumes libs: "uint256_lib (d_u256 D)" "script_lib (d_script D)" "abi_lib D" "codec_lib D"
    and vs: "raw_Vout tx = v0 # rest"
  shows "(\<exists>m. convertUtxoInfoToTx D C tx txIndex blockHeight blockHash = Ok m) \<longleftrightarrow>
    egtxOutputs (raw_Vout tx) \<and> addressesOk D (raw_Vout tx) \<and> inputsOk D C (raw_Vin tx) \<and>
    (\<exists>r. ParseEGTXNullData D (vhex v0) = Ok r)"
  by (rule convert_succeeds_iff [OF assms])

theorem convertUtxoInfoToTx_succeeds_iff_witness:
  "\<exists>m. convertUtxoInfoToTx ref_deps (exClient ''scripthash'') exTx 3 8 (zeros 32) = Ok m"
  by (simp only: convertUtxoInfoToTx_succeeds_iff [OF uint256_lib_ref script_lib_ref ref_abi.abi_lib_axioms
        ref_codec.codec_lib_axioms exTx_Vout] exTx_egtxOutputs exTx_addressesOk
        exTx_inputsOk [OF exClient_origin] exTx_parse) simp

text \<open>
  C37: A derivable transaction that spends anything but P2PKH or P2SH stops the scanner: if the
  outputs obey the rules and the addresses decode, but some input spends an output of another
  type (P2PK, bare multisig), \<open>convertUtxoInfoToTx\<close> panics.
\<close>

theorem convertUtxoInfoToTx_panics_on_other_inputs:
  assumes "script_lib (d_script D)" and "egtxOutputs (raw_Vout tx)" and "addressesOk D (raw_Vout tx)"
    and v: "v \<in> set (raw_Vin tx)"
    and spends: "spentOutput D C v = Some prev" "\<not> p2 prev"
  shows "\<exists>e. convertUtxoInfoToTx D C tx txIndex blockHeight blockHash = Panic e"
proof -
  from assms(1-3) obtain acc where l: "voutLoop D 0 (raw_Vout tx) noVout = Ok acc"
    using voutLoop_voutsOk [OF assms(1), of 0 "raw_Vout tx" noVout] voutsOk_start by auto
  have "processVin D C v = Panic (ErrorString ''invalid pkScript'')"
    using spends by (auto simp: spentOutput_def processVin_def ExtractSenderInfo_def Let_def
        split: outcome.splits if_splits)
  then obtain e where "extractInputInfos D C tx = Panic e"
    using vinLoop_panics [OF v] by (metis extractInputInfos_def)
  with l show ?thesis by (simp add: convertUtxoInfoToTx_def)
qed

theorem convertUtxoInfoToTx_panics_on_other_inputs_witness:
  "\<exists>e. convertUtxoInfoToTx ref_deps (exClient ''pubkey'') exTx 0 7 (zeros 32) = Panic e"
proof (rule convertUtxoInfoToTx_panics_on_other_inputs [OF script_lib_ref exTx_egtxOutputs exTx_addressesOk])
  show "\<lparr>vin_Txid = hexEncodeToString (rev (replicate 32 6)), vin_Vout = 0\<rparr> \<in> set (raw_Vin exTx)"
    by (simp add: exTx_def)
  show "spentOutput ref_deps (exClient ''pubkey'') \<lparr>vin_Txid = hexEncodeToString (rev (replicate 32 6)), vin_Vout = 0\<rparr>
      = Some (exVout ''pubkey'' [] [exAddr 3] exNoToken)"
    by (rule exTx_spent [OF exClient_origin])
  show "\<not> p2 (exVout ''pubkey'' [] [exAddr 3] exNoToken)" by (simp add: exVout_def isP2PKHorP2SH_def)
qed

text \<open>
  An output entry holds the recipient in its first 20 bytes and the value in wei in the last
  12: for a 20-byte address and at most 21 million coins, nothing is lost in the packing.
\<close>

lemma receiver_layout:
  assumes "uint256_lib (d_u256 D)" and "outAddress D v = Ok a" and "length a = 20"
    and sat: "uint (satoshis (vout_Value v)) \<le> 2100000000000000"
  shows "take 20 (receiver D v) = a \<and>
    be_val (drop 20 (receiver D v)) = uint (satoshis (vout_Value v)) * 10 ^ 10"
proof -
  have "receiver D v = a @ be_bytes 12 (uint (satoshis (vout_Value v)) * 10000000000)"
    using assms by (simp add: receiver_def ok_or_def addressAndAmount_layout)
  moreover have "uint (satoshis (vout_Value v)) * 10000000000 < 256 ^ 12"
    using sat by simp
  ultimately show ?thesis using assms(3) by (simp add: be_val_be_bytes)
qed

lemma unat_commitment_length: "n \<le> 40 \<Longrightarrow> unat (word_of_nat n :: byte) = n"
  by (simp add: unat_of_nat)

text \<open>
  C34: Token information can be read back.  From the four numbers \<open>buildTokenInfo\<close> makes for an
  address of 20 bytes one recovers the address, the token amount (as an unsigned 64-bit number),
  the token category, the capability code and the whole NFT commitment, head and tail.
\<close>

theorem buildTokenInfo_roundtrip:
  assumes lib: "uint256_lib (d_u256 D)" and a: "length address = 20"
    and b: "buildTokenInfo D address td = Ok ti"
  shows "let aa = be_bytes 32 (AddressAndTokenAmount ti);
      lh = be_bytes 32 (NftCommitmentLengthAndHead ti);
      tl = be_bytes 32 (NftCommitmentTail ti)
    in take 20 aa = address \<and>
      (\<exists>amount. parseInt (td_Amount td) = Ok amount \<and> be_val (drop 20 aa) = as_u64 amount) \<and>
      hexDecodeString (td_Category td) = Ok (be_bytes 32 (TokenCategory ti)) \<and>
      lh ! 1 = capabilityCode (td_Capability td) \<and>
      take (unat (lh ! 0)) (drop 24 lh @ tl) = bytes_of (td_Commitment td)"
proof -
  let ?c = "bytes_of (td_Commitment td)"
  let ?h = "(zeros 32)[0 := word_of_nat (length ?c), 1 := capabilityCode (td_Capability td)]"
  from b obtain amount cat where
    am: "parseInt (td_Amount td) = Ok amount" and cat: "hexDecodeString (td_Category td) = Ok cat" "length cat = 32"
    and len: "length ?c \<le> 40"
    and ti: "ti = \<lparr>AddressAndTokenAmount = be_val (copy_into (copy_into (zeros 32) 0 20 address) 20 32
                (drop 8 (u_Bytes20 (d_u256 D) (u_NewInt (d_u256 D) (word_of_int amount))))),
              TokenCategory = be_val cat,
              NftCommitmentLengthAndHead = be_val (copy_into ?h 24 32 ?c),
              NftCommitmentTail = be_val (if 8 < length ?c then copy_into (zeros 32) 0 32 (drop 8 ?c) else zeros 32)\<rparr>"
    by (auto simp: buildTokenInfo_def Let_def split: outcome.splits if_splits)
  have rtb: "\<And>xs. length xs = 32 \<Longrightarrow> be_bytes 32 (be_val xs) = xs"
    by (metis be_bytes_be_val)
  have "AddressAndTokenAmount ti = be_val (address @ be_bytes 12 (uint (word_of_int amount :: uint64)))"
    by (simp add: ti uint256_lib.number12 [OF lib] copy_into_exact a)
  then have aa: "be_bytes 32 (AddressAndTokenAmount ti) = address @ be_bytes 12 (uint (word_of_int amount :: uint64))"
    using a by (simp add: rtb)
  have "be_val (be_bytes 12 (uint (word_of_int amount :: uint64))) = as_u64 amount"
    by (simp add: be_val_be_bytes uint_word_of_int as_u64_def)
  moreover have lh: "be_bytes 32 (NftCommitmentLengthAndHead ti) = copy_into ?h 24 32 ?c"
    by (simp only: ti TokenInfo.select_convs rtb length_copy_into length_list_update length_zeros)
  moreover have "copy_into ?h 24 32 ?c ! 0 = word_of_nat (length ?c)"
    "copy_into ?h 24 32 ?c ! 1 = capabilityCode (td_Capability td)"
    by (simp_all add: copy_into_def Let_def nth_append)
  moreover have "take (length ?c) (drop 24 (copy_into ?h 24 32 ?c) @ be_bytes 32 (NftCommitmentTail ti)) = ?c"
  proof (cases "8 < length ?c")
    case True
    then have "be_bytes 32 (NftCommitmentTail ti) = drop 8 ?c @ zeros (40 - length ?c)"
      using len by (simp add: ti copy_into_short rtb)
    moreover have "drop 24 (copy_into ?h 24 32 ?c) = take 8 ?c"
      using True by (simp add: copy_into_def Let_def)
    ultimately show ?thesis using True by simp
  next
    case False
    then show ?thesis by (simp add: copy_into_short)
  qed
  ultimately show ?thesis
    using am cat aa a len by (simp add: Let_def ti rtb unat_commitment_length)
qed

theorem buildTokenInfo_roundtrip_witness:
  "\<exists>ti. buildTokenInfo ref_deps (replicate 20 4) exToken = Ok ti \<and>
     take 20 (be_bytes 32 (AddressAndTokenAmount ti)) = replicate 20 4 \<and>
     be_val (drop 20 (be_bytes 32 (AddressAndTokenAmount ti))) = as_u64 7 \<and>
     be_bytes 32 (TokenCategory ti) = replicate 32 0xab \<and>
     be_bytes 32 (NftCommitmentLengthAndHead ti) ! 1 = 2"
proof -
  have p: "parseInt (td_Amount exToken) = Ok 7" by code_simp
  have c: "hexDecodeString (td_Category exToken) = Ok (replicate 32 0xab)"
    by (simp add: exToken_def hex_roundtrip)
  have "\<exists>ti. buildTokenInfo ref_deps (replicate 20 4) exToken = Ok ti"
    by (simp add: buildTokenInfo_def p c Let_def) (simp add: exToken_def bytes_of_def)
  then obtain ti where ti: "buildTokenInfo ref_deps (replicate 20 4) exToken = Ok ti" ..
  moreover have "capabilityCode (td_Capability exToken) = 2" by code_simp
  ultimately show ?thesis
    using buildTokenInfo_roundtrip [OF uint256_lib_ref _ ti] p c by (simp add: Let_def)
qed

end
