(* ===== verification/Scanner_Scan.thy ===== *)
theory Scanner_Scan
  imports Scanner_Derive
begin

text \<open>
  What \<open>GetNewTxs\<close> of scanner/bch.go collects: from mined blocks every derivable
  transaction of a contiguous range of heights, in order and with consecutive indexes; from
  the mempool the derivable transactions that are neither known nor mined, up to the
  configured number.  The cache of known transactions stays bounded and keeps a transaction
  from being delivered twice.
\<close>

section \<open>The block phase in closed form\<close>

definition skipTx :: "BchScanner \<Rightarrow> (string \<Rightarrow> bool) \<Rightarrow> TxRawResult \<Rightarrow> bool" where
  "skipTx b isTxMined tx \<longleftrightarrow> isKnownTx (raw_Txid tx) b \<or> isTxMined (raw_Txid tx)"

text \<open>
  The virtual transactions of a list of node transactions: those to skip and those that are
  not derivable are left out, the others are numbered from \<open>i\<close>.
\<close>

fun derive :: "deps \<Rightarrow> BchClient \<Rightarrow> (TxRawResult \<Rightarrow> bool) \<Rightarrow> int \<Rightarrow> bytes \<Rightarrow> int \<Rightarrow> TxRawResult list \<Rightarrow> ModbTx list" where
  "derive D C skip height hash i [] = []"
| "derive D C skip height hash i (tx # txs) =
     (if skip tx then derive D C skip height hash i txs
      else case ok_option (convertUtxoInfoToTx D C tx i height hash) of
             None \<Rightarrow> derive D C skip height hash i txs
           | Some m \<Rightarrow> m # derive D C skip height hash (i + 1) txs)"

lemma derive_append:
  "derive D C skip height hash i (xs @ ys) =
     derive D C skip height hash i xs @
     derive D C skip height hash (i + int (length (derive D C skip height hash i xs))) ys"
proof (induction xs arbitrary: i)
  case (Cons x xs)
  show ?case
    using Cons [of i] Cons [of "i + 1"] by (auto split: option.split simp: algebra_simps)
qed simp

lemma blockTxLoop_closed:
  "blockTxLoop D C isTxMined b height hash txs (acc, i) = Ok (acc', i') \<Longrightarrow>
   acc' = acc @ derive D C (skipTx b isTxMined) height hash i txs \<and>
   i' = i + int (length (derive D C (skipTx b isTxMined) height hash i txs))"
proof (induction txs arbitrary: acc i)
  case (Cons tx txs)
  show ?case
  proof (cases "skipTx b isTxMined tx")
    case True
    with Cons show ?thesis by (simp add: skipTx_def)
  next
    case False
    then have unknown: "\<not> isKnownTx (raw_Txid tx) b" "\<not> isTxMined (raw_Txid tx)" by (simp_all add: skipTx_def)
    show ?thesis
    proof (cases "convertUtxoInfoToTx D C tx i height hash")
      case (Ok m)
      then have "blockTxLoop D C isTxMined b height hash txs (acc @ [m], i + 1) = Ok (acc', i')"
        using Cons.prems unknown by simp
      from Cons.IH [OF this] show ?thesis by (simp add: False Ok ok_option_def)
    next
      case (Err e)
      then have "blockTxLoop D C isTxMined b height hash txs (acc, i) = Ok (acc', i')"
        using Cons.prems unknown by simp
      from Cons.IH [OF this] show ?thesis by (simp add: False Err ok_option_def)
    next
      case (Panic e)
      with Cons.prems unknown show ?thesis by simp
    qed
  qed
qed simp

definition blockTxs :: "BchClient \<Rightarrow> int \<Rightarrow> TxRawResult list" where
  "blockTxs C h = ok_or [] (fetchBlock C h)"

text \<open>All transactions of the main chain blocks from \<open>lo\<close> to \<open>hi\<close>.\<close>

definition chainTxs :: "BchClient \<Rightarrow> int \<Rightarrow> int \<Rightarrow> TxRawResult list" where
  "chainTxs C lo hi = concat (map (blockTxs C) [lo..hi])"

lemma chainTxs_empty [simp]: "hi < lo \<Longrightarrow> chainTxs C lo hi = []"
  by (simp add: chainTxs_def)

lemma chainTxs_Cons: "lo \<le> hi \<Longrightarrow> chainTxs C lo hi = blockTxs C lo @ chainTxs C (lo + 1) hi"
  by (simp add: chainTxs_def upto_rec1)

lemma skipTx_SetLatest [simp]: "skipTx (SetLatestScanHeight h b) = skipTx b"
  by (intro ext) (simp add: skipTx_def SetLatestScanHeight_def isKnownTx_def)

lemma SetLatest_simps [simp]:
  "bs_LatestScanBlockHeight (SetLatestScanHeight h b) = h"
  "bs_MaxTxsInBlock (SetLatestScanHeight h b) = bs_MaxTxsInBlock b"
  "bs_knownTxCache (SetLatestScanHeight h b) = bs_knownTxCache b"
  "SetLatestScanHeight h' (SetLatestScanHeight h b) = SetLatestScanHeight h' b"
  by (simp_all add: SetLatestScanHeight_def)

lemma SetLatest_same [simp]: "SetLatestScanHeight (bs_LatestScanBlockHeight b) b = b"
  by (simp add: SetLatestScanHeight_def)

text \<open>One iteration of the loop over the heights.\<close>

lemma heightLoop_step:
  assumes "heightLoop D C isTxMined height hash h newest (acc, i, b) = Ok (acc', i', b')" and "h \<le> newest"
  obtains new where "new = derive D C (skipTx b isTxMined) height hash i (blockTxs C h)"
    "(if bs_MaxTxsInBlock b \<le> int (length (acc @ new))
      then acc' = acc @ new \<and> i' = i + int (length new) \<and> b' = SetLatestScanHeight h b
      else heightLoop D C isTxMined height hash (h + 1) newest
             (acc @ new, i + int (length new), SetLatestScanHeight h b) = Ok (acc', i', b'))"
proof -
  obtain txs where f: "fetchBlock C h = Ok txs"
    using assms by (cases "fetchBlock C h") (simp_all add: heightLoop.simps)
  then obtain r where l: "blockTxLoop D C isTxMined b height hash txs (acc, i) = Ok r"
    using assms by (cases "blockTxLoop D C isTxMined b height hash txs (acc, i)") (simp_all add: heightLoop.simps)
  obtain acc1 i1 where r: "r = (acc1, i1)" by (cases r)
  note c = blockTxLoop_closed [OF l [unfolded r]]
  have bt: "blockTxs C h = txs" by (simp add: blockTxs_def f ok_or_def)
  show ?thesis
    using assms that [OF refl] c by (simp add: heightLoop.simps [of D C isTxMined height hash h] f l r bt Let_def split: if_splits)
qed

lemma heightLoop_closed:
  assumes "heightLoop D C isTxMined height hash h newest (acc, i, b) = Ok (acc', i', b')"
    and "bs_LatestScanBlockHeight b = h - 1"
  shows "\<exists>hi. h - 1 \<le> hi \<and> (hi \<le> newest \<or> hi = h - 1) \<and> b' = SetLatestScanHeight hi b \<and>
    acc' = acc @ derive D C (skipTx b isTxMined) height hash i (chainTxs C h hi) \<and>
    i' = i + int (length acc') - int (length acc) \<and>
    (hi < newest \<longrightarrow> bs_MaxTxsInBlock b \<le> int (length acc')) \<and>
    (\<forall>k. h \<le> k \<and> k < hi \<longrightarrow>
       int (length (acc @ derive D C (skipTx b isTxMined) height hash i (chainTxs C h k))) < bs_MaxTxsInBlock b)"
  using assms
proof (induction "nat (newest + 1 - h)" arbitrary: h acc i b)
  case 0
  then have "acc' = acc" "i' = i" "b' = b" "newest < h" by (auto simp: heightLoop.simps)
  with 0 show ?case by (intro exI [of _ "h - 1"]) (simp add: SetLatest_same [of b, unfolded 0(3)])
next
  case (Suc n)
  then have le: "h \<le> newest" by simp
  let ?der = "derive D C (skipTx b isTxMined) height hash"
  obtain new where new: "new = ?der i (blockTxs C h)" and
    next_step: "(if bs_MaxTxsInBlock b \<le> int (length (acc @ new))
      then acc' = acc @ new \<and> i' = i + int (length new) \<and> b' = SetLatestScanHeight h b
      else heightLoop D C isTxMined height hash (h + 1) newest
             (acc @ new, i + int (length new), SetLatestScanHeight h b) = Ok (acc', i', b'))"
    using heightLoop_step [OF Suc.prems(1) le] by blast
  have split: "\<And>k. h \<le> k \<Longrightarrow> ?der i (chainTxs C h k) = new @ ?der (i + int (length new)) (chainTxs C (h + 1) k)"
    by (simp add: new chainTxs_Cons derive_append)
  show ?case
  proof (cases "bs_MaxTxsInBlock b \<le> int (length (acc @ new))")
    case True
    with next_step le split [of h] show ?thesis by (intro exI [of _ h]) auto
  next
    case False
    with next_step have rest: "heightLoop D C isTxMined height hash (h + 1) newest
        (acc @ new, i + int (length new), SetLatestScanHeight h b) = Ok (acc', i', b')" by simp
    have "n = nat (newest + 1 - (h + 1))" using Suc.hyps(2) by simp
    from Suc.hyps(1) [OF this rest, simplified] obtain hi where hi: "h \<le> hi" "hi \<le> newest \<or> hi = h"
      "b' = SetLatestScanHeight hi b"
      "acc' = (acc @ new) @ ?der (i + int (length new)) (chainTxs C (h + 1) hi)"
      "i' = i + int (length new) + int (length acc') - int (length (acc @ new))"
      "hi < newest \<longrightarrow> bs_MaxTxsInBlock b \<le> int (length acc')"
      "\<forall>k. h + 1 \<le> k \<and> k < hi \<longrightarrow>
         int (length ((acc @ new) @ ?der (i + int (length new)) (chainTxs C (h + 1) k))) < bs_MaxTxsInBlock b"
      by (elim exE conjE) (rule that; simp)
    have "int (length (acc @ ?der i (chainTxs C h k))) < bs_MaxTxsInBlock b" if "h \<le> k" "k < hi" for k
      using that hi(7) [rule_format, of k] split [of k] False by (cases "k = h") auto
    with hi le split [of hi] show ?thesis by (intro exI [of _ hi]) auto
  qed
qed

section \<open>The cache\<close>

definition cacheOk :: "BchScanner \<Rightarrow> bool" where
  "cacheOk b \<longleftrightarrow> finite (bs_knownTxCache b) \<and> card (bs_knownTxCache b) \<le> MaxCacheSize + 1"

text \<open>\<open>n\<close> more entries fit without an eviction.\<close>

definition cacheRoom :: "nat \<Rightarrow> BchScanner \<Rightarrow> bool" where
  "cacheRoom n b \<longleftrightarrow> finite (bs_knownTxCache b) \<and> card (bs_knownTxCache b) + n \<le> MaxCacheSize + 1"

lemma AddKnownTx_simps [simp]:
  "bs_MaxTxsInBlock (AddKnownTx pick t b) = bs_MaxTxsInBlock b"
  "bs_LatestScanBlockHeight (AddKnownTx pick t b) = bs_LatestScanBlockHeight b"
  by (simp_all add: AddKnownTx_def Let_def)

lemma AddKnownTx_known [simp]: "isKnownTx t (AddKnownTx pick t b)"
  by (simp add: AddKnownTx_def isKnownTx_def Let_def)

lemma AddKnownTx_cacheOk:
  assumes "cacheOk b" and pick: "\<And>s. s \<noteq> {} \<Longrightarrow> pick s \<in> s"
  shows "cacheOk (AddKnownTx pick t b)"
proof (cases "MaxCacheSize < card (bs_knownTxCache b)")
  case True
  then have "bs_knownTxCache b \<noteq> {}" by auto
  then have "card (bs_knownTxCache b - {pick (bs_knownTxCache b)}) \<le> MaxCacheSize"
    using assms pick by (simp add: cacheOk_def le_diff_conv)
  with True assms show ?thesis
    by (simp add: AddKnownTx_def cacheOk_def Let_def card_insert_if)
next
  case False
  with assms show ?thesis by (simp add: AddKnownTx_def cacheOk_def Let_def card_insert_if)
qed

lemma AddKnownTx_room:
  assumes "cacheRoom (Suc n) b"
  shows "cacheRoom n (AddKnownTx pick t b)"
    and "isKnownTx x (AddKnownTx pick t b) \<longleftrightarrow> x = t \<or> isKnownTx x b"
  using assms by (auto simp: AddKnownTx_def cacheRoom_def isKnownTx_def Let_def card_insert_if)

lemma cacheRoom_mono: "cacheRoom n b \<Longrightarrow> m \<le> n \<Longrightarrow> cacheRoom m b"
  by (simp add: cacheRoom_def)

lemma cacheRoom_cacheOk: "cacheRoom n b \<Longrightarrow> cacheOk b"
  by (simp add: cacheRoom_def cacheOk_def)

section \<open>The mempool phase in closed form\<close>

text \<open>The virtual transaction of one mempool entry, if there is a new one.\<close>

definition mempoolTx ::
  "deps \<Rightarrow> BchClient \<Rightarrow> (string \<Rightarrow> bool) \<Rightarrow> int \<Rightarrow> int \<Rightarrow> bytes \<Rightarrow> BchScanner \<Rightarrow> bytes \<Rightarrow> ModbTx option" where
  "mempoolTx D C isTxMined txIndex height hash b h =
     (if isKnownTx (d_HashString D h) b \<or> isTxMined (d_HashString D h) then None
      else case GetRawTransactionVerbose C h of
             Ok tx \<Rightarrow> ok_option (convertUtxoInfoToTx D C tx txIndex height hash)
           | _ \<Rightarrow> None)"

lemma mempoolTx_AddKnownTx:
  assumes "cacheRoom (Suc n) b" and "d_HashString D h \<noteq> t"
  shows "mempoolTx D C isTxMined i height hash (AddKnownTx pick t b) h = mempoolTx D C isTxMined i height hash b h"
  using assms AddKnownTx_room(2) [OF assms(1)] by (simp add: mempoolTx_def)

text \<open>What an iteration does that does not stop the scanner.\<close>

lemma mempoolLoop_step:
  assumes "mempoolLoop D pick C isTxMined i height hash (h # hs) (acc, b) = Ok (acc', b')"
  obtains
    (skip) "mempoolTx D C isTxMined i height hash b h = None"
      "mempoolLoop D pick C isTxMined i height hash hs (acc, b) = Ok (acc', b')"
      "isKnownTx (d_HashString D h) b \<or> isTxMined (d_HashString D h) \<or> (\<exists>e. GetRawTransactionVerbose C h = Err e)"
  | (other) "mempoolTx D C isTxMined i height hash b h = None"
      "mempoolLoop D pick C isTxMined i height hash hs (acc, AddKnownTx pick (d_HashString D h) b) = Ok (acc', b')"
  | (new) m where "mempoolTx D C isTxMined i height hash b h = Some m"
      "bs_MaxTxsInBlock b > int (length acc) + 1"
      "mempoolLoop D pick C isTxMined i height hash hs (acc @ [m], AddKnownTx pick (d_HashString D h) b) = Ok (acc', b')"
  | (full) m where "mempoolTx D C isTxMined i height hash b h = Some m"
      "bs_MaxTxsInBlock b \<le> int (length acc) + 1"
      "acc' = acc @ [m]" "b' = AddKnownTx pick (d_HashString D h) b"
proof (cases "isKnownTx (d_HashString D h) b \<or> isTxMined (d_HashString D h)")
  case True
  with assms show ?thesis by (intro skip) (auto simp: Let_def mempoolTx_def)
next
  case unknown: False
  show ?thesis
  proof (cases "GetRawTransactionVerbose C h")
    case (Ok tx)
    show ?thesis
    proof (cases "convertUtxoInfoToTx D C tx i height hash")
      case conv: (Ok m)
      with assms unknown Ok new full show ?thesis
        by (auto simp: Let_def mempoolTx_def ok_option_def split: if_splits)
    next
      case (Err e)
      with assms unknown Ok other show ?thesis by (simp add: Let_def mempoolTx_def ok_option_def)
    next
      case (Panic e)
      with assms unknown Ok show ?thesis by (simp add: Let_def)
    qed
  next
    case (Err e)
    with assms unknown skip show ?thesis by (simp add: Let_def mempoolTx_def)
  next
    case (Panic e)
    with assms unknown show ?thesis by (simp add: Let_def)
  qed
qed

lemma mempoolLoop_frame:
  "mempoolLoop D pick C isTxMined i height hash hs (acc, b) = Ok (acc', b') \<Longrightarrow>
   bs_MaxTxsInBlock b' = bs_MaxTxsInBlock b \<and> bs_LatestScanBlockHeight b' = bs_LatestScanBlockHeight b"
proof (induction hs arbitrary: acc b)
  case (Cons h hs)
  from Cons.prems show ?case by (cases rule: mempoolLoop_step) (use Cons.IH in fastforce)+
qed simp

lemma mempoolLoop_cacheOk:
  assumes pick: "\<And>s. s \<noteq> {} \<Longrightarrow> pick s \<in> s"
  shows "mempoolLoop D pick C isTxMined i height hash hs (acc, b) = Ok (acc', b') \<Longrightarrow> cacheOk b \<Longrightarrow> cacheOk b'"
proof (induction hs arbitrary: acc b)
  case (Cons h hs)
  from Cons.prems(1) show ?case
    by (cases rule: mempoolLoop_step) (use Cons.IH Cons.prems(2) AddKnownTx_cacheOk [OF _ pick] in fast)+
qed simp

text \<open>Everything delivered comes from a mempool entry, at the one index \<open>i\<close>.\<close>

lemma mempoolLoop_sound:
  "mempoolLoop D pick C isTxMined i height hash hs (acc, b) = Ok (acc', b') \<Longrightarrow>
   \<exists>new. acc' = acc @ new \<and>
     (\<forall>m \<in> set new. \<exists>h \<in> set hs. \<exists>tx. \<not> isTxMined (d_HashString D h) \<and>
        GetRawTransactionVerbose C h = Ok tx \<and> convertUtxoInfoToTx D C tx i height hash = Ok m)"
proof (induction hs arbitrary: acc b)
  case (Cons h hs)
  have some: "\<And>m. mempoolTx D C isTxMined i height hash b h = Some m \<Longrightarrow>
    \<exists>tx. \<not> isTxMined (d_HashString D h) \<and> GetRawTransactionVerbose C h = Ok tx \<and>
      convertUtxoInfoToTx D C tx i height hash = Ok m"
    by (auto simp: mempoolTx_def ok_option_def split: if_splits outcome.splits)
  from Cons.prems show ?case
  proof (cases rule: mempoolLoop_step)
    case (new m)
    with Cons.IH [OF new(3)] obtain new' where "acc' = (acc @ [m]) @ new'"
      "\<forall>m \<in> set new'. \<exists>h \<in> set hs. \<exists>tx. \<not> isTxMined (d_HashString D h) \<and>
        GetRawTransactionVerbose C h = Ok tx \<and> convertUtxoInfoToTx D C tx i height hash = Ok m" by blast
    with some [OF new(1)] show ?thesis by (intro exI [of _ "m # new'"]) auto
  next
    case (full m)
    with some [OF full(1)] show ?thesis by (intro exI [of _ "[m]"]) auto
  qed (use Cons.IH in fastforce)+
qed simp

lemma map_filter_cong: "(\<And>x. x \<in> set xs \<Longrightarrow> f x = g x) \<Longrightarrow> List.map_filter f xs = List.map_filter g xs"
  by (induction xs) (auto split: option.split)

definition settled :: "deps \<Rightarrow> BchClient \<Rightarrow> (string \<Rightarrow> bool) \<Rightarrow> BchScanner \<Rightarrow> bytes \<Rightarrow> bool" where
  "settled D C isTxMined b h \<longleftrightarrow>
     isKnownTx (d_HashString D h) b \<or> isTxMined (d_HashString D h) \<or> (\<exists>e. GetRawTransactionVerbose C h = Err e)"

lemma settled_known: "isKnownTx (d_HashString D h) b \<Longrightarrow> settled D C isTxMined b h"
  by (simp add: settled_def)

lemma mempoolLoop_settled:
  "list_all (settled D C isTxMined b) hs \<Longrightarrow> mempoolLoop D pick C isTxMined i height hash hs (acc, b) = Ok (acc, b)"
  by (induction hs) (auto simp: settled_def Let_def)

lemma mempoolLoop_closed:
  assumes "mempoolLoop D pick C isTxMined i height hash hs (acc, b) = Ok (acc', b')"
    and "distinct (map (d_HashString D) hs)" and "cacheRoom (length hs) b"
    and "int (length acc) < bs_MaxTxsInBlock b"
  shows "acc' = acc @ take (nat (bs_MaxTxsInBlock b - int (length acc)))
       (List.map_filter (mempoolTx D C isTxMined i height hash b) hs) \<and>
    (\<forall>x. isKnownTx x b \<longrightarrow> isKnownTx x b') \<and>
    (int (length acc') < bs_MaxTxsInBlock b \<longrightarrow> list_all (settled D C isTxMined b') hs)"
  using assms
proof (induction hs arbitrary: acc b)
  case (Cons h hs)
  let ?t = "d_HashString D h" and ?f = "mempoolTx D C isTxMined i height hash"
  let ?b1 = "AddKnownTx pick ?t b"
  have room: "cacheRoom (length hs) b" "cacheRoom (length hs) ?b1"
    using Cons.prems(3) AddKnownTx_room(1) [of "length hs" b] cacheRoom_mono [of "Suc (length hs)" b "length hs"]
    by simp_all
  have known1: "\<And>x. isKnownTx x ?b1 \<longleftrightarrow> x = ?t \<or> isKnownTx x b"
    using Cons.prems(3) AddKnownTx_room(2) [of "length hs" b] by simp
  have same: "List.map_filter (?f ?b1) hs = List.map_filter (?f b) hs"
    using Cons.prems(2,3) by (intro map_filter_cong mempoolTx_AddKnownTx) (auto simp: image_iff)
  have dist: "distinct (map (d_HashString D) hs)" using Cons.prems(2) by simp
  from Cons.prems(1) show ?case
  proof (cases rule: mempoolLoop_step)
    case skip
    with Cons.IH [OF skip(2) dist room(1) Cons.prems(4)] show ?thesis by (auto simp: settled_def)
  next
    case other
    with Cons.IH [OF other(2) dist room(2)] Cons.prems(4) known1 same show ?thesis by (simp add: settled_known)
  next
    case (new m)
    then have ih: "acc' = (acc @ [m]) @ take (nat (bs_MaxTxsInBlock b - int (length (acc @ [m]))))
        (List.map_filter (?f ?b1) hs)"
      "\<forall>x. isKnownTx x ?b1 \<longrightarrow> isKnownTx x b'"
      "int (length acc') < bs_MaxTxsInBlock b \<longrightarrow> list_all (settled D C isTxMined b') hs"
      using Cons.IH [OF new(3) dist room(2)] by simp_all
    have "nat (bs_MaxTxsInBlock b - int (length acc)) = Suc (nat (bs_MaxTxsInBlock b - int (length (acc @ [m]))))"
      using new(2) by simp
    with ih new(1) same known1 show ?thesis by (simp add: settled_known)
  next
    case (full m)
    then have "bs_MaxTxsInBlock b - int (length acc) = 1" using Cons.prems(4) by simp
    with full known1 show ?thesis by simp
  qed
qed simp

section \<open>Both phases\<close>

lemma collect_closed:
  assumes "collectMainChainBlockTxs D C isTxMined height hash 0 b = Ok (txs, i, b')"
  obtains newest hi where "GetBlockCount C = Ok newest"
    "bs_LatestScanBlockHeight b \<le> hi" "hi \<le> newest \<or> hi = bs_LatestScanBlockHeight b"
    "b' = SetLatestScanHeight hi b" "i = int (length txs)"
    "txs = derive D C (skipTx b isTxMined) height hash 0 (chainTxs C (bs_LatestScanBlockHeight b + 1) hi)"
    "hi < newest \<longrightarrow> bs_MaxTxsInBlock b \<le> int (length txs)"
    "\<forall>k. bs_LatestScanBlockHeight b < k \<and> k < hi \<longrightarrow>
       int (length (derive D C (skipTx b isTxMined) height hash 0
         (chainTxs C (bs_LatestScanBlockHeight b + 1) k))) < bs_MaxTxsInBlock b"
proof -
  from assms obtain newest where n: "GetBlockCount C = Ok newest"
    and l: "heightLoop D C isTxMined height hash (bs_LatestScanBlockHeight b + 1) newest ([], 0, b) = Ok (txs, i, b')"
    by (cases "GetBlockCount C") (simp_all add: collectMainChainBlockTxs_def)
  from heightLoop_closed [OF l, simplified] show ?thesis
    by (elim exE conjE) (rule that [OF n]; simp add: add1_zle_eq)
qed

lemma GetNewTxs_parts:
  assumes "GetNewTxs D pick C isTxMined height hash scanBlock b = Ok (txs, b')"
  obtains blk b1 where
    "b1 = SetLatestScanHeight (bs_LatestScanBlockHeight b1) b"
    "blk = derive D C (skipTx b isTxMined) height hash 0
       (chainTxs C (bs_LatestScanBlockHeight b + 1) (bs_LatestScanBlockHeight b1))"
    "scanBlock \<or> b1 = b"
    "bs_MaxTxsInBlock b \<le> int (length blk) \<and> txs = blk \<and> b' = b1 \<or>
     int (length blk) < bs_MaxTxsInBlock b \<and>
       (\<exists>hs. GetRawMempool C = Ok hs \<and>
         mempoolLoop D pick C isTxMined (int (length blk)) height hash hs (blk, b1) = Ok (txs, b'))"
proof -
  have rest: "bs_MaxTxsInBlock b1 \<le> int (length blk) \<and> txs = blk \<and> b' = b1 \<or>
     int (length blk) < bs_MaxTxsInBlock b1 \<and>
       (\<exists>hs. GetRawMempool C = Ok hs \<and> mempoolLoop D pick C isTxMined i height hash hs (blk, b1) = Ok (txs, b'))"
    if "(if scanBlock then collectMainChainBlockTxs D C isTxMined height hash 0 b else Ok ([], 0, b)) = Ok (blk, i, b1)"
    for blk i b1
    using assms that by (cases "GetRawMempool C") (auto simp: GetNewTxs_def split: if_splits)
  show ?thesis
  proof (cases scanBlock)
    case False
    with that [of b "[]"] rest [of "[]" 0 b] show ?thesis by simp
  next
    case True
    with assms obtain blk i b1 where c: "collectMainChainBlockTxs D C isTxMined height hash 0 b = Ok (blk, i, b1)"
      by (auto simp: GetNewTxs_def split: outcome.splits)
    from c obtain hi where hi: "b1 = SetLatestScanHeight hi b" "i = int (length blk)"
      "blk = derive D C (skipTx b isTxMined) height hash 0 (chainTxs C (bs_LatestScanBlockHeight b + 1) hi)"
      by (rule collect_closed)
    from that [of b1 blk] rest [of blk i b1] True c hi show ?thesis by simp
  qed
qed

lemma mempoolLoop_bound:
  "mempoolLoop D pick C isTxMined i height hash hs (acc, b) = Ok (acc', b') \<Longrightarrow>
   int (length acc) < bs_MaxTxsInBlock b \<Longrightarrow> int (length acc') \<le> bs_MaxTxsInBlock b"
proof (induction hs arbitrary: acc b)
  case (Cons h hs)
  from Cons.prems(1) show ?case
    by (cases rule: mempoolLoop_step) (use Cons.IH Cons.prems(2) in fastforce)+
qed simp

section \<open>What is stored of a transaction\<close>

text \<open>The stored content decodes to a transaction of the given block at the given index.\<close>

definition storedAs :: "deps \<Rightarrow> int \<Rightarrow> bytes \<Rightarrow> int \<Rightarrow> ModbTx \<Rightarrow> bool" where
  "storedAs D height hash i m =
     (case d_UnmarshalTx D (mtx_Content m) of
        Ok t \<Rightarrow> etx_Hash t = mtx_HashId m \<and> etx_TransactionIndex t = i \<and> etx_BlockNumber t = height \<and>
          etx_BlockHash t = hash
      | _ \<Rightarrow> False)"

lemma convert_storedAs:
  assumes "codec_lib D" and "convertUtxoInfoToTx D C tx i height hash = Ok m"
  shows "storedAs D height hash i m"
  using assms(2)
  by (elim convert_Ok) (auto dest!: codec_lib.tx_decode [OF assms(1)] simp: storedAs_def evmTxOf_def)

lemma derive_storedAs:
  assumes "codec_lib D"
  shows "k < length (derive D C skip height hash i txs) \<Longrightarrow>
    storedAs D height hash (i + int k) (derive D C skip height hash i txs ! k)"
proof (induction txs arbitrary: i k)
  case (Cons tx txs)
  show ?case
  proof (cases "skip tx \<or> ok_option (convertUtxoInfoToTx D C tx i height hash) = None")
    case True
    with Cons show ?thesis by auto
  next
    case False
    then obtain m where m: "ok_option (convertUtxoInfoToTx D C tx i height hash) = Some m" "\<not> skip tx" by auto
    then have s: "storedAs D height hash i m"
      using convert_storedAs [OF assms] by (auto simp: ok_option_def split: outcome.splits)
    with m Cons.prems Cons.IH [of "k - 1" "i + 1"] show ?thesis by (cases k) (simp_all add: add.assoc)
  qed
qed simp

section \<open>An example node\<close>

text \<open>The transaction of \<open>exTx\<close> is in the mempool and in the only block.\<close>

definition exNode :: BchClient where
  "exNode = \<lparr>GetRawMempool = Ok [replicate 32 5],
     GetRawTransactionVerbose = (\<lambda>h. if h = replicate 32 6 then Ok (exOrigin ''scripthash'')
       else if h = replicate 32 5 then Ok exTx else Err (ErrorString ''no tx'')),
     GetBlockCount = Ok 1, GetBlockHash = (\<lambda>h. Ok []), GetBlockVerboseTx = (\<lambda>h. Ok [exTx])\<rparr>"

lemma NewBchScanner_fields [simp]:
  "bs_MaxTxsInBlock (NewBchScanner n) = n" "bs_LatestScanBlockHeight (NewBchScanner n) = 0"
  "bs_knownTxCache (NewBchScanner n) = {}"
  by (simp_all add: NewBchScanner_def)

definition exPick :: "string set \<Rightarrow> string" where
  "exPick s = (SOME x. x \<in> s)"

lemma exPick: "s \<noteq> {} \<Longrightarrow> exPick s \<in> s"
  by (simp add: exPick_def some_in_eq)

lemma exNode_derives: "\<exists>m. convertUtxoInfoToTx ref_deps exNode exTx i height hash = Ok m"
  by (rule exTx_derives) (simp add: exNode_def)

lemma exNode_mempool:
  obtains m b where
    "GetNewTxs ref_deps exPick exNode (\<lambda>_. False) 1 (zeros 32) False (NewBchScanner 2) = Ok ([m], b)"
    "convertUtxoInfoToTx ref_deps exNode exTx 0 1 (zeros 32) = Ok m"
proof -
  obtain m where m: "convertUtxoInfoToTx ref_deps exNode exTx 0 1 (zeros 32) = Ok m"
    using exNode_derives by blast
  moreover have "GetRawMempool exNode = Ok [replicate 32 5]"
    "GetRawTransactionVerbose exNode (replicate 32 5) = Ok exTx" by (simp_all add: exNode_def)
  ultimately show ?thesis
    by (intro that [OF _ m]) (simp add: GetNewTxs_def NewBchScanner_def Let_def isKnownTx_def)
qed

lemma exNode_blocks:
  assumes new: "\<not> isTxMined (raw_Txid exTx)"
  obtains m b where
    "GetNewTxs ref_deps exPick exNode isTxMined height hash True (NewBchScanner 1) = Ok ([m], b)"
    "bs_LatestScanBlockHeight b = 1" "bs_MaxTxsInBlock b = 1"
    "collectMainChainBlockTxs ref_deps exNode isTxMined height hash 0 (NewBchScanner 1) = Ok ([m], 1, b)"
    "convertUtxoInfoToTx ref_deps exNode exTx 0 height hash = Ok m"
proof -
  obtain m where m: "convertUtxoInfoToTx ref_deps exNode exTx 0 height hash = Ok m"
    using exNode_derives by blast
  let ?b = "SetLatestScanHeight 1 (NewBchScanner 1)"
  have f: "fetchBlock exNode 1 = Ok [exTx]" and n: "GetBlockCount exNode = Ok 1"
    by (simp_all add: fetchBlock_def exNode_def)
  have c: "collectMainChainBlockTxs ref_deps exNode isTxMined height hash 0 (NewBchScanner 1) = Ok ([m], 1, ?b)"
    by (simp add: collectMainChainBlockTxs_def heightLoop.simps f m n Let_def NewBchScanner_def isKnownTx_def
        SetLatestScanHeight_def new)
  show ?thesis
    by (rule that [OF _ _ _ c m]) (simp_all add: GetNewTxs_def c)
qed

section \<open>Properties\<close>

text \<open>
  C9: Scanning blocks misses nothing.  \<open>collectMainChainBlockTxs\<close> returns the derivable
  transactions of all main chain blocks from the one after the last scanned to some height \<open>hi\<close>,
  in the order of the chain, without those known or already in the store, and records \<open>hi\<close> as
  scanned.  It stops before the newest block only when the configured number is reached, and the
  number is exceeded only by the transactions of the last block scanned.
\<close>

theorem collectMainChainBlockTxs_complete:
  assumes "collectMainChainBlockTxs D C isTxMined height hash 0 b = Ok (txs, txIndex, b')"
  shows "\<exists>newest hi. GetBlockCount C = Ok newest \<and> b' = SetLatestScanHeight hi b \<and>
    bs_LatestScanBlockHeight b \<le> hi \<and> (hi \<le> newest \<or> hi = bs_LatestScanBlockHeight b) \<and>
    txs = derive D C (skipTx b isTxMined) height hash 0 (chainTxs C (bs_LatestScanBlockHeight b + 1) hi) \<and>
    txIndex = int (length txs) \<and>
    (hi < newest \<longrightarrow> bs_MaxTxsInBlock b \<le> int (length txs)) \<and>
    (\<forall>k. bs_LatestScanBlockHeight b < k \<and> k < hi \<longrightarrow>
       int (length (derive D C (skipTx b isTxMined) height hash 0
         (chainTxs C (bs_LatestScanBlockHeight b + 1) k))) < bs_MaxTxsInBlock b)"
  using assms by (rule collect_closed) blast

theorem collectMainChainBlockTxs_complete_witness:
  "\<exists>m b. collectMainChainBlockTxs ref_deps exNode (\<lambda>_. False) 1 (zeros 32) 0 (NewBchScanner 1) = Ok ([m], 1, b) \<and>
     [m] = derive ref_deps exNode (skipTx (NewBchScanner 1) (\<lambda>_. False)) 1 (zeros 32) 0 (chainTxs exNode 1 1)"
proof (rule exNode_blocks [of "\<lambda>_. False" 1 "zeros 32"])
  show "\<not> False" by simp
  fix m b
  assume c: "collectMainChainBlockTxs ref_deps exNode (\<lambda>_. False) 1 (zeros 32) 0 (NewBchScanner 1) = Ok ([m], 1, b)"
    and l: "bs_LatestScanBlockHeight b = 1"
  from collectMainChainBlockTxs_complete [OF c] c l show ?thesis by auto
qed

text \<open>
  C10: What a round delivers.  If the mempool lists each transaction once and the cache has room
  for its entries, \<open>GetNewTxs\<close> returns the transactions of the newly scanned blocks followed by
  the derivable mempool transactions that are neither known nor mined, in the node's order, cut
  off at the configured number.
\<close>

theorem GetNewTxs_collects:
  assumes g: "GetNewTxs D pick C isTxMined height hash scanBlock b = Ok (txs, b')"
    and hs: "hs = ok_or [] (GetRawMempool C)"
    and mp: "distinct (map (d_HashString D) hs)" "cacheRoom (length hs) b"
  shows "\<exists>blk. blk = derive D C (skipTx b isTxMined) height hash 0
        (chainTxs C (bs_LatestScanBlockHeight b + 1) (bs_LatestScanBlockHeight b')) \<and>
    (scanBlock \<or> blk = []) \<and>
    txs = blk @ take (nat (bs_MaxTxsInBlock b - int (length blk)))
      (List.map_filter (mempoolTx D C isTxMined (int (length blk)) height hash b) hs)"
  using g
proof (rule GetNewTxs_parts)
  fix blk b1
  assume b1: "b1 = SetLatestScanHeight (bs_LatestScanBlockHeight b1) b"
    and blk: "blk = derive D C (skipTx b isTxMined) height hash 0
       (chainTxs C (bs_LatestScanBlockHeight b + 1) (bs_LatestScanBlockHeight b1))"
    and sc: "scanBlock \<or> b1 = b"
    and r: "bs_MaxTxsInBlock b \<le> int (length blk) \<and> txs = blk \<and> b' = b1 \<or>
     int (length blk) < bs_MaxTxsInBlock b \<and>
       (\<exists>hs. GetRawMempool C = Ok hs \<and>
         mempoolLoop D pick C isTxMined (int (length blk)) height hash hs (blk, b1) = Ok (txs, b'))"
  have known: "isKnownTx x b1 = isKnownTx x b" "bs_MaxTxsInBlock b1 = bs_MaxTxsInBlock b"
    "cacheRoom n b1 = cacheRoom n b" for x n
    by (subst b1, simp add: isKnownTx_def cacheRoom_def)+
  then have same: "mempoolTx D C isTxMined i height hash b1 = mempoolTx D C isTxMined i height hash b" for i
    by (intro ext) (simp add: mempoolTx_def)
  have empty: "scanBlock \<or> blk = []" using sc blk by auto
  from r show ?thesis
  proof (elim disjE conjE exE)
    assume "bs_MaxTxsInBlock b \<le> int (length blk)" "txs = blk" "b' = b1"
    with blk empty show ?thesis by simp
  next
    fix hs'
    assume "int (length blk) < bs_MaxTxsInBlock b" and m: "GetRawMempool C = Ok hs'"
      and l: "mempoolLoop D pick C isTxMined (int (length blk)) height hash hs' (blk, b1) = Ok (txs, b')"
    with mempoolLoop_closed [OF l] mempoolLoop_frame [OF l] mp blk empty known same hs
    show ?thesis by (simp add: ok_or_def)
  qed
qed

theorem GetNewTxs_collects_witness:
  "\<exists>m b. GetNewTxs ref_deps exPick exNode (\<lambda>_. False) 1 (zeros 32) False (NewBchScanner 2) = Ok ([m], b) \<and>
    [m] = take 2 (List.map_filter
      (mempoolTx ref_deps exNode (\<lambda>_. False) 0 1 (zeros 32) (NewBchScanner 2)) [replicate 32 5])"
proof (rule exNode_mempool)
  fix m b
  assume g: "GetNewTxs ref_deps exPick exNode (\<lambda>_. False) 1 (zeros 32) False (NewBchScanner 2) = Ok ([m], b)"
  have hs: "[replicate 32 5] = ok_or [] (GetRawMempool exNode)" by (simp add: exNode_def ok_or_def)
  have mp: "distinct (map (d_HashString ref_deps) [replicate 32 5])"
    "cacheRoom (length [replicate 32 (5::byte)]) (NewBchScanner 2)"
    by (simp_all add: cacheRoom_def NewBchScanner_def)
  obtain blk where "False \<or> blk = []"
    "[m] = blk @ take (nat (bs_MaxTxsInBlock (NewBchScanner 2) - int (length blk)))
      (List.map_filter (mempoolTx ref_deps exNode (\<lambda>_. False) (int (length blk)) 1 (zeros 32) (NewBchScanner 2))
        [replicate 32 5])"
    using GetNewTxs_collects [OF g hs mp] by blast
  then have "[m] = take 2 (List.map_filter
      (mempoolTx ref_deps exNode (\<lambda>_. False) 0 1 (zeros 32) (NewBchScanner 2)) [replicate 32 5])" by simp
  with g show ?thesis by blast
qed

text \<open>
  The scanner alone, without the store: if the mempool lists each transaction once, the cache has room
  for its entries, so that nothing is evicted, and a round without block scan was not cut off, the next
  one on the same mempool delivers nothing and changes nothing.
\<close>

lemma GetNewTxs_rescan_idle:
  assumes g: "GetNewTxs D pick C isTxMined height hash False b = Ok (txs, b')"
    and hs: "GetRawMempool C = Ok hs" "distinct (map (d_HashString D) hs)" "cacheRoom (length hs) b"
    and notfull: "int (length txs) < bs_MaxTxsInBlock b"
  shows "GetNewTxs D pick C isTxMined height' hash' False b' = Ok ([], b')"
proof -
  have l: "mempoolLoop D pick C isTxMined 0 height hash hs ([], b) = Ok (txs, b')"
    using g hs(1) notfull by (simp add: GetNewTxs_def split: if_splits)
  have "0 < bs_MaxTxsInBlock b" using notfull by simp
  with mempoolLoop_closed [OF l hs(2,3)] notfull
  have "list_all (settled D C isTxMined b') hs" by simp
  with mempoolLoop_settled have "mempoolLoop D pick C isTxMined 0 height' hash' hs ([], b') = Ok ([], b')" by blast
  then show ?thesis using mempoolLoop_frame [OF l] notfull hs(1) by (simp add: GetNewTxs_def)
qed

text \<open>
  C29: The cache of known transactions is bounded: whatever the node answers, a round keeps it at
  no more than \<open>MaxCacheSize + 1\<close> entries.
\<close>

theorem GetNewTxs_cache_bounded:
  assumes g: "GetNewTxs D pick C isTxMined height hash scanBlock b = Ok (txs, b')"
    and pick: "\<And>s. s \<noteq> {} \<Longrightarrow> pick s \<in> s" and b: "cacheOk b"
  shows "cacheOk b'"
  using g
proof (rule GetNewTxs_parts)
  fix blk b1
  assume b1: "b1 = SetLatestScanHeight (bs_LatestScanBlockHeight b1) b"
    and r: "bs_MaxTxsInBlock b \<le> int (length blk) \<and> txs = blk \<and> b' = b1 \<or>
     int (length blk) < bs_MaxTxsInBlock b \<and>
       (\<exists>hs. GetRawMempool C = Ok hs \<and>
         mempoolLoop D pick C isTxMined (int (length blk)) height hash hs (blk, b1) = Ok (txs, b'))"
  have "cacheOk b1" using b by (subst b1) (simp add: cacheOk_def)
  with r mempoolLoop_cacheOk [OF pick] show ?thesis by blast
qed

theorem GetNewTxs_cache_bounded_witness:
  "\<exists>m b. GetNewTxs ref_deps exPick exNode (\<lambda>_. False) 1 (zeros 32) False (NewBchScanner 2) = Ok ([m], b) \<and> cacheOk b"
proof (rule exNode_mempool)
  fix m b
  assume g: "GetNewTxs ref_deps exPick exNode (\<lambda>_. False) 1 (zeros 32) False (NewBchScanner 2) = Ok ([m], b)"
  have "cacheOk (NewBchScanner 2)" by (simp add: cacheOk_def)
  from GetNewTxs_cache_bounded [OF g exPick this] g show ?thesis by blast
qed

text \<open>
  The numbering of a virtual block.  Each delivered transaction's stored content decodes to a
  transaction with the same hash, of the given block; the transactions of main chain blocks are
  numbered from 0, while those of the mempool all get the index after the last of these.
\<close>

lemma GetNewTxs_indexes:
  assumes lib: "codec_lib D"
    and g: "GetNewTxs D pick C isTxMined height hash scanBlock b = Ok (txs, b')"
  shows "\<exists>n. (scanBlock \<or> n = 0) \<and> (\<forall>k < length txs. storedAs D height hash (min (int k) n) (txs ! k))"
  using g
proof (rule GetNewTxs_parts)
  fix blk b1
  assume blk: "blk = derive D C (skipTx b isTxMined) height hash 0
       (chainTxs C (bs_LatestScanBlockHeight b + 1) (bs_LatestScanBlockHeight b1))"
    and sc: "scanBlock \<or> b1 = b"
    and r: "bs_MaxTxsInBlock b \<le> int (length blk) \<and> txs = blk \<and> b' = b1 \<or>
     int (length blk) < bs_MaxTxsInBlock b \<and>
       (\<exists>hs. GetRawMempool C = Ok hs \<and>
         mempoolLoop D pick C isTxMined (int (length blk)) height hash hs (blk, b1) = Ok (txs, b'))"
  obtain new where txs: "txs = blk @ new"
    and new: "\<forall>m \<in> set new. \<exists>tx. convertUtxoInfoToTx D C tx (int (length blk)) height hash = Ok m"
    using r mempoolLoop_sound by (metis append_Nil2 empty_iff empty_set)
  have "storedAs D height hash (min (int k) (int (length blk))) (txs ! k)" if "k < length txs" for k
  proof (cases "k < length blk")
    case True
    then show ?thesis using derive_storedAs [OF lib, of k C "skipTx b isTxMined" height hash 0] blk
      by (simp add: txs nth_append min_def)
  next
    case False
    then have "txs ! k \<in> set new" using that by (simp add: txs nth_append)
    with new False convert_storedAs [OF lib] show ?thesis by (fastforce simp: min_def)
  qed
  moreover have "scanBlock \<or> int (length blk) = 0" using sc blk by auto
  ultimately show ?thesis by blast
qed

text \<open>
  A block holds at most the configured number of transactions, unless the main chain blocks
  scanned for it alone hold more.
\<close>

lemma GetNewTxs_bounded:
  assumes g: "GetNewTxs D pick C isTxMined height hash scanBlock b = Ok (txs, b')"
  shows "int (length txs) \<le> max (bs_MaxTxsInBlock b)
    (int (length (derive D C (skipTx b isTxMined) height hash 0
       (chainTxs C (bs_LatestScanBlockHeight b + 1) (bs_LatestScanBlockHeight b')))))"
  using g
proof (rule GetNewTxs_parts)
  fix blk b1
  assume b1: "b1 = SetLatestScanHeight (bs_LatestScanBlockHeight b1) b"
    and blk: "blk = derive D C (skipTx b isTxMined) height hash 0
       (chainTxs C (bs_LatestScanBlockHeight b + 1) (bs_LatestScanBlockHeight b1))"
    and r: "bs_MaxTxsInBlock b \<le> int (length blk) \<and> txs = blk \<and> b' = b1 \<or>
     int (length blk) < bs_MaxTxsInBlock b \<and>
       (\<exists>hs. GetRawMempool C = Ok hs \<and>
         mempoolLoop D pick C isTxMined (int (length blk)) height hash hs (blk, b1) = Ok (txs, b'))"
  have "bs_MaxTxsInBlock b1 = bs_MaxTxsInBlock b" by (subst b1) simp
  with r blk mempoolLoop_bound show ?thesis by (fastforce simp: max_def)
qed

text \<open>
  Confirmations of a stored transaction.  For a node transaction with hash \<open>h\<close>, the store
  keeps the bytes of its printed id; reversed, they are the hash \<open>GetConfirmations\<close> asks the node
  for, and the answer is the node's count as an \<open>int32\<close>, or -1 when the node does not know the
  transaction.
\<close>

lemma GetConfirmations_of_stored:
  assumes "txid_lib D" and "length h = 32"
  shows "GetConfirmations D C (rev (d_HexToHash D (d_HashString D h))) =
    (case GetRawTransactionVerbose C h of
       Ok res \<Rightarrow> Ok (as_i32 (raw_Confirmations res))
     | Err e \<Rightarrow> Ok (- 1)
     | Panic e \<Rightarrow> Panic e)"
  using txid_lib.node_hash_of_stored [OF assms] by (simp add: GetConfirmations_def split: outcome.split)

end
