(* ===== verification/Store.thy ===== *)
theory Store
  imports Log_Filter
begin

text \<open>
  store/store.go: \<open>ChainLogDB\<close>, the store of the virtual chain on top of the database.  The
  interface \<open>IStore\<close> is a record of functions on a store state \<open>'db\<close>, its contract the locale
  \<open>istore\<close>; \<open>ChainLogDB\<close> implements the interface for any database that satisfies \<open>modb_lib\<close> and
  any codec that satisfies \<open>codec_lib\<close>.  The time \<open>now\<close> is an argument.
\<close>

record 'db IStore =
  st_AddBlock :: "ModbBlock option \<Rightarrow> 'db \<Rightarrow> 'db"
  st_IsTxMined :: "string \<Rightarrow> 'db \<Rightarrow> bool outcome"
  st_GetLatestBlockInfo :: "int \<Rightarrow> 'db \<Rightarrow> (int \<times> int \<times> bytes \<times> int) outcome"
  st_GetBlockByHeight :: "int \<Rightarrow> 'db \<Rightarrow> EvmBlock outcome"
  st_GetBlockByHash :: "bytes \<Rightarrow> 'db \<Rightarrow> EvmBlock outcome"
  st_GetTxByHash :: "bytes \<Rightarrow> 'db \<Rightarrow> (EvmTx \<times> bytes) outcome"
  st_GetTxListByHeightWithRange :: "int \<Rightarrow> int \<Rightarrow> int \<Rightarrow> 'db \<Rightarrow> (EvmTx list \<times> bytes list) outcome"
  st_QueryLogs ::
    "bytes list \<Rightarrow> bytes list list \<Rightarrow> int \<Rightarrow> int \<Rightarrow>
     (bytes \<Rightarrow> bytes list \<Rightarrow> bytes list \<Rightarrow> bytes list list \<Rightarrow> bool) \<Rightarrow> 'db \<Rightarrow>
     (EvmLog list \<times> goerr option) outcome"

section \<open>The operations of ChainLogDB\<close>

definition GetBlockByHeight :: "deps \<Rightarrow> 'db modb \<Rightarrow> int \<Rightarrow> 'db \<Rightarrow> EvmBlock outcome" where
  "GetBlockByHeight D M height db =
     (let bz = modb_GetBlockByHeight M (as_i64 height) db in
      if length bz = 0 then Err ErrBlockNotFound
      else case d_UnmarshalBlock D bz of
             Err e \<Rightarrow> Err e
           | Panic e \<Rightarrow> Panic e
           | Ok blk \<Rightarrow> Ok blk)"

text \<open>The callback of \<open>GetBlockByHash\<close>, on the candidates until it accepts one.\<close>

fun blockCandidates :: "deps \<Rightarrow> bytes \<Rightarrow> bytes list \<Rightarrow> EvmBlock option outcome" where
  "blockCandidates D blkHash [] = Ok None"
| "blockCandidates D blkHash (bz # bzs) =
     (case d_UnmarshalBlock D bz of
        Ok tmp \<Rightarrow> if blkHash = eblk_Hash tmp then Ok (Some tmp) else blockCandidates D blkHash bzs
      | Err e \<Rightarrow> blockCandidates D blkHash bzs
      | Panic e \<Rightarrow> Panic e)"

definition GetBlockByHash :: "deps \<Rightarrow> 'db modb \<Rightarrow> bytes \<Rightarrow> 'db \<Rightarrow> EvmBlock outcome" where
  "GetBlockByHash D M blkHash db =
     (case blockCandidates D blkHash (modb_GetBlockByHash M blkHash db) of
        Ok None \<Rightarrow> Err ErrBlockNotFound
      | Ok (Some blk) \<Rightarrow> Ok blk
      | Err e \<Rightarrow> Err e
      | Panic e \<Rightarrow> Panic e)"

text \<open>The callback of \<open>GetTxByHash\<close>; a candidate too short for a signature panics.\<close>

fun txCandidates :: "deps \<Rightarrow> bytes \<Rightarrow> bytes list \<Rightarrow> (EvmTx \<times> bytes) option outcome" where
  "txCandidates D txHash [] = Ok None"
| "txCandidates D txHash (b # bs) =
     (if length b < 65 then Panic IndexOutOfRange
      else case d_UnmarshalTx D (drop 65 b) of
             Ok tmp \<Rightarrow>
               if etx_Hash tmp = txHash then Ok (Some (tmp, take 65 b)) else txCandidates D txHash bs
           | Err e \<Rightarrow> txCandidates D txHash bs
           | Panic e \<Rightarrow> Panic e)"

definition GetTxByHash :: "deps \<Rightarrow> 'db modb \<Rightarrow> bytes \<Rightarrow> 'db \<Rightarrow> (EvmTx \<times> bytes) outcome" where
  "GetTxByHash D M txHash db =
     (case txCandidates D txHash (modb_GetTxByHash M txHash db) of
        Ok None \<Rightarrow> Err (ErrorString ''tx not found'')
      | Ok (Some r) \<Rightarrow> Ok r
      | Err e \<Rightarrow> Err e
      | Panic e \<Rightarrow> Panic e)"

text \<open>
  The loop of \<open>GetTxListByHeightWithRange\<close>.  On a content that does not decode, Go returns the
  error together with what was decoded so far; callers look at the error first.
\<close>

fun txListLoop :: "deps \<Rightarrow> bytes list \<Rightarrow> EvmTx list \<times> bytes list \<Rightarrow> (EvmTx list \<times> bytes list) outcome" where
  "txListLoop D [] acc = Ok acc"
| "txListLoop D (txContent # rest) (txs, sigs) =
     (if length txContent < 65 then Panic IndexOutOfRange
      else case d_UnmarshalTx D (drop 65 txContent) of
             Ok tx \<Rightarrow> txListLoop D rest (txs @ [tx], sigs @ [take 65 txContent])
           | Err e \<Rightarrow> Err e
           | Panic e \<Rightarrow> Panic e)"

definition GetTxListByHeightWithRange ::
  "deps \<Rightarrow> 'db modb \<Rightarrow> int \<Rightarrow> int \<Rightarrow> int \<Rightarrow> 'db \<Rightarrow> (EvmTx list \<times> bytes list) outcome" where
  "GetTxListByHeightWithRange D M height start end' db =
     txListLoop D (modb_GetTxListByHeightWithRange M (as_i64 height) start end' db) ([], [])"

text \<open>The loop over the logs of one transaction in the callback of \<open>QueryLogs\<close>.\<close>

fun txLogsLoop ::
  "(bytes \<Rightarrow> bytes list \<Rightarrow> bytes list \<Rightarrow> bytes list list \<Rightarrow> bool) \<Rightarrow> bytes list \<Rightarrow> bytes list list \<Rightarrow>
   EvmLog list \<Rightarrow> EvmLog list \<Rightarrow> EvmLog list outcome" where
  "txLogsLoop flt addresses topics [] logs = Ok logs"
| "txLogsLoop flt addresses topics (l # ls) logs =
     (if 4 < length (log_Topics l) then Panic IndexOutOfRange
      else if flt (log_Address l) (log_Topics l) addresses topics
      then txLogsLoop flt addresses topics ls (logs @ [l])
      else txLogsLoop flt addresses topics ls logs)"

text \<open>
  The callback of \<open>QueryLogs\<close> on the items the database offers; nil tells that there are too
  many.  It stops at the first item it cannot use and then leaves an error in the variable
  \<open>err\<close> of the enclosing function, the second component.
\<close>

fun queryLoop ::
  "deps \<Rightarrow> (bytes \<Rightarrow> bytes list \<Rightarrow> bytes list \<Rightarrow> bytes list list \<Rightarrow> bool) \<Rightarrow> bytes list \<Rightarrow> bytes list list \<Rightarrow>
   bytes option list \<Rightarrow> EvmLog list \<Rightarrow> (EvmLog list \<times> goerr option) outcome" where
  "queryLoop D flt addresses topics [] logs = Ok (logs, None)"
| "queryLoop D flt addresses topics (None # items) logs = Ok (logs, Some (ErrorString ''too many entities''))"
| "queryLoop D flt addresses topics (Some data # items) logs =
     (if length data < 65 then Panic IndexOutOfRange
      else case d_UnmarshalTx D (drop 65 data) of
             Err e \<Rightarrow> Ok (logs, Some e)
           | Panic e \<Rightarrow> Panic e
           | Ok tx \<Rightarrow>
             (case txLogsLoop flt addresses topics (etx_Logs tx) logs of
                Ok logs' \<Rightarrow> queryLoop D flt addresses topics items logs'
              | Err e \<Rightarrow> Err e
              | Panic e \<Rightarrow> Panic e))"

text \<open>The result of \<open>modb.QueryLogs\<close> is assigned to \<open>err\<close> last.\<close>

definition QueryLogs ::
  "deps \<Rightarrow> 'db modb \<Rightarrow> bytes list \<Rightarrow> bytes list list \<Rightarrow> int \<Rightarrow> int \<Rightarrow>
   (bytes \<Rightarrow> bytes list \<Rightarrow> bytes list \<Rightarrow> bytes list list \<Rightarrow> bool) \<Rightarrow> 'db \<Rightarrow>
   (EvmLog list \<times> goerr option) outcome" where
  "QueryLogs D M addresses topics startHeight endHeight flt db =
     (let (items, modbErr) = modb_QueryLogs M addresses topics startHeight endHeight db in
      case queryLoop D flt addresses topics items [] of
        Err e \<Rightarrow> Err e
      | Panic e \<Rightarrow> Panic e
      | Ok (logs, err) \<Rightarrow> (let err = modbErr in Ok (logs, err)))"

definition IsTxMined :: "deps \<Rightarrow> 'db modb \<Rightarrow> string \<Rightarrow> 'db \<Rightarrow> bool outcome" where
  "IsTxMined D M txHash db =
     (case GetTxByHash D M (d_HexToHash D txHash) db of
        Ok _ \<Rightarrow> Ok True
      | Err e \<Rightarrow> Ok False
      | Panic e \<Rightarrow> Panic e)"

definition AddBlock :: "'db modb \<Rightarrow> ModbBlock option \<Rightarrow> 'db \<Rightarrow> 'db" where
  "AddBlock M blk db = modb_AddBlock M blk db"

definition GetLatestBlockInfo ::
  "deps \<Rightarrow> 'db modb \<Rightarrow> int \<Rightarrow> 'db \<Rightarrow> (int \<times> int \<times> bytes \<times> int) outcome" where
  "GetLatestBlockInfo D M now db =
     (let height = modb_GetLatestHeight M db;
          bz = modb_GetBlockByHeight M height db
      in if length bz = 0 then Ok (0, now, zeros 32, 0)
         else case d_UnmarshalBlock D bz of
                Err e \<Rightarrow> Panic e
              | Panic e \<Rightarrow> Panic e
              | Ok blk \<Rightarrow> Ok (height, eblk_Timestamp blk, eblk_Hash blk, as_i64 (eblk_GasUsed blk)))"

definition ChainLogDB :: "deps \<Rightarrow> 'db modb \<Rightarrow> 'db IStore" where
  "ChainLogDB D M =
     \<lparr>st_AddBlock = AddBlock M,
      st_IsTxMined = IsTxMined D M,
      st_GetLatestBlockInfo = GetLatestBlockInfo D M,
      st_GetBlockByHeight = GetBlockByHeight D M,
      st_GetBlockByHash = GetBlockByHash D M,
      st_GetTxByHash = GetTxByHash D M,
      st_GetTxListByHeightWithRange = GetTxListByHeightWithRange D M,
      st_QueryLogs = QueryLogs D M\<rparr>"

section \<open>What can be stored\<close>

text \<open>
  The encoded transaction of a database transaction has the same hash and the same logs, each
  with at most four topics; the encoded block has the same height and hash.
\<close>

definition storableTx :: "deps \<Rightarrow> ModbTx \<Rightarrow> bool" where
  "storableTx D t =
     (case d_UnmarshalTx D (mtx_Content t) of
        Ok e \<Rightarrow> etx_Hash e = mtx_HashId t \<and>
          map (\<lambda>l. \<lparr>mlog_Address = log_Address l, mlog_Topics = log_Topics l\<rparr>) (etx_Logs e) = mtx_LogList t \<and>
          list_all (\<lambda>l. length (log_Topics l) \<le> 4) (etx_Logs e)
      | _ \<Rightarrow> False)"

definition storable :: "deps \<Rightarrow> ModbBlock \<Rightarrow> bool" where
  "storable D b \<longleftrightarrow>
     mblk_BlockInfo b \<noteq> [] \<and>
     (case d_UnmarshalBlock D (mblk_BlockInfo b) of
        Ok e \<Rightarrow> eblk_Number e = mblk_Height b \<and> eblk_Hash e = mblk_BlockHash b
      | _ \<Rightarrow> False) \<and>
     list_all (storableTx D) (mblk_TxList b)"

definition decodedTx :: "deps \<Rightarrow> ModbTx \<Rightarrow> EvmTx" where
  "decodedTx D t = (case d_UnmarshalTx D (mtx_Content t) of Ok e \<Rightarrow> e | _ \<Rightarrow> undefined)"

definition decodedBlock :: "deps \<Rightarrow> ModbBlock \<Rightarrow> EvmBlock" where
  "decodedBlock D b = (case d_UnmarshalBlock D (mblk_BlockInfo b) of Ok e \<Rightarrow> e | _ \<Rightarrow> undefined)"

lemma storableTx_decoded:
  "storableTx D t \<Longrightarrow> d_UnmarshalTx D (mtx_Content t) = Ok (decodedTx D t) \<and>
     etx_Hash (decodedTx D t) = mtx_HashId t \<and>
     map (\<lambda>l. \<lparr>mlog_Address = log_Address l, mlog_Topics = log_Topics l\<rparr>) (etx_Logs (decodedTx D t)) = mtx_LogList t \<and>
     list_all (\<lambda>l. length (log_Topics l) \<le> 4) (etx_Logs (decodedTx D t))"
  by (auto simp: storableTx_def decodedTx_def split: outcome.splits)

lemma storable_decoded:
  "storable D b \<Longrightarrow> d_UnmarshalBlock D (mblk_BlockInfo b) = Ok (decodedBlock D b) \<and> mblk_BlockInfo b \<noteq> [] \<and>
     eblk_Number (decodedBlock D b) = mblk_Height b \<and> eblk_Hash (decodedBlock D b) = mblk_BlockHash b"
  by (auto simp: storable_def decodedBlock_def split: outcome.splits)

lemma storable_txs: "list_all (storable D) bs \<Longrightarrow> t \<in> set (allTxs bs) \<Longrightarrow> storableTx D t"
  by (auto simp: allTxs_def storable_def list_all_iff)

lemma drop_sigContent [simp]: "drop 65 (sigContent t) = mtx_Content t" "take 65 (sigContent t) = zeros 65"
  "\<not> length (sigContent t) < 65"
  by (simp_all add: sigContent_def)

section \<open>The callbacks on well-formed data\<close>

lemma list_of_images: "set xs \<subseteq> f ` A \<Longrightarrow> \<exists>ys. xs = map f ys \<and> set ys \<subseteq> A"
proof (induction xs)
  case (Cons x xs)
  then obtain ys y where "xs = map f ys" "set ys \<subseteq> A" "y \<in> A" "x = f y" by auto
  then show ?case by (intro exI [of _ "y # ys"]) simp
qed simp

lemma find_exists: "x \<in> set xs \<Longrightarrow> P x \<Longrightarrow> \<exists>y. find P xs = Some y"
  by (induction xs) auto

lemma blockCandidates_find:
  "list_all (storable D) bs \<Longrightarrow>
   blockCandidates D k (map mblk_BlockInfo bs) = Ok (map_option (decodedBlock D) (find (\<lambda>b. mblk_BlockHash b = k) bs))"
  by (induction bs) (auto dest: storable_decoded)

lemma txCandidates_find:
  "list_all (storableTx D) ts \<Longrightarrow>
   txCandidates D k (map sigContent ts) =
     Ok (map_option (\<lambda>t. (decodedTx D t, zeros 65)) (find (\<lambda>t. mtx_HashId t = k) ts))"
  by (induction ts) (auto dest: storableTx_decoded)

lemma txListLoop_map:
  "list_all (storableTx D) ts \<Longrightarrow>
   txListLoop D (map sigContent ts) (txs, sigs) =
     Ok (txs @ map (decodedTx D) ts, sigs @ replicate (length ts) (zeros 65))"
  by (induction ts arbitrary: txs sigs) (auto dest: storableTx_decoded)

lemma txLogsLoop_filter:
  "list_all (\<lambda>l. length (log_Topics l) \<le> 4) ls \<Longrightarrow>
   txLogsLoop flt as tops ls logs = Ok (logs @ filter (\<lambda>l. flt (log_Address l) (log_Topics l) as tops) ls)"
  by (induction ls arbitrary: logs) auto

lemma queryLoop_filter:
  "list_all (storableTx D) ts \<Longrightarrow>
   queryLoop D flt as tops (map (\<lambda>t. Some (sigContent t)) ts @ rest) logs =
     queryLoop D flt as tops rest
       (logs @ concat (map (\<lambda>t. filter (\<lambda>l. flt (log_Address l) (log_Topics l) as tops) (etx_Logs (decodedTx D t))) ts))"
  by (induction ts arbitrary: logs) (auto dest: storableTx_decoded simp: txLogsLoop_filter)

lemma queryLoop_all:
  "list_all (storableTx D) ts \<Longrightarrow>
   queryLoop D flt as tops (map (\<lambda>t. Some (sigContent t)) ts) logs =
     Ok (logs @ concat (map (\<lambda>t. filter (\<lambda>l. flt (log_Address l) (log_Topics l) as tops) (etx_Logs (decodedTx D t))) ts), None)"
  using queryLoop_filter [of D ts flt as tops "[]" logs] by simp

section \<open>The contract of the store\<close>

locale istore =
  fixes S :: "'db IStore" and D :: deps and blocks :: "'db \<Rightarrow> ModbBlock list"
  assumes add_block: "blocks (st_AddBlock S (Some b) db) = blocks db @ [b]"
    and add_nil: "blocks (st_AddBlock S None db) = blocks db"
    and mined: "list_all (storable D) (blocks db) \<Longrightarrow>
      st_IsTxMined S txid db = Ok (d_HexToHash D txid \<in> mtx_HashId ` set (allTxs (blocks db)))"
    and latest_none: "blocks db = [] \<Longrightarrow> st_GetLatestBlockInfo S now db = Ok (0, now, zeros 32, 0)"
    and latest: "list_all (storable D) (blocks db) \<Longrightarrow> blocks db \<noteq> [] \<Longrightarrow>
      st_GetLatestBlockInfo S now db =
        Ok (mblk_Height (last (blocks db)), eblk_Timestamp (decodedBlock D (last (blocks db))),
            mblk_BlockHash (last (blocks db)), as_i64 (eblk_GasUsed (decodedBlock D (last (blocks db)))))"
    and by_height: "list_all (storable D) (blocks db) \<Longrightarrow>
      st_GetBlockByHeight S h db =
        (case blockAt (as_i64 h) (blocks db) of None \<Rightarrow> Err ErrBlockNotFound | Some b \<Rightarrow> Ok (decodedBlock D b))"
    and by_hash: "list_all (storable D) (blocks db) \<Longrightarrow> b \<in> set (blocks db) \<Longrightarrow>
      \<exists>b' \<in> set (blocks db). mblk_BlockHash b' = mblk_BlockHash b \<and>
        st_GetBlockByHash S (mblk_BlockHash b) db = Ok (decodedBlock D b')"
    and by_hash_none: "list_all (storable D) (blocks db) \<Longrightarrow> k \<notin> mblk_BlockHash ` set (blocks db) \<Longrightarrow>
      st_GetBlockByHash S k db = Err ErrBlockNotFound"
    and tx_by_hash: "list_all (storable D) (blocks db) \<Longrightarrow> t \<in> set (allTxs (blocks db)) \<Longrightarrow>
      \<exists>t' \<in> set (allTxs (blocks db)). mtx_HashId t' = mtx_HashId t \<and>
        st_GetTxByHash S (mtx_HashId t) db = Ok (decodedTx D t', zeros 65)"
    and tx_list: "list_all (storable D) (blocks db) \<Longrightarrow>
      st_GetTxListByHeightWithRange S h lo hi db =
        (case blockAt (as_i64 h) (blocks db) of None \<Rightarrow> Ok ([], [])
         | Some b \<Rightarrow> (let ts = slice lo hi (mblk_TxList b)
                      in Ok (map (decodedTx D) ts, replicate (length ts) (zeros 65))))"
    and logs_sound: "list_all (storable D) (blocks db) \<Longrightarrow>
      \<exists>logs err. st_QueryLogs S as tops lo hi filterFunc db = Ok (logs, err) \<and>
        (\<forall>l \<in> set logs. wanted as tops (log_Address l) (log_Topics l) \<and>
           (\<exists>t \<in> set (txsBetween lo hi (blocks db)). l \<in> set (etx_Logs (decodedTx D t))))"
begin

text \<open>Once a block is in the store, its transactions count as mined.\<close>

lemma mined_after_add:
  assumes "list_all (storable D) (blocks db)" and "storable D b" and "t \<in> set (mblk_TxList b)"
    and "d_HexToHash D txid = mtx_HashId t"
  shows "st_IsTxMined S txid (st_AddBlock S (Some b) db) = Ok True"
  using assms by (subst mined) (auto simp: add_block allTxs_def)

lemma latest_after_add:
  assumes "list_all (storable D) (blocks db)" and "storable D b"
  shows "st_GetLatestBlockInfo S now (st_AddBlock S (Some b) db) =
    Ok (mblk_Height b, eblk_Timestamp (decodedBlock D b), mblk_BlockHash b, as_i64 (eblk_GasUsed (decodedBlock D b)))"
  using assms latest [of "st_AddBlock S (Some b) db"] by (simp add: add_block)

end

locale chainlogdb = modb_lib M blocks for M :: "'db modb" and blocks :: "'db \<Rightarrow> ModbBlock list" +
  fixes D :: deps
begin

lemma txsBetween_subset: "set (txsBetween lo hi bs) \<subseteq> set (allTxs bs)"
  by (auto simp: txsBetween_def allTxs_def)

lemma tx_candidates:
  assumes "list_all (storable D) (blocks db)"
  shows "\<exists>ts. modb_GetTxByHash M k db = map sigContent ts \<and> set ts \<subseteq> set (allTxs (blocks db)) \<and>
    list_all (storableTx D) ts"
proof -
  have "set (modb_GetTxByHash M k db) \<subseteq> sigContent ` set (allTxs (blocks db))" using tx_by_hash_sound by blast
  from list_of_images [OF this] obtain ts
    where "modb_GetTxByHash M k db = map sigContent ts" "set ts \<subseteq> set (allTxs (blocks db))" by blast
  with storable_txs [OF assms] show ?thesis by (auto simp: list_all_iff)
qed

lemma GetTxByHash_found:
  assumes all: "list_all (storable D) (blocks db)" and t: "t \<in> set (allTxs (blocks db))"
  shows "\<exists>t' \<in> set (allTxs (blocks db)). mtx_HashId t' = mtx_HashId t \<and>
    GetTxByHash D M (mtx_HashId t) db = Ok (decodedTx D t', zeros 65)"
proof -
  obtain ts where ts: "modb_GetTxByHash M (mtx_HashId t) db = map sigContent ts"
    "set ts \<subseteq> set (allTxs (blocks db))" "list_all (storableTx D) ts" using tx_candidates [OF all] by blast
  then obtain u where u: "u \<in> set ts" "sigContent u = sigContent t"
    using tx_by_hash_complete [OF t] by auto
  then have "mtx_Content u = mtx_Content t" by (metis drop_sigContent(1))
  moreover have "storableTx D u" "storableTx D t" using u ts storable_txs [OF all t] by (auto simp: list_all_iff)
  ultimately have "mtx_HashId u = mtx_HashId t" by (auto simp: storableTx_def split: outcome.splits)
  with find_exists [OF u(1), of "\<lambda>x. mtx_HashId x = mtx_HashId t"] obtain v
    where v: "find (\<lambda>x. mtx_HashId x = mtx_HashId t) ts = Some v" by blast
  then have "v \<in> set ts" "mtx_HashId v = mtx_HashId t" by (auto simp: find_Some_iff)
  with v ts show ?thesis by (auto simp: GetTxByHash_def txCandidates_find)
qed

lemma GetTxByHash_not_found:
  assumes all: "list_all (storable D) (blocks db)" and k: "k \<notin> mtx_HashId ` set (allTxs (blocks db))"
  shows "GetTxByHash D M k db = Err (ErrorString ''tx not found'')"
proof -
  obtain ts where ts: "modb_GetTxByHash M k db = map sigContent ts"
    "set ts \<subseteq> set (allTxs (blocks db))" "list_all (storableTx D) ts" using tx_candidates [OF all] by blast
  with k have "find (\<lambda>t. mtx_HashId t = k) ts = None" by (auto simp: find_None_iff)
  with ts show ?thesis by (simp add: GetTxByHash_def txCandidates_find)
qed

lemma GetBlockByHash_cases:
  assumes all: "list_all (storable D) (blocks db)"
  shows "b \<in> set (blocks db) \<Longrightarrow> \<exists>b' \<in> set (blocks db). mblk_BlockHash b' = mblk_BlockHash b \<and>
      GetBlockByHash D M (mblk_BlockHash b) db = Ok (decodedBlock D b')"
    and "k \<notin> mblk_BlockHash ` set (blocks db) \<Longrightarrow> GetBlockByHash D M k db = Err ErrBlockNotFound"
proof -
  have cand: "\<exists>bs. modb_GetBlockByHash M k db = map mblk_BlockInfo bs \<and> set bs \<subseteq> set (blocks db) \<and>
      list_all (storable D) bs" for k
    using list_of_images [of "modb_GetBlockByHash M k db" mblk_BlockInfo "set (blocks db)"]
      block_by_hash_sound all by (auto simp: list_all_iff subset_iff)
  {
    assume b: "b \<in> set (blocks db)"
    obtain bs where bs: "modb_GetBlockByHash M (mblk_BlockHash b) db = map mblk_BlockInfo bs"
      "set bs \<subseteq> set (blocks db)" "list_all (storable D) bs" using cand by blast
    then obtain u where u: "u \<in> set bs" "mblk_BlockInfo u = mblk_BlockInfo b"
      using block_by_hash_complete [OF b] by auto
    moreover have "storable D u" "storable D b" using all b bs(3) u(1) by (auto simp: list_all_iff)
    ultimately have "mblk_BlockHash u = mblk_BlockHash b"
      using storable_decoded [of D u] storable_decoded [of D b] by simp
    with find_exists [OF u(1), of "\<lambda>x. mblk_BlockHash x = mblk_BlockHash b"] obtain v
      where v: "find (\<lambda>x. mblk_BlockHash x = mblk_BlockHash b) bs = Some v" by blast
    then have "v \<in> set bs" "mblk_BlockHash v = mblk_BlockHash b" by (auto simp: find_Some_iff)
    with v bs show "\<exists>b' \<in> set (blocks db). mblk_BlockHash b' = mblk_BlockHash b \<and>
      GetBlockByHash D M (mblk_BlockHash b) db = Ok (decodedBlock D b')"
      by (auto simp: GetBlockByHash_def blockCandidates_find)
  next
    assume k: "k \<notin> mblk_BlockHash ` set (blocks db)"
    obtain bs where bs: "modb_GetBlockByHash M k db = map mblk_BlockInfo bs"
      "set bs \<subseteq> set (blocks db)" "list_all (storable D) bs" using cand by blast
    with k have "find (\<lambda>x. mblk_BlockHash x = k) bs = None" by (auto simp: find_None_iff)
    with bs show "GetBlockByHash D M k db = Err ErrBlockNotFound"
      by (simp add: GetBlockByHash_def blockCandidates_find)
  }
qed

text \<open>The logs of a query, when the database offers transactions and does not give up.\<close>

lemma query_items:
  assumes "list_all (storable D) (blocks db)"
  obtains ts rest where "fst (modb_QueryLogs M as tops lo hi db) = map (\<lambda>t. Some (sigContent t)) ts @ rest"
    "rest = [] \<or> (\<exists>rest'. rest = None # rest')" "set ts \<subseteq> set (txsBetween lo hi (blocks db))"
    "list_all (storableTx D) ts"
proof -
  let ?items = "fst (modb_QueryLogs M as tops lo hi db)"
  let ?xs = "takeWhile (\<lambda>x. x \<noteq> None) ?items"
  have "set ?xs \<subseteq> (\<lambda>t. Some (sigContent t)) ` set (txsBetween lo hi (blocks db))"
  proof
    fix x
    assume "x \<in> set ?xs"
    then obtain bz where "x = Some bz" "x \<in> set ?items" using set_takeWhileD by fastforce
    then show "x \<in> (\<lambda>t. Some (sigContent t)) ` set (txsBetween lo hi (blocks db))" using query_sound by blast
  qed
  from list_of_images [OF this] obtain ts where ts: "?xs = map (\<lambda>t. Some (sigContent t)) ts"
    "set ts \<subseteq> set (txsBetween lo hi (blocks db))" by blast
  have "dropWhile (\<lambda>x. x \<noteq> None) ?items = [] \<or> (\<exists>rest'. dropWhile (\<lambda>x. x \<noteq> None) ?items = None # rest')"
    by (metis (mono_tags, lifting) hd_Cons_tl hd_dropWhile)
  moreover have "list_all (storableTx D) ts"
    using ts(2) txsBetween_subset [of lo hi "blocks db"] storable_txs [OF assms] by (auto simp: list_all_iff)
  ultimately show ?thesis
    using that [of ts "dropWhile (\<lambda>x. x \<noteq> None) ?items"] ts
      takeWhile_dropWhile_id [of "\<lambda>x. x \<noteq> None" ?items] by simp
qed

lemma QueryLogs_sound:
  assumes "list_all (storable D) (blocks db)"
  shows "\<exists>logs err. QueryLogs D M as tops lo hi filterFunc db = Ok (logs, err) \<and>
    (\<forall>l \<in> set logs. wanted as tops (log_Address l) (log_Topics l) \<and>
       (\<exists>t \<in> set (txsBetween lo hi (blocks db)). l \<in> set (etx_Logs (decodedTx D t))))"
proof -
  obtain ts rest where ts: "fst (modb_QueryLogs M as tops lo hi db) = map (\<lambda>t. Some (sigContent t)) ts @ rest"
    "rest = [] \<or> (\<exists>rest'. rest = None # rest')" "set ts \<subseteq> set (txsBetween lo hi (blocks db))"
    "list_all (storableTx D) ts" by (rule query_items [OF assms])
  obtain items err where q: "modb_QueryLogs M as tops lo hi db = (items, err)" by fastforce
  let ?logs = "concat (map (\<lambda>t. filter (\<lambda>l. filterFunc (log_Address l) (log_Topics l) as tops) (etx_Logs (decodedTx D t))) ts)"
  have items: "items = map (\<lambda>t. Some (sigContent t)) ts @ rest" using ts(1) q by simp
  have "\<exists>e. queryLoop D filterFunc as tops items [] = Ok (?logs, e)"
    using ts(2) by (elim disjE exE) (simp_all add: items queryLoop_filter [OF ts(4)] queryLoop_all [OF ts(4)])
  then have "QueryLogs D M as tops lo hi filterFunc db = Ok (?logs, err)"
    by (auto simp: QueryLogs_def q)
  moreover have "\<forall>l \<in> set ?logs. wanted as tops (log_Address l) (log_Topics l) \<and>
       (\<exists>t \<in> set (txsBetween lo hi (blocks db)). l \<in> set (etx_Logs (decodedTx D t)))"
    using ts(3) by (auto simp: filterFunc_wanted)
  ultimately show ?thesis by blast
qed

lemma QueryLogs_complete:
  assumes all: "list_all (storable D) (blocks db)" and few: "None \<notin> set (fst (modb_QueryLogs M as tops lo hi db))"
    and t: "t \<in> set (txsBetween lo hi (blocks db))" and l: "l \<in> set (etx_Logs (decodedTx D t))"
    and w: "wanted as tops (log_Address l) (log_Topics l)"
    and q: "QueryLogs D M as tops lo hi filterFunc db = Ok (logs, err)"
  shows "l \<in> set logs"
proof -
  obtain ts rest where ts: "fst (modb_QueryLogs M as tops lo hi db) = map (\<lambda>t. Some (sigContent t)) ts @ rest"
    "rest = [] \<or> (\<exists>rest'. rest = None # rest')" "list_all (storableTx D) ts" by (rule query_items [OF all])
  with few have items: "fst (modb_QueryLogs M as tops lo hi db) = map (\<lambda>t. Some (sigContent t)) ts" by auto
  have "storableTx D t" using t txsBetween_subset storable_txs [OF all] by blast
  then have dec: "map (\<lambda>l. \<lparr>mlog_Address = log_Address l, mlog_Topics = log_Topics l\<rparr>) (etx_Logs (decodedTx D t)) = mtx_LogList t"
    using storableTx_decoded by blast
  have "\<lparr>mlog_Address = log_Address l, mlog_Topics = log_Topics l\<rparr> \<in> set (mtx_LogList t)"
    using l by (simp add: dec [symmetric])
  then have "wantedTx as tops t" using w by (force simp: wantedTx_def list_ex_iff)
  with query_complete [OF few t] items obtain u where u: "u \<in> set ts" "sigContent u = sigContent t" by auto
  then have "mtx_Content u = mtx_Content t" by (metis drop_sigContent(1))
  then have "l \<in> set (etx_Logs (decodedTx D u))" using l by (simp add: decodedTx_def)
  moreover have "logs = concat (map (\<lambda>t. filter (\<lambda>l. filterFunc (log_Address l) (log_Topics l) as tops) (etx_Logs (decodedTx D t))) ts)"
    using q queryLoop_all [OF ts(3), of filterFunc as tops "[]"] items
    by (cases "modb_QueryLogs M as tops lo hi db") (simp add: QueryLogs_def)
  ultimately show ?thesis using u(1) w by (auto simp: filterFunc_wanted)
qed

end

text \<open>\<open>ChainLogDB\<close> keeps the contract of the store.\<close>

sublocale chainlogdb \<subseteq> db: istore "ChainLogDB D M" D blocks
proof unfold_locales
  fix db now h lo hi as tops txid b t k
  show "blocks (st_AddBlock (ChainLogDB D M) (Some b) db) = blocks db @ [b]"
    by (simp add: ChainLogDB_def AddBlock_def blocks_add)
  show "blocks (st_AddBlock (ChainLogDB D M) None db) = blocks db"
    by (simp add: ChainLogDB_def AddBlock_def blocks_add_nil)
  show "blocks db = [] \<Longrightarrow> st_GetLatestBlockInfo (ChainLogDB D M) now db = Ok (0, now, zeros 32, 0)"
    by (simp add: ChainLogDB_def GetLatestBlockInfo_def no_block)
  assume all: "list_all (storable D) (blocks db)"
  show "st_IsTxMined (ChainLogDB D M) txid db = Ok (d_HexToHash D txid \<in> mtx_HashId ` set (allTxs (blocks db)))"
    using GetTxByHash_found [OF all] GetTxByHash_not_found [OF all]
    by (cases "d_HexToHash D txid \<in> mtx_HashId ` set (allTxs (blocks db))")
      (fastforce simp: ChainLogDB_def IsTxMined_def)+
  show "st_GetBlockByHeight (ChainLogDB D M) h db =
      (case blockAt (as_i64 h) (blocks db) of None \<Rightarrow> Err ErrBlockNotFound | Some b \<Rightarrow> Ok (decodedBlock D b))"
  proof (cases "blockAt (as_i64 h) (blocks db)")
    case (Some b)
    then have "storable D b" using all blockAt_SomeD by (auto simp: list_all_iff)
    then show ?thesis
      using storable_decoded [of D b] by (simp add: ChainLogDB_def GetBlockByHeight_def block_by_height Some)
  qed (simp add: ChainLogDB_def GetBlockByHeight_def block_by_height)
  show "k \<notin> mblk_BlockHash ` set (blocks db) \<Longrightarrow> st_GetBlockByHash (ChainLogDB D M) k db = Err ErrBlockNotFound"
    using GetBlockByHash_cases(2) [OF all] by (simp add: ChainLogDB_def)
  show "b \<in> set (blocks db) \<Longrightarrow> \<exists>b' \<in> set (blocks db). mblk_BlockHash b' = mblk_BlockHash b \<and>
        st_GetBlockByHash (ChainLogDB D M) (mblk_BlockHash b) db = Ok (decodedBlock D b')"
    using GetBlockByHash_cases(1) [OF all] by (simp add: ChainLogDB_def)
  show "t \<in> set (allTxs (blocks db)) \<Longrightarrow> \<exists>t' \<in> set (allTxs (blocks db)). mtx_HashId t' = mtx_HashId t \<and>
        st_GetTxByHash (ChainLogDB D M) (mtx_HashId t) db = Ok (decodedTx D t', zeros 65)"
    using GetTxByHash_found [OF all] by (simp add: ChainLogDB_def)
  show "\<exists>logs err. st_QueryLogs (ChainLogDB D M) as tops lo hi filterFunc db = Ok (logs, err) \<and>
        (\<forall>l \<in> set logs. wanted as tops (log_Address l) (log_Topics l) \<and>
           (\<exists>t \<in> set (txsBetween lo hi (blocks db)). l \<in> set (etx_Logs (decodedTx D t))))"
    using QueryLogs_sound [OF all] by (simp add: ChainLogDB_def)
  show "st_GetTxListByHeightWithRange (ChainLogDB D M) h lo hi db =
        (case blockAt (as_i64 h) (blocks db) of None \<Rightarrow> Ok ([], [])
         | Some b \<Rightarrow> (let ts = slice lo hi (mblk_TxList b)
                      in Ok (map (decodedTx D) ts, replicate (length ts) (zeros 65))))"
  proof (cases "blockAt (as_i64 h) (blocks db)")
    case (Some b)
    then have "b \<in> set (blocks db)" by (simp add: blockAt_SomeD)
    then have "list_all (storableTx D) (slice lo hi (mblk_TxList b))"
      using all by (auto simp: list_all_iff storable_def slice_def dest!: in_set_takeD in_set_dropD)
    then show ?thesis
      by (simp add: ChainLogDB_def GetTxListByHeightWithRange_def tx_list Some txListLoop_map Let_def)
  qed (simp add: ChainLogDB_def GetTxListByHeightWithRange_def tx_list)
  assume "blocks db \<noteq> []"
  with all storable_decoded [of D "last (blocks db)"] blockAt_last
  show "st_GetLatestBlockInfo (ChainLogDB D M) now db =
        Ok (mblk_Height (last (blocks db)), eblk_Timestamp (decodedBlock D (last (blocks db))),
            mblk_BlockHash (last (blocks db)), as_i64 (eblk_GasUsed (decodedBlock D (last (blocks db)))))"
    by (simp add: ChainLogDB_def GetLatestBlockInfo_def Let_def latest_height block_by_height list_all_iff)
qed

interpretation listStore: chainlogdb listModb "\<lambda>db. db" ref_deps ..

lemma ChainLogDB_fields [simp]:
  "st_AddBlock (ChainLogDB D M) = AddBlock M" "st_IsTxMined (ChainLogDB D M) = IsTxMined D M"
  "st_GetLatestBlockInfo (ChainLogDB D M) = GetLatestBlockInfo D M"
  "st_GetBlockByHeight (ChainLogDB D M) = GetBlockByHeight D M"
  "st_GetBlockByHash (ChainLogDB D M) = GetBlockByHash D M"
  "st_GetTxByHash (ChainLogDB D M) = GetTxByHash D M"
  "st_GetTxListByHeightWithRange (ChainLogDB D M) = GetTxListByHeightWithRange D M"
  "st_QueryLogs (ChainLogDB D M) = QueryLogs D M"
  by (simp_all add: ChainLogDB_def)

context chainlogdb
begin

lemma istore_ChainLogDB: "istore (ChainLogDB D M) D blocks"
  by (rule db.istore_axioms)

end

lemma chainlogdb_istore: "modb_lib M blocks \<Longrightarrow> istore (ChainLogDB D M) D blocks"
  by (rule chainlogdb.istore_ChainLogDB) (rule chainlogdb.intro)

section \<open>An example\<close>

definition exEvmTx :: EvmTx where
  "exEvmTx =
     \<lparr>etx_Hash = replicate 32 5, etx_TransactionIndex = 0, etx_Nonce = 0, etx_BlockHash = replicate 32 8,
      etx_BlockNumber = 1, etx_From = zeros 20, etx_To = zeros 20, etx_Value = zeros 32, etx_GasPrice = zeros 32,
      etx_Gas = 0, etx_Input = [],
      etx_Logs = [\<lparr>log_Address = replicate 20 1, log_Topics = [replicate 32 2], log_Data = zeros 64, log_BlockNumber = 1,
        log_TxHash = replicate 32 5, log_TxIndex = 0, log_BlockHash = replicate 32 8\<rparr>],
      etx_Status = 0, etx_StatusStr = [], etx_OutData = []\<rparr>"

definition exModbTx :: ModbTx where
  "exModbTx =
     \<lparr>mtx_HashId = replicate 32 5, mtx_SrcAddr = zeros 20, mtx_DstAddr = zeros 20, mtx_Content = enc_tx exEvmTx,
      mtx_LogList = [\<lparr>mlog_Address = replicate 20 1, mlog_Topics = [replicate 32 2]\<rparr>]\<rparr>"

definition exEvmBlock :: EvmBlock where
  "exEvmBlock =
     \<lparr>eblk_Number = 1, eblk_Hash = replicate 32 8, eblk_ParentHash = zeros 32, eblk_TransactionsRoot = zeros 32,
      eblk_StateRoot = zeros 32, eblk_Miner = zeros 20, eblk_Size = 1700000000, eblk_GasUsed = 800000,
      eblk_Timestamp = 0, eblk_Transactions = [replicate 32 5], eblk_LogsBloom = zeros 256\<rparr>"

definition exModbBlock :: ModbBlock where
  "exModbBlock =
     \<lparr>mblk_Height = 1, mblk_BlockHash = replicate 32 8, mblk_BlockInfo = enc_block exEvmBlock, mblk_TxList = [exModbTx]\<rparr>"

lemma ref_Unmarshal [simp]:
  "d_UnmarshalTx ref_deps (enc_tx t) = Ok t" "d_UnmarshalBlock ref_deps (enc_block b) = Ok b"
  by (simp_all add: ref_deps_def dec_tx_enc_tx dec_block_enc_block)

lemma exModbTx_decoded [simp]: "decodedTx ref_deps exModbTx = exEvmTx"
  by (simp add: decodedTx_def exModbTx_def)

lemma exModbBlock_decoded [simp]: "decodedBlock ref_deps exModbBlock = exEvmBlock"
  by (simp add: decodedBlock_def exModbBlock_def)

lemma exModbTx_storable: "storableTx ref_deps exModbTx"
  by (simp add: storableTx_def exModbTx_def) (simp add: exEvmTx_def)

lemma exModbBlock_storable: "storable ref_deps exModbBlock"
  using exModbTx_storable
  by (simp add: storable_def exModbBlock_def enc_block_nonempty) (simp add: exEvmBlock_def)

lemma exModbBlocks_storable: "list_all (storable ref_deps) [exModbBlock]"
  by (simp add: exModbBlock_storable)

section \<open>Properties\<close>

text \<open>
  C28: \<open>IsTxMined\<close> is exact: for every database that keeps its contract and holds well-formed
  blocks, it returns true if and only if some stored transaction has the hash with the given
  digits; candidates with another hash that the index offers are passed over.
\<close>

theorem IsTxMined_iff:
  assumes "modb_lib M blocks" and "list_all (storable D) (blocks db)"
  shows "IsTxMined D M txid db = Ok (\<exists>t \<in> set (allTxs (blocks db)). mtx_HashId t = d_HexToHash D txid)"
  using istore.mined [OF chainlogdb_istore [OF assms(1)] assms(2)] by (simp add: image_iff eq_commute [of "d_HexToHash D txid"])

theorem IsTxMined_iff_witness:
  "IsTxMined ref_deps listModb (hexEncodeToString (replicate 32 5)) [exModbBlock] = Ok True \<and>
   IsTxMined ref_deps listModb (hexEncodeToString (replicate 32 6)) [exModbBlock] = Ok False"
proof -
  have h: "d_HexToHash ref_deps (hexEncodeToString (replicate 32 b)) = replicate 32 b" for b
    by (rule ref_txid.hex_to_hash) simp
  show ?thesis
    using IsTxMined_iff [OF listModb.modb_lib_axioms exModbBlocks_storable]
    by (simp only: h) (simp add: allTxs_def exModbBlock_def exModbTx_def)
qed

text \<open>
  C17: A log query is exact as long as the database does not give up: the logs returned are those
  of stored transactions, of blocks from the start to before the end height, that match the
  criteria, and no others.
\<close>

theorem QueryLogs_exact:
  assumes "modb_lib M blocks" and "list_all (storable D) (blocks db)"
    and "None \<notin> set (fst (modb_QueryLogs M addresses topics lo hi db))"
  shows "\<exists>logs err. QueryLogs D M addresses topics lo hi filterFunc db = Ok (logs, err) \<and>
    set logs = {l. wanted addresses topics (log_Address l) (log_Topics l) \<and>
      (\<exists>t \<in> set (txsBetween lo hi (blocks db)). l \<in> set (etx_Logs (decodedTx D t)))}"
proof -
  note C = chainlogdb.intro [OF assms(1)]
  obtain logs err where q: "QueryLogs D M addresses topics lo hi filterFunc db = Ok (logs, err)"
    and s: "\<forall>l \<in> set logs. wanted addresses topics (log_Address l) (log_Topics l) \<and>
       (\<exists>t \<in> set (txsBetween lo hi (blocks db)). l \<in> set (etx_Logs (decodedTx D t)))"
    using chainlogdb.QueryLogs_sound [OF C assms(2)] by blast
  moreover have "l \<in> set logs" if "wanted addresses topics (log_Address l) (log_Topics l)"
    "t \<in> set (txsBetween lo hi (blocks db))" "l \<in> set (etx_Logs (decodedTx D t))" for l t
    using chainlogdb.QueryLogs_complete [OF C assms(2,3) that(2,3,1) q] .
  ultimately show ?thesis by blast
qed

theorem QueryLogs_exact_witness:
  "\<exists>logs err. QueryLogs ref_deps listModb [replicate 20 1] [[]] 1 2 filterFunc [exModbBlock] = Ok (logs, err) \<and>
     set logs = set (etx_Logs exEvmTx)"
proof -
  have n: "None \<notin> set (fst (modb_QueryLogs listModb [replicate 20 1] [[]] 1 2 [exModbBlock]))"
    by (auto simp: listModb_def)
  have t: "txsBetween 1 2 [exModbBlock] = [exModbTx]"
    by (simp add: txsBetween_def allTxs_def) (simp add: exModbBlock_def)
  have "l \<in> set (etx_Logs exEvmTx) \<Longrightarrow> wanted [replicate 20 1] [[]] (log_Address l) (log_Topics l)" for l
    by (simp add: exEvmTx_def wanted_def)
  with QueryLogs_exact [OF listModb.modb_lib_axioms exModbBlocks_storable n] t show ?thesis by auto
qed

text \<open>
  A query that is cut off is not reported.  When the database offers some transactions and then
  nil, for too many entities, the callback's error is overwritten by the database's own result: the
  caller gets the logs found so far and no error.
\<close>

lemma QueryLogs_hides_cutoff:
  assumes "modb_QueryLogs M addresses topics lo hi db = (map (\<lambda>t. Some (sigContent t)) ts @ None # rest, None)"
    and "list_all (storableTx D) ts"
  shows "QueryLogs D M addresses topics lo hi flt db =
    Ok (concat (map (\<lambda>t. filter (\<lambda>l. flt (log_Address l) (log_Topics l) addresses topics)
      (etx_Logs (decodedTx D t))) ts), None)"
  using assms by (simp add: QueryLogs_def queryLoop_filter)

end
