(* ===== verification/Sha256.thy ===== *)
theory Sha256
  imports Prelude
begin

text \<open>
  \<open>crypto/sha256\<close>, the standard-library hash that names the virtual blocks: FIPS 180-4 on
  32-bit words.  The virtual chain only needs that a digest has 32 bytes; the function is
  spelled out so that block hashes can be evaluated.
\<close>

unbundle bit_operations_syntax

type_synonym uint32 = "32 word"

definition rotr :: "nat \<Rightarrow> uint32 \<Rightarrow> uint32" where
  "rotr n x = drop_bit n x OR push_bit (32 - n) x"

text \<open>
  The constants are the first 32 bits of the fractional parts of the cube roots and of the
  square roots of the first primes; \<open>iroot k n b v\<close> adds to \<open>v\<close> the bits from \<open>b\<close> down that
  keep the \<open>k\<close>-th power at most \<open>n\<close>.
\<close>

fun iroot :: "nat \<Rightarrow> int \<Rightarrow> nat \<Rightarrow> int \<Rightarrow> int" where
  "iroot k n 0 v = v"
| "iroot k n (Suc b) v =
     (let v' = v + 2 ^ b in iroot k n b (if v' ^ k \<le> n then v' else v))"

definition rootBits :: "nat \<Rightarrow> int \<Rightarrow> uint32" where
  "rootBits k p = word_of_int (iroot k (p * 2 ^ (32 * k)) 37 0)"

definition smallPrimes :: "int list" where
  "smallPrimes = filter (\<lambda>n. list_all (\<lambda>d. n mod d \<noteq> 0) [2..min (n - 1) 17]) [2..311]"

definition sha_K :: "uint32 list" where
  "sha_K = map (rootBits 3) smallPrimes"

definition sha_H0 :: "uint32 list" where
  "sha_H0 = map (rootBits 2) [2, 3, 5, 7, 11, 13, 17, 19]"

definition sha_pad :: "bytes \<Rightarrow> bytes" where
  "sha_pad m =
     m @ [0x80] @ zeros ((119 - length m mod 64) mod 64) @ be_bytes 8 (int (8 * length m))"

definition word_of_bytes :: "bytes \<Rightarrow> uint32" where
  "word_of_bytes bs = word_of_int (be_val bs)"

text \<open>The message schedule, newest word first.\<close>

fun sha_extend :: "nat \<Rightarrow> uint32 list \<Rightarrow> uint32 list" where
  "sha_extend 0 w = w"
| "sha_extend (Suc n) w =
     (let a = w ! 14; b = w ! 1;
          s0 = rotr 7 a XOR rotr 18 a XOR drop_bit 3 a;
          s1 = rotr 17 b XOR rotr 19 b XOR drop_bit 10 b
      in sha_extend n ((w ! 15 + s0 + w ! 6 + s1) # w))"

fun sha_round :: "uint32 list \<Rightarrow> uint32 \<times> uint32 \<Rightarrow> uint32 list" where
  "sha_round [a, b, c, d, e, f, g, h] (k, w) =
     (let t1 = h + (rotr 6 e XOR rotr 11 e XOR rotr 25 e) + ((e AND f) XOR (NOT e AND g)) + k + w;
          t2 = (rotr 2 a XOR rotr 13 a XOR rotr 22 a) + ((a AND b) XOR (a AND c) XOR (b AND c))
      in [t1 + t2, a, b, c, d + t1, e, f, g])"
| "sha_round st kw = st"

definition sha_compress :: "uint32 list \<Rightarrow> bytes \<Rightarrow> uint32 list" where
  "sha_compress h blk =
     (let w0 = map (\<lambda>i. word_of_bytes (take 4 (drop (4 * i) blk))) [0..<16];
          ws = rev (sha_extend 48 (rev w0))
      in map (\<lambda>(x, y). x + y) (zip h (foldl sha_round h (zip sha_K ws))))"

fun sha_blocks :: "nat \<Rightarrow> bytes \<Rightarrow> uint32 list \<Rightarrow> uint32 list" where
  "sha_blocks 0 m h = h"
| "sha_blocks (Suc n) m h = sha_blocks n (drop 64 m) (sha_compress h (take 64 m))"

definition sha256 :: "bytes \<Rightarrow> bytes" where
  "sha256 m =
     (let p = sha_pad m
      in concat (map (\<lambda>w. be_bytes 4 (uint w)) (sha_blocks (length p div 64) p sha_H0)))"

section \<open>A digest has 32 bytes\<close>

lemma length_sha_round [simp]: "length (sha_round st kw) = length st"
  by (induction st kw rule: sha_round.induct) (simp_all add: Let_def)

lemma length_sha_rounds [simp]: "length (foldl sha_round st kws) = length st"
  by (induction kws arbitrary: st) simp_all

lemma length_sha_compress [simp]: "length (sha_compress h blk) = length h"
  by (simp add: sha_compress_def Let_def)

lemma length_sha_blocks [simp]: "length (sha_blocks n m h) = length h"
  by (induction n arbitrary: m h) simp_all

lemma length_concat_words: "length (concat (map (\<lambda>w. be_bytes 4 (uint (w :: uint32))) ws)) = 4 * length ws"
  by (induction ws) simp_all

lemma length_sha256 [simp, array_len]: "length (sha256 m) = 32"
  by (simp add: sha256_def Let_def length_concat_words sha_H0_def)

end
