(* ===== verification/Chain.thy ===== *)
theory Chain
  imports Scanner_Scan Store Sha256
begin

text \<open>
  config/config.go, chains/adapter.go and chains/bch.go: the virtual chain.  A \<open>VirtualChain\<close>
  owns a scanner state \<open>'s\<close> and a store state \<open>'db\<close> and uses them through the interfaces
  \<open>IScanner\<close> (scanner/scanner.go) and \<open>IStore\<close>; the two event feeds are the lists of what was
  sent.  Time is an argument.  The answers of the node differ from round to round, so that every
  round gets its own \<open>IScanner\<close> value; the scanner asks the chain's store whether a transaction
  is mined, which is the first argument of \<open>sc_GetNewTxs\<close>.
\<close>

section \<open>Configuration\<close>

record ChainConfig =
  cc_ChainName :: string
  cc_ChainId :: bytes
  cc_ClientUrls :: "string list"
  cc_BlockInterval :: int
  cc_MaxTxsInBlock :: int
  cc_GenesisMainChainBlockHeight :: int

record Config =
  cfg_ChainsSupported :: "string \<rightharpoonup> ChainConfig"
  cfg_ChainPrefix :: string

definition DefaultConfig :: Config where
  "DefaultConfig = \<lparr>cfg_ChainsSupported = Map.empty, cfg_ChainPrefix = ''virtual ''\<rparr>"

definition RegisterChainConfig :: "string \<Rightarrow> ChainConfig \<Rightarrow> Config \<Rightarrow> Config" where
  "RegisterChainConfig chainName chainConfig c =
     c\<lparr>cfg_ChainsSupported := (cfg_ChainsSupported c)(chainName \<mapsto> chainConfig)\<rparr>"

definition convertChainNameToChainId :: "string \<Rightarrow> bytes" where
  "convertChainNameToChainId name = copy_into (zeros 32) 0 32 (bytes_of name)"

definition NewBchChainConfig :: "Config \<Rightarrow> string list \<Rightarrow> int \<Rightarrow> ChainConfig" where
  "NewBchChainConfig config clientUrls genesis =
     (let c = \<lparr>cc_ChainName = cfg_ChainPrefix config @ ''Bitcoin Cash'', cc_ChainId = zeros 32,
              cc_ClientUrls = clientUrls, cc_BlockInterval = 5, cc_MaxTxsInBlock = 2000,
              cc_GenesisMainChainBlockHeight = 0\<rparr>;
          c = c\<lparr>cc_ChainId := convertChainNameToChainId (cc_ChainName c)\<rparr>
      in c\<lparr>cc_GenesisMainChainBlockHeight := genesis\<rparr>)"

section \<open>The virtual chain\<close>

record 's IScanner =
  sc_GetNewTxs :: "(string \<Rightarrow> bool) \<Rightarrow> int \<Rightarrow> bytes \<Rightarrow> bool \<Rightarrow> 's \<Rightarrow> (ModbTx list \<times> 's) outcome"
  sc_GetConfirmations :: "bytes \<Rightarrow> 's \<Rightarrow> int outcome"
  sc_SetLatestScanHeight :: "int \<Rightarrow> 's \<Rightarrow> 's"
  sc_GetLatestScanHeight :: "'s \<Rightarrow> int"

text \<open>The BCH scanner behind the interface, for a node and an eviction choice.\<close>

definition bchScanner :: "deps \<Rightarrow> (string set \<Rightarrow> string) \<Rightarrow> BchClient \<Rightarrow> BchScanner IScanner" where
  "bchScanner D pick C =
     \<lparr>sc_GetNewTxs = GetNewTxs D pick C,
      sc_GetConfirmations = (\<lambda>h s. GetConfirmations D C h),
      sc_SetLatestScanHeight = SetLatestScanHeight,
      sc_GetLatestScanHeight = GetLatestScanHeight\<rparr>"

record Header =
  hdr_Number :: int
  hdr_BlockHash :: bytes

record ChainEvent =
  ce_BlockHeader :: Header
  ce_Logs :: "EvmLog list"

record ('s, 'db) VirtualChain =
  vc_Scanner :: 's
  vc_Store :: 'db
  vc_BlockInterval :: int
  vc_ChainName :: string
  vc_ChainID :: bytes
  vc_GenesisMainChainBlockHeight :: int
  vc_PrevBlockHash :: bytes
  vc_CurrentBlockHeight :: int
  vc_CurrentBlockTimestamp :: int
  vc_CurrentBlockHash :: bytes
  vc_chainFeed :: "ChainEvent list"
  vc_logsFeed :: "EvmLog list list"

text \<open>\<open>NewBchVirtualChain\<close> returns nil when no client is configured.\<close>

definition NewBchVirtualChain :: "ChainConfig \<Rightarrow> 'db \<Rightarrow> (BchScanner, 'db) VirtualChain option" where
  "NewBchVirtualChain cfg store =
     (if length (cc_ClientUrls cfg) = 0 then None
      else Some
        \<lparr>vc_Scanner = NewBchScanner (cc_MaxTxsInBlock cfg), vc_Store = store,
         vc_BlockInterval = cc_BlockInterval cfg, vc_ChainName = cc_ChainName cfg, vc_ChainID = cc_ChainId cfg,
         vc_GenesisMainChainBlockHeight = cc_GenesisMainChainBlockHeight cfg,
         vc_PrevBlockHash = zeros 32, vc_CurrentBlockHeight = 0, vc_CurrentBlockTimestamp = 0,
         vc_CurrentBlockHash = zeros 32, vc_chainFeed = [], vc_logsFeed = []\<rparr>)"

definition RecoveryFromDB ::
  "'s IScanner \<Rightarrow> 'db IStore \<Rightarrow> int \<Rightarrow> ('s, 'db) VirtualChain \<Rightarrow> ('s, 'db) VirtualChain outcome" where
  "RecoveryFromDB I S now v =
     (case st_GetLatestBlockInfo S now (vc_Store v) of
        Err e \<Rightarrow> Err e
      | Panic e \<Rightarrow> Panic e
      | Ok (height, timestamp, hash, latestScanBlockHeight) \<Rightarrow>
        (let latestScanBlockHeight =
               (if latestScanBlockHeight = 0 then vc_GenesisMainChainBlockHeight v else latestScanBlockHeight)
         in Ok (v\<lparr>vc_CurrentBlockHeight := height, vc_CurrentBlockTimestamp := timestamp,
                  vc_CurrentBlockHash := hash, vc_PrevBlockHash := hash,
                  vc_Scanner := sc_SetLatestScanHeight I latestScanBlockHeight (vc_Scanner v)\<rparr>)))"

text \<open>\<open>E\<close> is \<open>evmtypes.BlockToChainEvent\<close>.\<close>

definition publishNewBlock ::
  "(ModbBlock \<Rightarrow> ChainEvent) \<Rightarrow> ModbBlock \<Rightarrow> ('s, 'db) VirtualChain \<Rightarrow> ('s, 'db) VirtualChain" where
  "publishNewBlock E mdbBlock v =
     (let chainEvent = E mdbBlock;
          v = v\<lparr>vc_chainFeed := vc_chainFeed v @ [chainEvent]\<rparr>
      in if 0 < length (ce_Logs chainEvent)
         then v\<lparr>vc_logsFeed := vc_logsFeed v @ [ce_Logs chainEvent]\<rparr> else v)"

definition blockHash :: "string \<Rightarrow> int \<Rightarrow> bytes" where
  "blockHash chainName height = sha256 (bytes_of (chainName @ '':'' @ itoa height))"

text \<open>The block that \<open>GenerateNewBlock\<close> encodes.\<close>

definition evmBlockOf :: "('s, 'db) VirtualChain \<Rightarrow> int \<Rightarrow> ModbTx list \<Rightarrow> EvmBlock" where
  "evmBlockOf v latestScanHeight txs =
     \<lparr>eblk_Number = vc_CurrentBlockHeight v, eblk_Hash = vc_CurrentBlockHash v,
      eblk_ParentHash = vc_PrevBlockHash v, eblk_TransactionsRoot = zeros 32, eblk_StateRoot = zeros 32,
      eblk_Miner = zeros 20, eblk_Size = vc_CurrentBlockTimestamp v, eblk_GasUsed = as_u64 latestScanHeight,
      eblk_Timestamp = 0, eblk_Transactions = map mtx_HashId txs, eblk_LogsBloom = zeros 256\<rparr>"

text \<open>
  The callback of the scanner is \<open>IsTxMined\<close> of the store.  On the blocks a chain stores it does not
  panic, as the contract \<open>istore\<close> says, so that \<open>= Ok True\<close> is its value.
\<close>

definition GenerateNewBlock ::
  "deps \<Rightarrow> (ModbBlock \<Rightarrow> ChainEvent) \<Rightarrow> 's IScanner \<Rightarrow> 'db IStore \<Rightarrow> int \<Rightarrow> bool \<Rightarrow>
   ('s, 'db) VirtualChain \<Rightarrow> ('s, 'db) VirtualChain outcome" where
  "GenerateNewBlock D E I S now scanBlock v =
     (let currentBlockTimestamp = now;
          currentBlockHash = blockHash (vc_ChainName v) (vc_CurrentBlockHeight v)
      in case sc_GetNewTxs I (\<lambda>txid. st_IsTxMined S txid (vc_Store v) = Ok True)
                (vc_CurrentBlockHeight v + 1) currentBlockHash scanBlock (vc_Scanner v) of
           Err e \<Rightarrow> Err e
         | Panic e \<Rightarrow> Panic e
         | Ok (txs, scanner) \<Rightarrow>
           (let v = v\<lparr>vc_Scanner := scanner\<rparr> in
            if length txs = 0 \<and> \<not> scanBlock then Ok v
            else
              let v = v\<lparr>vc_CurrentBlockHeight := vc_CurrentBlockHeight v + 1,
                        vc_CurrentBlockTimestamp := currentBlockTimestamp,
                        vc_CurrentBlockHash := currentBlockHash\<rparr>
              in case d_MarshalBlock D (evmBlockOf v (sc_GetLatestScanHeight I (vc_Scanner v)) txs) of
                   Err e \<Rightarrow> Panic e
                 | Panic e \<Rightarrow> Panic e
                 | Ok blkInfo \<Rightarrow>
                   (let blk = \<lparr>mblk_Height = vc_CurrentBlockHeight v, mblk_BlockHash = vc_CurrentBlockHash v,
                              mblk_BlockInfo = blkInfo, mblk_TxList = txs\<rparr>;
                        v = v\<lparr>vc_Store := st_AddBlock S (Some blk) (vc_Store v)\<rparr>
                    in Ok (publishNewBlock E blk v))))"

definition vcGetConfirmations :: "'s IScanner \<Rightarrow> bytes \<Rightarrow> ('s, 'db) VirtualChain \<Rightarrow> int outcome" where
  "vcGetConfirmations I txHash v = sc_GetConfirmations I txHash (vc_Scanner v)"

text \<open>
  The ticker loop of \<open>Start\<close> over the ticks that happen: the time and the scanner of each.
\<close>

fun tickLoop ::
  "deps \<Rightarrow> (ModbBlock \<Rightarrow> ChainEvent) \<Rightarrow> 'db IStore \<Rightarrow> nat \<Rightarrow> (int \<times> 's IScanner) list \<Rightarrow>
   ('s, 'db) VirtualChain \<Rightarrow> ('s, 'db) VirtualChain outcome" where
  "tickLoop D E S tryGenerateBlockCount [] v = Ok v"
| "tickLoop D E S tryGenerateBlockCount ((now, I) # ticks) v =
     (let tryGenerateBlockCount = tryGenerateBlockCount + 1 in
      case GenerateNewBlock D E I S now (tryGenerateBlockCount mod 12 = 0) v of
        Ok v' \<Rightarrow> tickLoop D E S tryGenerateBlockCount ticks v'
      | Err e \<Rightarrow> Err e
      | Panic e \<Rightarrow> Panic e)"

text \<open>The time the chain sleeps before its first block.\<close>

definition startSleep :: "int \<Rightarrow> ('s, 'db) VirtualChain \<Rightarrow> int" where
  "startSleep now v =
     (let downtime = now - vc_CurrentBlockTimestamp v
      in if vc_BlockInterval v \<le> downtime then 0 else vc_BlockInterval v - downtime)"

text \<open>\<open>wake s\<close> is the time the first block gets after sleeping \<open>s\<close> seconds.\<close>

definition Start ::
  "deps \<Rightarrow> (ModbBlock \<Rightarrow> ChainEvent) \<Rightarrow> 'db IStore \<Rightarrow> int \<Rightarrow> int \<Rightarrow> (int \<Rightarrow> int) \<Rightarrow> 's IScanner \<Rightarrow> (int \<times> 's IScanner) list \<Rightarrow>
   ('s, 'db) VirtualChain \<Rightarrow> ('s, 'db) VirtualChain outcome" where
  "Start D E S recoveryTime now wake I ticks v =
     (case RecoveryFromDB I S recoveryTime v of
        Err e \<Rightarrow> Err e
      | Panic e \<Rightarrow> Panic e
      | Ok v \<Rightarrow>
        if now < vc_CurrentBlockTimestamp v then Panic (ErrorString ''now <= v.CurrentBlockTimestamp'')
        else
          (case GenerateNewBlock D E I S (wake (startSleep now v)) True v of
             Err e \<Rightarrow> Err e
           | Panic e \<Rightarrow> Panic e
           | Ok v' \<Rightarrow> tickLoop D E S 0 ticks v'))"

end
