(* ===== verification/Event_System.thy ===== *)
theory Event_System
  imports Chain_Types Log_Filter Chain
begin

text \<open>
  rpc/api/filters/geth_filter_system.go: subscriptions, the index of the event loop and its
  handlers.  A subscription's channels are unbuffered, so that a send is a meeting with the reader;
  what a handler computes is therefore the list of the sends it makes, in order.  Go visits a map in
  any order: handlers take the visiting order as an argument.  The loop itself, with the
  goroutines it meets, is the state machine of the theory \<open>Filter_System\<close>.
\<close>

section \<open>Subscriptions\<close>

type_synonym rpcID = string

datatype Type =
    UnknownSubscription
  | LogsSubscription
  | PendingLogsSubscription
  | MinedAndPendingLogsSubscription
  | PendingTransactionsSubscription
  | BlocksSubscription
  | LastIndexSubscription

text \<open>The byte of a type, counted by \<open>iota\<close>; types are compared by it.\<close>

primrec typeByte :: "Type \<Rightarrow> nat" where
  "typeByte UnknownSubscription = 0"
| "typeByte LogsSubscription = 1"
| "typeByte PendingLogsSubscription = 2"
| "typeByte MinedAndPendingLogsSubscription = 3"
| "typeByte PendingTransactionsSubscription = 4"
| "typeByte BlocksSubscription = 5"
| "typeByte LastIndexSubscription = 6"

lemma typeByte_inj: "typeByte s = typeByte t \<Longrightarrow> s = t"
  by (cases s; cases t) simp_all

instantiation Type :: linorder
begin

definition less_eq_Type :: "Type \<Rightarrow> Type \<Rightarrow> bool" where
  "less_eq_Type s t \<longleftrightarrow> typeByte s \<le> typeByte t"

definition less_Type :: "Type \<Rightarrow> Type \<Rightarrow> bool" where
  "less_Type s t \<longleftrightarrow> typeByte s < typeByte t"

instance
  by standard (auto simp: less_eq_Type_def less_Type_def intro: typeByte_inj)

end

definition txChanSize :: nat where "txChanSize = 4096"

definition rmLogsChanSize :: nat where "rmLogsChanSize = 10"

definition logsChanSize :: nat where "logsChanSize = 10"

definition chainEvChanSize :: nat where "chainEvChanSize = 10"

text \<open>\<open>ethereum.FilterQuery\<close>, the criteria of a filter; nil is None.\<close>

record FilterCriteria =
  crit_BlockHash :: "bytes option"
  crit_FromBlock :: "int option"
  crit_ToBlock :: "int option"
  crit_Addresses :: "bytes list"
  crit_Topics :: "bytes list list"

definition noCriteria :: FilterCriteria where
  "noCriteria = \<lparr>crit_BlockHash = None, crit_FromBlock = None, crit_ToBlock = None, crit_Addresses = [], crit_Topics = []\<rparr>"

record subscription =
  sub_id :: rpcID
  sub_typ :: Type
  sub_created :: int
  sub_logsCrit :: FilterCriteria

text \<open>\<open>sid\<close> is the result of \<open>rpc.NewID\<close>.\<close>

definition subscribeLogs :: "rpcID \<Rightarrow> int \<Rightarrow> FilterCriteria \<Rightarrow> subscription" where
  "subscribeLogs sid now crit =
     \<lparr>sub_id = sid, sub_typ = LogsSubscription, sub_created = now, sub_logsCrit = crit\<rparr>"

definition SubscribeNewHeads :: "rpcID \<Rightarrow> int \<Rightarrow> subscription" where
  "SubscribeNewHeads sid now =
     \<lparr>sub_id = sid, sub_typ = BlocksSubscription, sub_created = now, sub_logsCrit = noCriteria\<rparr>"

text \<open>\<open>latest\<close> is \<open>rpc.LatestBlockNumber\<close>.\<close>

definition SubscribeLogs :: "int \<Rightarrow> rpcID \<Rightarrow> int \<Rightarrow> FilterCriteria \<Rightarrow> subscription outcome" where
  "SubscribeLogs latest sid now crit =
     (let from = (case crit_FromBlock crit of None \<Rightarrow> latest | Some b \<Rightarrow> as_i64 b);
          to = (case crit_ToBlock crit of None \<Rightarrow> latest | Some b \<Rightarrow> as_i64 b)
      in if from = latest \<and> to = latest then Ok (subscribeLogs sid now crit)
         else if 0 \<le> from \<and> 0 \<le> to \<and> from \<le> to then Ok (subscribeLogs sid now crit)
         else if 0 \<le> from \<and> to = latest then Ok (subscribeLogs sid now crit)
         else Err (ErrorString ''invalid from and to block combination: from > to''))"

section \<open>The index\<close>

text \<open>A map of maps; a type that is not a key has the nil map.\<close>

type_synonym filterIndex = "Type \<rightharpoonup> (rpcID \<rightharpoonup> subscription)"

definition subsOf :: "filterIndex \<Rightarrow> Type \<Rightarrow> rpcID \<rightharpoonup> subscription" where
  "subsOf index ty = (case index ty of None \<Rightarrow> Map.empty | Some m \<Rightarrow> m)"

definition allTypes :: "Type list" where
  "allTypes = [UnknownSubscription, LogsSubscription, PendingLogsSubscription, MinedAndPendingLogsSubscription,
     PendingTransactionsSubscription, BlocksSubscription, LastIndexSubscription]"

definition newIndex :: filterIndex where
  "newIndex = fold (\<lambda>i index. index(i \<mapsto> Map.empty)) (filter (\<lambda>i. i < LastIndexSubscription) allTypes) Map.empty"

definition installSub :: "subscription \<Rightarrow> filterIndex \<Rightarrow> filterIndex outcome" where
  "installSub f index =
     (case index (sub_typ f) of
        None \<Rightarrow> Panic (ErrorString ''assignment to entry in nil map'')
      | Some m \<Rightarrow> Ok (index(sub_typ f \<mapsto> m(sub_id f \<mapsto> f))))"

definition uninstallSub :: "subscription \<Rightarrow> filterIndex \<Rightarrow> filterIndex" where
  "uninstallSub f index =
     (case index (sub_typ f) of
        None \<Rightarrow> index
      | Some m \<Rightarrow> index(sub_typ f \<mapsto> m(sub_id f := None)))"

section \<open>The handlers\<close>

datatype message = LogsMessage "EvmLog list" | HeaderMessage Header

text \<open>An order in which \<open>range\<close> may visit a map.\<close>

definition rangeOrder :: "('k \<rightharpoonup> 'v) \<Rightarrow> 'k list \<Rightarrow> bool" where
  "rangeOrder m ks \<longleftrightarrow> distinct ks \<and> set ks = dom m"

definition matchedLogs :: "subscription \<Rightarrow> EvmLog list \<Rightarrow> EvmLog list" where
  "matchedLogs f ev =
     filterLogs ev (crit_FromBlock (sub_logsCrit f)) (crit_ToBlock (sub_logsCrit f))
       (crit_Addresses (sub_logsCrit f)) (crit_Topics (sub_logsCrit f))"

fun sendLogs :: "(rpcID \<rightharpoonup> subscription) \<Rightarrow> rpcID list \<Rightarrow> EvmLog list \<Rightarrow> (rpcID \<times> message) list" where
  "sendLogs fs [] ev = []"
| "sendLogs fs (sid # sids) ev =
     (case fs sid of
        None \<Rightarrow> sendLogs fs sids ev
      | Some f \<Rightarrow>
        if 0 < length (matchedLogs f ev) then (sid, LogsMessage (matchedLogs f ev)) # sendLogs fs sids ev
        else sendLogs fs sids ev)"

definition handleLogs :: "rpcID list \<Rightarrow> filterIndex \<Rightarrow> EvmLog list \<Rightarrow> (rpcID \<times> message) list" where
  "handleLogs order filters ev =
     (if length ev = 0 then [] else sendLogs (subsOf filters LogsSubscription) order ev)"

definition handleRemovedLogs :: "rpcID list \<Rightarrow> filterIndex \<Rightarrow> EvmLog list \<Rightarrow> (rpcID \<times> message) list" where
  "handleRemovedLogs order filters ev = sendLogs (subsOf filters LogsSubscription) order ev"

definition handleTxsEvent :: "filterIndex \<Rightarrow> bytes list \<Rightarrow> (rpcID \<times> message) list" where
  "handleTxsEvent filters ev = []"

fun sendHeader :: "(rpcID \<rightharpoonup> subscription) \<Rightarrow> rpcID list \<Rightarrow> Header \<Rightarrow> (rpcID \<times> message) list" where
  "sendHeader fs [] h = []"
| "sendHeader fs (sid # sids) h =
     (case fs sid of
        None \<Rightarrow> sendHeader fs sids h
      | Some f \<Rightarrow> (sid, HeaderMessage h) # sendHeader fs sids h)"

definition handleChainEvent :: "rpcID list \<Rightarrow> filterIndex \<Rightarrow> ChainEvent \<Rightarrow> (rpcID \<times> message) list" where
  "handleChainEvent order filters ev =
     sendHeader (subsOf filters BlocksSubscription) order (ce_BlockHeader ev)"

section \<open>Lemmas: the index\<close>

lemma newIndex_typ: "newIndex ty = (if ty = LastIndexSubscription then None else Some Map.empty)"
  by (cases ty) (simp_all add: newIndex_def allTypes_def less_Type_def)

lemma subsOf_new [simp]: "subsOf newIndex ty = Map.empty"
  by (simp add: subsOf_def newIndex_typ)

lemma subsOf_install:
  "installSub f index = Ok index' \<Longrightarrow>
   subsOf index' ty = (if ty = sub_typ f then (subsOf index ty)(sub_id f \<mapsto> f) else subsOf index ty)"
  by (auto simp: installSub_def subsOf_def split: option.splits)

lemma subsOf_uninstall:
  "subsOf (uninstallSub f index) ty = (if ty = sub_typ f then (subsOf index ty)(sub_id f := None) else subsOf index ty)"
  by (auto simp: uninstallSub_def subsOf_def fun_eq_iff split: option.splits)

lemma installSub_total: "index (sub_typ f) \<noteq> None \<Longrightarrow> \<exists>index'. installSub f index = Ok index'"
  by (auto simp: installSub_def)

lemma installSub_dom: "installSub f index = Ok index' \<Longrightarrow> dom index' = dom index"
  by (auto simp: installSub_def split: option.splits if_splits)

lemma uninstallSub_dom: "dom (uninstallSub f index) = dom index"
  by (auto simp: uninstallSub_def split: option.splits)

section \<open>Lemmas: the handlers\<close>

text \<open>What a list of sends holds for one subscription.\<close>

definition sendsTo :: "rpcID \<Rightarrow> (rpcID \<times> message) list \<Rightarrow> message list" where
  "sendsTo sid sends = map snd (filter (\<lambda>s. fst s = sid) sends)"

lemma sendsTo_simps [simp]:
  "sendsTo sid [] = []" "sendsTo sid ((sid', m) # sends) = (if sid' = sid then m # sendsTo sid sends else sendsTo sid sends)"
  by (simp_all add: sendsTo_def)

lemma sendsTo_outside: "sid \<notin> fst ` set sends \<Longrightarrow> sendsTo sid sends = []"
  by (auto simp: sendsTo_def filter_empty_conv)

lemma sendLogs_ids: "(sid, m) \<in> set (sendLogs fs sids ev) \<Longrightarrow> sid \<in> set sids \<and> (\<exists>f. fs sid = Some f) \<and> (\<exists>ls. m = LogsMessage ls)"
  by (induction sids) (auto split: option.splits if_splits)

text \<open>Each subscription is visited once and sent the logs that match it, unless there are none.\<close>

lemma sendLogs_to:
  assumes "distinct sids" and "fs sid = Some f" and "sid \<in> set sids"
  shows "sendsTo sid (sendLogs fs sids ev) = (if matchedLogs f ev = [] then [] else [LogsMessage (matchedLogs f ev)])"
  using assms
proof (induction sids)
  case (Cons i sids)
  have "sendsTo sid (sendLogs fs sids ev) = []" if "sid \<notin> set sids"
    using that sendLogs_ids by (intro sendsTo_outside) fastforce
  with Cons show ?case by (cases "i = sid") (auto split: option.splits)
qed simp

lemma matchedLogs_Nil [simp]: "matchedLogs f [] = []"
  by (simp add: matchedLogs_def)

lemma handleLogs_to:
  assumes "rangeOrder (subsOf index LogsSubscription) sids" and "subsOf index LogsSubscription sid = Some f"
  shows "sendsTo sid (handleLogs sids index ev) = (if matchedLogs f ev = [] then [] else [LogsMessage (matchedLogs f ev)])"
    and "sendsTo sid (handleRemovedLogs sids index ev) = (if matchedLogs f ev = [] then [] else [LogsMessage (matchedLogs f ev)])"
proof -
  have "sid \<in> set sids" "distinct sids" using assms by (auto simp: rangeOrder_def)
  from sendLogs_to [of sids "subsOf index LogsSubscription" sid f ev, OF this(2) assms(2) this(1)]
  show "sendsTo sid (handleLogs sids index ev) = (if matchedLogs f ev = [] then [] else [LogsMessage (matchedLogs f ev)])"
    and "sendsTo sid (handleRemovedLogs sids index ev) = (if matchedLogs f ev = [] then [] else [LogsMessage (matchedLogs f ev)])"
    by (auto simp: handleLogs_def handleRemovedLogs_def)
qed

lemma handleLogs_from:
  "(sid, m) \<in> set (handleLogs sids index ev) \<or> (sid, m) \<in> set (handleRemovedLogs sids index ev) \<Longrightarrow>
   sid \<in> set sids \<and> (\<exists>f. subsOf index LogsSubscription sid = Some f) \<and> (\<exists>ls. m = LogsMessage ls)"
  by (auto simp: handleLogs_def handleRemovedLogs_def split: if_splits dest: sendLogs_ids)

lemma handleChainEvent_to:
  assumes "rangeOrder (subsOf index BlocksSubscription) sids"
  shows "sendsTo sid (handleChainEvent sids index ev) =
    (if sid \<in> dom (subsOf index BlocksSubscription) then [HeaderMessage (ce_BlockHeader ev)] else [])"
proof -
  have "distinct sids \<Longrightarrow> set sids \<subseteq> dom fs \<Longrightarrow>
      sendsTo sid (sendHeader fs sids h) = (if sid \<in> set sids then [HeaderMessage h] else [])" for fs h
    by (induction sids) (auto split: option.splits)
  with assms show ?thesis by (simp add: handleChainEvent_def rangeOrder_def)
qed

lemma handleChainEvent_from:
  "(sid, m) \<in> set (handleChainEvent sids index ev) \<Longrightarrow>
   (\<exists>f. subsOf index BlocksSubscription sid = Some f) \<and> (\<exists>h. m = HeaderMessage h)"
proof -
  have "(sid, m) \<in> set (sendHeader fs sids h) \<Longrightarrow> (\<exists>f. fs sid = Some f) \<and> m = HeaderMessage h" for fs h
    by (induction sids) (auto split: option.splits)
  then show "(sid, m) \<in> set (handleChainEvent sids index ev) \<Longrightarrow> ?thesis" by (auto simp: handleChainEvent_def)
qed

end
