(* ===== verification/Chain_Props.thy ===== *)
theory Chain_Props
  imports Chain
begin

text \<open>
  Correctness of the virtual chain: the contract \<open>iscanner\<close> of the scanner and that the BCH
  scanner keeps it, the step relation of a chain that generates blocks and restarts, and the
  invariants of its reachable states.
\<close>

section \<open>The contract of the scanner\<close>

locale iscanner =
  fixes I :: "'s IScanner" and D :: deps
  assumes set_get: "sc_GetLatestScanHeight I (sc_SetLatestScanHeight I h s) = h"
    and storable_txs: "sc_GetNewTxs I isMined h hash scanBlock s = Ok (txs, s') \<Longrightarrow> list_all (storableTx D) txs"
    and fresh_txs: "sc_GetNewTxs I isMined h hash scanBlock s = Ok (txs, s') \<Longrightarrow> t \<in> set txs \<Longrightarrow>
      \<exists>txid. d_HexToHash D txid = mtx_HashId t \<and> \<not> isMined txid"
    and scan_height: "sc_GetNewTxs I isMined h hash scanBlock s = Ok (txs, s') \<Longrightarrow>
      sc_GetLatestScanHeight I s \<le> sc_GetLatestScanHeight I s' \<and>
      (scanBlock \<or> sc_GetLatestScanHeight I s' = sc_GetLatestScanHeight I s) \<and>
      (is_i64 (sc_GetLatestScanHeight I s) \<longrightarrow> is_i64 (sc_GetLatestScanHeight I s'))"

text \<open>The node answers a request for a transaction with that transaction, and counts blocks in 64 bits.\<close>

definition nodeOk :: "deps \<Rightarrow> BchClient \<Rightarrow> bool" where
  "nodeOk D C \<longleftrightarrow>
     (\<forall>h tx. GetRawTransactionVerbose C h = Ok tx \<longrightarrow> raw_Txid tx = d_HashString D h) \<and>
     (\<forall>n. GetBlockCount C = Ok n \<longrightarrow> is_i64 n)"

lemma convert_storableTx:
  assumes "codec_lib D" and "convertUtxoInfoToTx D C tx i height hash = Ok m"
  shows "storableTx D m"
  using assms(2)
proof (rule convert_Ok)
  fix acc :: VoutAcc and senders itoks ca ts od data
  assume n: "ExtractEGTXNullData D (acc_nullData acc) = Ok (ca, ts, od)"
    and m: "d_MarshalTx D (evmTxOf (d_HexToHash D (raw_Txid tx)) i height hash
       (firstAddress senders) (firstAddress (acc_receiverInfos acc)) ca ts data) = Ok (mtx_Content m)"
      "mtx_HashId m = d_HexToHash D (raw_Txid tx)"
      "mtx_LogList m = [\<lparr>mlog_Address = ca, mlog_Topics = ts\<rparr>]"
  have "length ts \<le> 4" using ExtractEGTXNullData_shape [OF n] by simp
  with m codec_lib.tx_decode [OF assms(1) m(1)] show ?thesis by (simp add: storableTx_def evmTxOf_def)
qed

lemma convert_hash: "convertUtxoInfoToTx D C tx i height hash = Ok m \<Longrightarrow> mtx_HashId m = d_HexToHash D (raw_Txid tx)"
  by (elim convert_Ok)

lemma derive_convert:
  "m \<in> set (derive D C skip height hash i txs) \<Longrightarrow>
   \<exists>tx \<in> set txs. \<exists>j. \<not> skip tx \<and> convertUtxoInfoToTx D C tx j height hash = Ok m"
proof (induction txs arbitrary: i)
  case (Cons tx txs)
  show ?case
  proof (cases "skip tx \<or> ok_option (convertUtxoInfoToTx D C tx i height hash) = None")
    case True
    then have "derive D C skip height hash i (tx # txs) = derive D C skip height hash i txs" by auto
    with Cons.prems Cons.IH [of i] show ?thesis by auto
  next
    case False
    then obtain m' where m': "ok_option (convertUtxoInfoToTx D C tx i height hash) = Some m'" "\<not> skip tx" by auto
    then have "convertUtxoInfoToTx D C tx i height hash = Ok m'" by (auto simp: ok_option_def split: outcome.splits)
    with m' Cons.prems Cons.IH [of "i + 1"] show ?thesis by auto
  qed
qed simp

text \<open>Every delivered transaction is the conversion of one that was not in the store.\<close>

lemma GetNewTxs_origin:
  assumes "GetNewTxs D pick C isTxMined height hash scanBlock b = Ok (txs, b')" and "t \<in> set txs"
  shows "\<exists>tx j. convertUtxoInfoToTx D C tx j height hash = Ok t \<and>
    (\<not> isTxMined (raw_Txid tx) \<or>
     (\<exists>h. GetRawTransactionVerbose C h = Ok tx \<and> \<not> isTxMined (d_HashString D h)))"
  using assms(1)
proof (rule GetNewTxs_parts)
  fix blk b1
  assume blk: "blk = derive D C (skipTx b isTxMined) height hash 0
       (chainTxs C (bs_LatestScanBlockHeight b + 1) (bs_LatestScanBlockHeight b1))"
    and r: "bs_MaxTxsInBlock b \<le> int (length blk) \<and> txs = blk \<and> b' = b1 \<or>
     int (length blk) < bs_MaxTxsInBlock b \<and>
       (\<exists>hs. GetRawMempool C = Ok hs \<and>
         mempoolLoop D pick C isTxMined (int (length blk)) height hash hs (blk, b1) = Ok (txs, b'))"
  obtain new where txs: "txs = blk @ new"
    and new: "\<forall>m \<in> set new. \<exists>h tx. \<not> isTxMined (d_HashString D h) \<and> GetRawTransactionVerbose C h = Ok tx \<and>
      convertUtxoInfoToTx D C tx (int (length blk)) height hash = Ok m"
    using r mempoolLoop_sound by (metis append_Nil2 empty_iff empty_set)
  from assms(2) txs consider "t \<in> set blk" | "t \<in> set new" by auto
  then show ?thesis
  proof cases
    case 1
    with derive_convert blk obtain tx j where "\<not> skipTx b isTxMined tx" "convertUtxoInfoToTx D C tx j height hash = Ok t"
      by metis
    then show ?thesis by (auto simp: skipTx_def)
  next
    case 2
    with new show ?thesis by blast
  qed
qed

lemma GetNewTxs_scan_height:
  assumes "GetNewTxs D pick C isTxMined height hash scanBlock b = Ok (txs, b')" and "nodeOk D C"
  shows "bs_LatestScanBlockHeight b \<le> bs_LatestScanBlockHeight b' \<and>
    (scanBlock \<or> bs_LatestScanBlockHeight b' = bs_LatestScanBlockHeight b) \<and>
    (is_i64 (bs_LatestScanBlockHeight b) \<longrightarrow> is_i64 (bs_LatestScanBlockHeight b'))"
proof (cases scanBlock)
  case True
  then obtain blk i b1 where c: "collectMainChainBlockTxs D C isTxMined height hash 0 b = Ok (blk, i, b1)"
    using assms(1) by (auto simp: GetNewTxs_def split: outcome.splits)
  obtain newest where "GetBlockCount C = Ok newest" "bs_LatestScanBlockHeight b \<le> bs_LatestScanBlockHeight b1"
    "bs_LatestScanBlockHeight b1 \<le> newest \<or> bs_LatestScanBlockHeight b1 = bs_LatestScanBlockHeight b"
    using c by (rule collect_closed) simp
  moreover have "is_i64 newest" if "GetBlockCount C = Ok newest" for newest
    using assms(2) that by (simp add: nodeOk_def)
  moreover have "bs_LatestScanBlockHeight b' = bs_LatestScanBlockHeight b1"
    using assms(1) True c by (auto simp: GetNewTxs_def split: if_splits outcome.splits dest: mempoolLoop_frame)
  ultimately show ?thesis using True by (auto simp: is_i64_def)
next
  case False
  with assms(1) show ?thesis
    by (auto simp: GetNewTxs_def split: if_splits outcome.splits dest: mempoolLoop_frame)
qed

locale bch_scanner = codec_lib D for D :: deps +
  fixes pick :: "string set \<Rightarrow> string" and C :: BchClient
  assumes node_ok: "nodeOk D C"

text \<open>The BCH scanner keeps the contract, for every node that answers consistently.\<close>

sublocale bch_scanner \<subseteq> sc: iscanner "bchScanner D pick C" D
proof unfold_locales
  fix h s isMined hash scanBlock txs s' t
  show "sc_GetLatestScanHeight (bchScanner D pick C) (sc_SetLatestScanHeight (bchScanner D pick C) h s) = h"
    by (simp add: bchScanner_def GetLatestScanHeight_def)
  assume g: "sc_GetNewTxs (bchScanner D pick C) isMined h hash scanBlock s = Ok (txs, s')"
  then have g': "GetNewTxs D pick C isMined h hash scanBlock s = Ok (txs, s')" by (simp add: bchScanner_def)
  show "list_all (storableTx D) txs"
    using GetNewTxs_origin [OF g'] convert_storableTx [OF codec_lib_axioms] by (fastforce simp: list_all_iff)
  show "sc_GetLatestScanHeight (bchScanner D pick C) s \<le> sc_GetLatestScanHeight (bchScanner D pick C) s' \<and>
      (scanBlock \<or> sc_GetLatestScanHeight (bchScanner D pick C) s' = sc_GetLatestScanHeight (bchScanner D pick C) s) \<and>
      (is_i64 (sc_GetLatestScanHeight (bchScanner D pick C) s) \<longrightarrow>
        is_i64 (sc_GetLatestScanHeight (bchScanner D pick C) s'))"
    using GetNewTxs_scan_height [OF g' node_ok] by (simp add: bchScanner_def GetLatestScanHeight_def)
  assume "t \<in> set txs"
  from GetNewTxs_origin [OF g' this] obtain tx j where c: "convertUtxoInfoToTx D C tx j h hash = Ok t"
    and m: "\<not> isMined (raw_Txid tx) \<or> (\<exists>h. GetRawTransactionVerbose C h = Ok tx \<and> \<not> isMined (d_HashString D h))"
    by blast
  from m node_ok have "\<not> isMined (raw_Txid tx)" by (auto simp: nodeOk_def)
  with convert_hash [OF c] show "\<exists>txid. d_HexToHash D txid = mtx_HashId t \<and> \<not> isMined txid" by auto
qed

context bch_scanner
begin

lemma iscanner_bch: "iscanner (bchScanner D pick C) D"
  by (rule sc.iscanner_axioms)

end

lemma exNode_ok: "nodeOk ref_deps exNode"
  by (simp add: nodeOk_def exNode_def exOrigin_def exTx_def is_i64_def) (simp add: ref_deps_def)

interpretation exScanner: bch_scanner ref_deps exPick exNode
  by unfold_locales (rule exNode_ok)

section \<open>Generating blocks\<close>

text \<open>What a round does: nothing but moving the scanner, or adding one block.\<close>

lemma GenerateNewBlock_cases:
  assumes "GenerateNewBlock D E I S now scanBlock v = Ok v'"
  obtains
    (idle) s where "\<not> scanBlock"
      "sc_GetNewTxs I (\<lambda>txid. st_IsTxMined S txid (vc_Store v) = Ok True) (vc_CurrentBlockHeight v + 1)
         (blockHash (vc_ChainName v) (vc_CurrentBlockHeight v)) scanBlock (vc_Scanner v) = Ok ([], s)"
      "v' = v\<lparr>vc_Scanner := s\<rparr>"
  | (block) txs s info blk where
      "sc_GetNewTxs I (\<lambda>txid. st_IsTxMined S txid (vc_Store v) = Ok True) (vc_CurrentBlockHeight v + 1)
         (blockHash (vc_ChainName v) (vc_CurrentBlockHeight v)) scanBlock (vc_Scanner v) = Ok (txs, s)"
      "scanBlock \<or> txs \<noteq> []"
      "d_MarshalBlock D (evmBlockOf (v\<lparr>vc_CurrentBlockHeight := vc_CurrentBlockHeight v + 1,
         vc_CurrentBlockTimestamp := now, vc_CurrentBlockHash := blockHash (vc_ChainName v) (vc_CurrentBlockHeight v)\<rparr>)
         (sc_GetLatestScanHeight I s) txs) = Ok info"
      "blk = \<lparr>mblk_Height = vc_CurrentBlockHeight v + 1, mblk_BlockHash = blockHash (vc_ChainName v) (vc_CurrentBlockHeight v),
         mblk_BlockInfo = info, mblk_TxList = txs\<rparr>"
      "v' = publishNewBlock E blk (v\<lparr>vc_Scanner := s, vc_CurrentBlockHeight := vc_CurrentBlockHeight v + 1,
         vc_CurrentBlockTimestamp := now, vc_CurrentBlockHash := blockHash (vc_ChainName v) (vc_CurrentBlockHeight v),
         vc_Store := st_AddBlock S (Some blk) (vc_Store v)\<rparr>)"
proof -
  let ?g = "sc_GetNewTxs I (\<lambda>txid. st_IsTxMined S txid (vc_Store v) = Ok True) (vc_CurrentBlockHeight v + 1)
         (blockHash (vc_ChainName v) (vc_CurrentBlockHeight v)) scanBlock (vc_Scanner v)"
  obtain txs s where g: "?g = Ok (txs, s)"
    using assms by (cases ?g) (auto simp: GenerateNewBlock_def Let_def)
  show ?thesis
  proof (cases "txs = [] \<and> \<not> scanBlock")
    case True
    with assms g show ?thesis by (intro idle) (auto simp: GenerateNewBlock_def Let_def)
  next
    case False
    let ?e = "evmBlockOf (v\<lparr>vc_CurrentBlockHeight := vc_CurrentBlockHeight v + 1,
         vc_CurrentBlockTimestamp := now, vc_CurrentBlockHash := blockHash (vc_ChainName v) (vc_CurrentBlockHeight v)\<rparr>)
         (sc_GetLatestScanHeight I s) txs"
    have e: "evmBlockOf (v\<lparr>vc_Scanner := s, vc_CurrentBlockHeight := vc_CurrentBlockHeight v + 1,
         vc_CurrentBlockTimestamp := now, vc_CurrentBlockHash := blockHash (vc_ChainName v) (vc_CurrentBlockHeight v)\<rparr>)
         (sc_GetLatestScanHeight I s) txs = ?e" by (simp add: evmBlockOf_def)
    obtain info where i: "d_MarshalBlock D ?e = Ok info"
      using assms False g e by (cases "d_MarshalBlock D ?e") (auto simp: GenerateNewBlock_def Let_def)
    show ?thesis
      using assms False g by (intro block [OF g _ i refl]) (auto simp: GenerateNewBlock_def Let_def e i)
  qed
qed

lemma publishNewBlock_fields [simp]:
  "vc_Scanner (publishNewBlock E b v) = vc_Scanner v" "vc_Store (publishNewBlock E b v) = vc_Store v"
  "vc_BlockInterval (publishNewBlock E b v) = vc_BlockInterval v"
  "vc_ChainName (publishNewBlock E b v) = vc_ChainName v" "vc_ChainID (publishNewBlock E b v) = vc_ChainID v"
  "vc_GenesisMainChainBlockHeight (publishNewBlock E b v) = vc_GenesisMainChainBlockHeight v"
  "vc_PrevBlockHash (publishNewBlock E b v) = vc_PrevBlockHash v"
  "vc_CurrentBlockHeight (publishNewBlock E b v) = vc_CurrentBlockHeight v"
  "vc_CurrentBlockTimestamp (publishNewBlock E b v) = vc_CurrentBlockTimestamp v"
  "vc_CurrentBlockHash (publishNewBlock E b v) = vc_CurrentBlockHash v"
  "vc_chainFeed (publishNewBlock E b v) = vc_chainFeed v @ [E b]"
  "vc_logsFeed (publishNewBlock E b v) = vc_logsFeed v @ (if ce_Logs (E b) = [] then [] else [ce_Logs (E b)])"
  by (simp_all add: publishNewBlock_def Let_def)

section \<open>The chain as a state machine\<close>

text \<open>
  A chain starts on an empty store, generates blocks, and may stop at any time between two blocks
  and start again: what it keeps in memory is lost, the store stays.
\<close>

definition forget :: "'s \<Rightarrow> ('s, 'db) VirtualChain \<Rightarrow> ('s, 'db) VirtualChain" where
  "forget s v = v\<lparr>vc_Scanner := s, vc_PrevBlockHash := zeros 32, vc_CurrentBlockHeight := 0,
     vc_CurrentBlockTimestamp := 0, vc_CurrentBlockHash := zeros 32, vc_chainFeed := [], vc_logsFeed := []\<rparr>"

inductive reachable ::
  "deps \<Rightarrow> (ModbBlock \<Rightarrow> ChainEvent) \<Rightarrow> 's IScanner set \<Rightarrow> 'db IStore \<Rightarrow> ('s, 'db) VirtualChain \<Rightarrow>
   ('s, 'db) VirtualChain \<Rightarrow> bool"
  for D E Is S v0 where
  boot: "I \<in> Is \<Longrightarrow> RecoveryFromDB I S now v0 = Ok v \<Longrightarrow> reachable D E Is S v0 v"
| generate: "reachable D E Is S v0 v \<Longrightarrow> I \<in> Is \<Longrightarrow> GenerateNewBlock D E I S now scanBlock v = Ok v' \<Longrightarrow>
    reachable D E Is S v0 v'"
| restart: "reachable D E Is S v0 v \<Longrightarrow> I \<in> Is \<Longrightarrow> RecoveryFromDB I S now (forget s v) = Ok v' \<Longrightarrow>
    reachable D E Is S v0 v'"

inductive_cases reachableE: "reachable D E Is S v0 v"

text \<open>The scan height a block records, as recovery reads it.\<close>

definition recordedHeight :: "deps \<Rightarrow> int \<Rightarrow> ModbBlock list \<Rightarrow> int" where
  "recordedHeight D genesis bs =
     (let h = (if bs = [] then 0 else as_i64 (eblk_GasUsed (decodedBlock D (last bs))))
      in if h = 0 then genesis else h)"

text \<open>No transaction is in two blocks.\<close>

definition blockIds :: "ModbBlock \<Rightarrow> bytes set" where
  "blockIds b = mtx_HashId ` set (mblk_TxList b)"

definition allIds :: "ModbBlock list \<Rightarrow> bytes set" where
  "allIds bs = (\<Union>b \<in> set bs. blockIds b)"

fun separate :: "ModbBlock list \<Rightarrow> bool" where
  "separate [] = True"
| "separate (b # bs) = (blockIds b \<inter> allIds bs = {} \<and> separate bs)"

lemma separate_snoc: "separate (bs @ [b]) \<longleftrightarrow> separate bs \<and> blockIds b \<inter> allIds bs = {}"
  by (induction bs) (auto simp: allIds_def)

lemma allIds_allTxs: "mtx_HashId ` set (allTxs bs) = allIds bs"
  by (auto simp: allIds_def blockIds_def allTxs_def)

text \<open>
  The stored blocks: well-formed, numbered from 1, each named by the hash of the chain's name and
  the height before, with no timestamp, and with no transaction twice.
\<close>

definition blocksOk :: "deps \<Rightarrow> string \<Rightarrow> ModbBlock list \<Rightarrow> bool" where
  "blocksOk D name bs \<longleftrightarrow>
     list_all (storable D) bs \<and>
     map mblk_Height bs = [1..int (length bs)] \<and>
     map mblk_BlockHash bs = map (blockHash name) [0..int (length bs) - 1] \<and>
     list_all (\<lambda>b. eblk_Timestamp (decodedBlock D b) = 0) bs \<and>
     separate bs"

text \<open>What the chain has in memory agrees with its blocks; \<open>sh\<close> is the scanner's height.\<close>

definition headOk :: "deps \<Rightarrow> int \<Rightarrow> ModbBlock list \<Rightarrow> ('s, 'db) VirtualChain \<Rightarrow> bool" where
  "headOk D sh bs v \<longleftrightarrow>
     vc_CurrentBlockHeight v = int (length bs) \<and>
     vc_CurrentBlockHash v = (if bs = [] then zeros 32 else mblk_BlockHash (last bs)) \<and>
     0 \<le> vc_GenesisMainChainBlockHeight v \<and> is_i64 (vc_GenesisMainChainBlockHeight v) \<and>
     vc_GenesisMainChainBlockHeight v \<le> sh \<and> is_i64 sh \<and>
     recordedHeight D (vc_GenesisMainChainBlockHeight v) bs = sh"

definition chainInv :: "deps \<Rightarrow> ('db \<Rightarrow> ModbBlock list) \<Rightarrow> ('s \<Rightarrow> int) \<Rightarrow> ('s, 'db) VirtualChain \<Rightarrow> bool" where
  "chainInv D blocks get v \<longleftrightarrow>
     blocksOk D (vc_ChainName v) (blocks (vc_Store v)) \<and>
     headOk D (get (vc_Scanner v)) (blocks (vc_Store v)) v"

lemma headOk_scanner [simp]: "headOk D sh bs (v\<lparr>vc_Scanner := s\<rparr>) = headOk D sh bs v"
  by (simp add: headOk_def)

lemma upto_snoc: "0 \<le> n \<Longrightarrow> [lo..n + lo] = [lo..n + lo - 1] @ [n + lo]" for n lo :: int
  by (subst upto_rec2) auto

text \<open>One more block keeps the blocks in order.\<close>

lemma blocksOk_snoc:
  assumes "blocksOk D name bs" and "storable D b" and "mblk_Height b = int (length bs) + 1"
    and "mblk_BlockHash b = blockHash name (int (length bs))" and "eblk_Timestamp (decodedBlock D b) = 0"
    and "blockIds b \<inter> allIds bs = {}"
  shows "blocksOk D name (bs @ [b])"
proof -
  have "[1..int (length bs) + 1] = [1..int (length bs)] @ [int (length bs) + 1]"
    "[0..int (length bs)] = [0..int (length bs) - 1] @ [int (length bs)]"
    using upto_snoc [of "int (length bs)" 1] upto_snoc [of "int (length bs)" 0] by simp_all
  with assms show ?thesis by (simp add: blocksOk_def separate_snoc add.commute)
qed

lemma last_upto: "lo \<le> hi \<Longrightarrow> last [lo..hi] = hi" for lo hi :: int
  by (simp add: upto_rec2)

lemma blocksOk_last:
  assumes "blocksOk D name bs" and "bs \<noteq> []"
  shows "mblk_Height (last bs) = int (length bs)" and "mblk_BlockHash (last bs) = blockHash name (int (length bs) - 1)"
    and "eblk_Timestamp (decodedBlock D (last bs)) = 0"
proof -
  have l: "1 \<le> int (length bs)" using assms(2) by (cases bs) simp_all
  then have "last (map mblk_Height bs) = int (length bs)"
    using assms(1) by (simp add: blocksOk_def last_upto)
  then show "mblk_Height (last bs) = int (length bs)" using assms(2) by (simp add: last_map)
  have "last (map mblk_BlockHash bs) = blockHash name (int (length bs) - 1)"
    using assms l last_map [of "[0..int (length bs) - 1]" "blockHash name"]
    by (simp add: blocksOk_def last_upto)
  then show "mblk_BlockHash (last bs) = blockHash name (int (length bs) - 1)" using assms(2) by (simp add: last_map)
  show "eblk_Timestamp (decodedBlock D (last bs)) = 0" using assms by (simp add: blocksOk_def list_all_iff)
qed

locale chain_system = istore S D blocks + codec_lib D
  for S :: "'db IStore" and D :: deps and blocks :: "'db \<Rightarrow> ModbBlock list" +
  fixes Is :: "'s IScanner set" and get :: "'s \<Rightarrow> int"
  assumes scanners: "I \<in> Is \<Longrightarrow> iscanner I D"
    and getter: "I \<in> Is \<Longrightarrow> sc_GetLatestScanHeight I = get"
begin

text \<open>The block a round adds.\<close>

lemma new_block:
  assumes v: "list_all (storable D) (blocks (vc_Store v))" and I: "I \<in> Is"
    and g: "sc_GetNewTxs I (\<lambda>txid. st_IsTxMined S txid (vc_Store v) = Ok True) h hash scanBlock s0 = Ok (txs, s)"
    and m: "d_MarshalBlock D e = Ok info" "eblk_Number e = h" "eblk_Hash e = hash"
    and b: "b = \<lparr>mblk_Height = h, mblk_BlockHash = hash, mblk_BlockInfo = info, mblk_TxList = txs\<rparr>"
  shows "storable D b" and "decodedBlock D b = e" and "blockIds b \<inter> allIds (blocks (vc_Store v)) = {}"
proof -
  note dec = block_decode [OF m(1)]
  show "decodedBlock D b = e" using dec by (simp add: decodedBlock_def b)
  show "storable D b"
    using dec m(2,3) iscanner.storable_txs [OF scanners [OF I] g] by (simp add: storable_def b)
  have "mtx_HashId t \<notin> allIds (blocks (vc_Store v))" if t: "t \<in> set txs" for t
  proof -
    obtain txid where "d_HexToHash D txid = mtx_HashId t" "st_IsTxMined S txid (vc_Store v) \<noteq> Ok True"
      using iscanner.fresh_txs [OF scanners [OF I] g t] by blast
    then show ?thesis using mined [OF v, of txid] by (auto simp: allIds_allTxs)
  qed
  then show "blockIds b \<inter> allIds (blocks (vc_Store v)) = {}" by (auto simp: blockIds_def b)
qed

lemma chainInv_generate:
  assumes inv: "chainInv D blocks get v" and I: "I \<in> Is"
    and g: "GenerateNewBlock D E I S now scanBlock v = Ok v'"
  shows "chainInv D blocks get v'"
  using g
proof (cases rule: GenerateNewBlock_cases)
  case (idle s)
  then have "get s = get (vc_Scanner v)"
    using iscanner.scan_height [OF scanners [OF I] idle(2)] getter [OF I] by simp
  with inv idle(3) show ?thesis by (simp add: chainInv_def)
next
  case (block txs s info blk)
  let ?bs = "blocks (vc_Store v)"
  have bo: "blocksOk D (vc_ChainName v) ?bs" and ho: "headOk D (get (vc_Scanner v)) ?bs v"
    using inv by (simp_all add: chainInv_def)
  have all: "list_all (storable D) ?bs" using bo by (simp add: blocksOk_def)
  note new = new_block [OF all I block(1) block(3) _ _ block(4)]
  have sh: "get (vc_Scanner v) \<le> get s" "is_i64 (get s)"
    using iscanner.scan_height [OF scanners [OF I] block(1)] getter [OF I] ho by (simp_all add: headOk_def)
  have dec: "eblk_Timestamp (decodedBlock D blk) = 0" "eblk_GasUsed (decodedBlock D blk) = as_u64 (get s)"
    using new(2) getter [OF I] by (simp_all add: evmBlockOf_def)
  have "blocksOk D (vc_ChainName v) (?bs @ [blk])"
    using bo ho new(1,3) dec(1) by (intro blocksOk_snoc) (simp_all add: evmBlockOf_def headOk_def block(4))
  moreover have "recordedHeight D (vc_GenesisMainChainBlockHeight v) (?bs @ [blk]) = get s"
    using sh ho dec(2) by (auto simp: recordedHeight_def as_i64_as_u64 headOk_def Let_def)
  then have "headOk D (get s) (?bs @ [blk]) v'"
    using ho sh by (simp add: headOk_def block(5)) (simp add: block(4))
  ultimately show ?thesis by (simp add: chainInv_def block(5) add_block)
qed

text \<open>Recovery brings back what the blocks say.\<close>

lemma recovery:
  assumes bo: "blocksOk D name (blocks (vc_Store v))" and I: "I \<in> Is"
  shows "\<exists>v' s ts. RecoveryFromDB I S now v = Ok v' \<and>
    v' = v\<lparr>vc_CurrentBlockHeight := int (length (blocks (vc_Store v))), vc_CurrentBlockTimestamp := ts,
      vc_CurrentBlockHash := (if blocks (vc_Store v) = [] then zeros 32 else mblk_BlockHash (last (blocks (vc_Store v)))),
      vc_PrevBlockHash := (if blocks (vc_Store v) = [] then zeros 32 else mblk_BlockHash (last (blocks (vc_Store v)))),
      vc_Scanner := s\<rparr> \<and>
    get s = recordedHeight D (vc_GenesisMainChainBlockHeight v) (blocks (vc_Store v)) \<and>
    (if blocks (vc_Store v) = [] then ts = now else ts = 0)"
proof (cases "blocks (vc_Store v) = []")
  case True
  with latest_none [OF True] iscanner.set_get [OF scanners [OF I]] getter [OF I] show ?thesis
    by (auto simp: RecoveryFromDB_def recordedHeight_def Let_def)
next
  case False
  have all: "list_all (storable D) (blocks (vc_Store v))" using bo by (simp add: blocksOk_def)
  from False latest [OF all False] blocksOk_last [OF bo False] iscanner.set_get [OF scanners [OF I]] getter [OF I]
  show ?thesis by (auto simp: RecoveryFromDB_def recordedHeight_def Let_def)
qed

lemma recordedHeight_ok:
  assumes "headOk D sh bs v"
  shows "vc_GenesisMainChainBlockHeight v \<le> recordedHeight D (vc_GenesisMainChainBlockHeight v) bs \<and>
    is_i64 (recordedHeight D (vc_GenesisMainChainBlockHeight v) bs)"
  using assms by (auto simp: headOk_def)

lemma chainInv_recovery:
  assumes bo: "blocksOk D (vc_ChainName v) (blocks (vc_Store v))" and I: "I \<in> Is"
    and r: "RecoveryFromDB I S now v = Ok v'"
    and g: "0 \<le> vc_GenesisMainChainBlockHeight v" "is_i64 (vc_GenesisMainChainBlockHeight v)"
      "vc_GenesisMainChainBlockHeight v \<le> recordedHeight D (vc_GenesisMainChainBlockHeight v) (blocks (vc_Store v))"
      "is_i64 (recordedHeight D (vc_GenesisMainChainBlockHeight v) (blocks (vc_Store v)))"
  shows "chainInv D blocks get v'"
  using recovery [OF bo I, of now] r bo g by (auto simp: chainInv_def headOk_def)

lemma forget_fields [simp]:
  "vc_Store (forget s v) = vc_Store v" "vc_ChainName (forget s v) = vc_ChainName v"
  "vc_GenesisMainChainBlockHeight (forget s v) = vc_GenesisMainChainBlockHeight v"
  by (simp_all add: forget_def)

lemma reachable_chainInv:
  assumes "reachable D E Is S v0 v"
    and "blocks (vc_Store v0) = []" and "0 \<le> vc_GenesisMainChainBlockHeight v0"
    and "is_i64 (vc_GenesisMainChainBlockHeight v0)"
  shows "chainInv D blocks get v"
  using assms(1)
proof induction
  case (boot I now v)
  then show ?case
    using assms(2-4) by (intro chainInv_recovery [OF _ boot]) (simp_all add: blocksOk_def recordedHeight_def)
next
  case (generate v I now scanBlock v')
  then show ?case using chainInv_generate by blast
next
  case (restart v I now s v')
  then have inv: "blocksOk D (vc_ChainName v) (blocks (vc_Store v))"
    "headOk D (get (vc_Scanner v)) (blocks (vc_Store v)) v" by (simp_all add: chainInv_def)
  with restart recordedHeight_ok [OF inv(2)] show ?case
    by (intro chainInv_recovery [of "forget s v" I]) (simp_all add: headOk_def)
qed

end

section \<open>The BCH chain\<close>

definition bchScanners :: "deps \<Rightarrow> BchScanner IScanner set" where
  "bchScanners D = {bchScanner D pick C |pick C. nodeOk D C}"

locale bch_chain = chainlogdb M blocks D + codec_lib D
  for M :: "'db modb" and blocks :: "'db \<Rightarrow> ModbBlock list" and D :: deps

text \<open>The BCH scanner and \<open>ChainLogDB\<close> make such a system.\<close>

sublocale bch_chain \<subseteq> sys: chain_system "ChainLogDB D M" D blocks "bchScanners D" bs_LatestScanBlockHeight
proof (rule chain_system.intro [OF db.istore_axioms codec_lib_axioms], rule chain_system_axioms.intro)
  fix I
  assume "I \<in> bchScanners D"
  then obtain pick C where I: "I = bchScanner D pick C" and n: "nodeOk D C" by (auto simp: bchScanners_def)
  show "iscanner I D"
    unfolding I by (rule bch_scanner.iscanner_bch) (rule bch_scanner.intro [OF codec_lib_axioms bch_scanner_axioms.intro [OF n]])
  show "sc_GetLatestScanHeight I = bs_LatestScanBlockHeight"
    by (intro ext) (simp add: I bchScanner_def GetLatestScanHeight_def)
qed

context bch_chain
begin

lemmas inv_reachable = sys.reachable_chainInv

lemma system: "chain_system (ChainLogDB D M) D blocks (bchScanners D) bs_LatestScanBlockHeight"
  by (rule sys.chain_system_axioms)

end

interpretation exChain: bch_chain listModb "\<lambda>db. db" ref_deps ..

lemma bch_reachable_chainInv:
  assumes "modb_lib M blocks" and "codec_lib D" and "reachable D E (bchScanners D) (ChainLogDB D M) v0 v"
    and "blocks (vc_Store v0) = []" and "0 \<le> vc_GenesisMainChainBlockHeight v0"
    and "is_i64 (vc_GenesisMainChainBlockHeight v0)"
  shows "chainInv D blocks bs_LatestScanBlockHeight v"
  using bch_chain.inv_reachable [OF bch_chain.intro [OF chainlogdb.intro [OF assms(1)] assms(2)] assms(3-)] .

lemma bch_chain_system:
  assumes "modb_lib M blocks" and "codec_lib D"
  shows "chain_system (ChainLogDB D M) D blocks (bchScanners D) bs_LatestScanBlockHeight"
  by (rule bch_chain.system) (rule bch_chain.intro [OF chainlogdb.intro [OF assms(1)] assms(2)])

lemma bchScanner_in: "nodeOk D C \<Longrightarrow> bchScanner D pick C \<in> bchScanners D"
  by (auto simp: bchScanners_def)

section \<open>An example chain\<close>

definition exEvent :: "ModbBlock \<Rightarrow> ChainEvent" where
  "exEvent b = \<lparr>ce_BlockHeader = \<lparr>hdr_Number = mblk_Height b, hdr_BlockHash = mblk_BlockHash b\<rparr>, ce_Logs = []\<rparr>"

definition exChain0 :: "(BchScanner, ModbBlock list) VirtualChain" where
  "exChain0 = \<lparr>vc_Scanner = NewBchScanner 1, vc_Store = [], vc_BlockInterval = 5,
     vc_ChainName = ''virtual Bitcoin Cash'', vc_ChainID = zeros 32, vc_GenesisMainChainBlockHeight = 0,
     vc_PrevBlockHash = zeros 32, vc_CurrentBlockHeight = 0, vc_CurrentBlockTimestamp = 0,
     vc_CurrentBlockHash = zeros 32, vc_chainFeed = [], vc_logsFeed = []\<rparr>"

abbreviation exSc :: "BchScanner IScanner" where
  "exSc \<equiv> bchScanner ref_deps exPick exNode"

abbreviation exS :: "ModbBlock list IStore" where
  "exS \<equiv> ChainLogDB ref_deps listModb"

text \<open>The chain after recovery from the empty store at time 100.\<close>

definition exChain1 :: "(BchScanner, ModbBlock list) VirtualChain" where
  "exChain1 = exChain0\<lparr>vc_CurrentBlockTimestamp := 100\<rparr>"

lemma exChain_boot: "RecoveryFromDB exSc exS 100 exChain0 = Ok exChain1"
proof -
  have "GetLatestBlockInfo ref_deps listModb 100 [] = Ok (0, 100, zeros 32, 0)"
    using istore.latest_none [OF chainlogdb_istore [OF listModb.modb_lib_axioms], of "[]"] by simp
  moreover have "SetLatestScanHeight 0 (NewBchScanner 1) = NewBchScanner 1"
    by (simp add: NewBchScanner_def SetLatestScanHeight_def)
  ultimately show ?thesis by (simp add: RecoveryFromDB_def exChain0_def exChain1_def bchScanner_def)
qed

text \<open>Its first block: the transaction of \<open>exTx\<close>, found in the only main chain block.\<close>

lemma exChain_block:
  obtains m b v where "GenerateNewBlock ref_deps exEvent exSc exS 105 True exChain1 = Ok v"
    "vc_Store v = [b]" "mblk_TxList b = [m]" "bs_LatestScanBlockHeight (vc_Scanner v) = 1"
    "bs_MaxTxsInBlock (vc_Scanner v) = 1"
    "mtx_HashId m = d_HexToHash ref_deps (raw_Txid exTx)"
proof -
  let ?mined = "\<lambda>txid. IsTxMined ref_deps listModb txid [] = Ok True"
  let ?hash = "blockHash ''virtual Bitcoin Cash'' 0"
  have "\<not> ?mined (raw_Txid exTx)"
    by (simp add: IsTxMined_def GetTxByHash_def listModb_def allTxs_def)
  then obtain m b where g: "GetNewTxs ref_deps exPick exNode ?mined 1 ?hash True (NewBchScanner 1) = Ok ([m], b)"
    "bs_LatestScanBlockHeight b = 1" "bs_MaxTxsInBlock b = 1"
    "convertUtxoInfoToTx ref_deps exNode exTx 0 1 ?hash = Ok m"
    by (rule exNode_blocks [of ?mined 1 ?hash])
  define blk where "blk = \<lparr>mblk_Height = 1, mblk_BlockHash = ?hash, mblk_BlockInfo =
     enc_block (evmBlockOf (exChain1\<lparr>vc_CurrentBlockHeight := 1, vc_CurrentBlockTimestamp := 105,
       vc_CurrentBlockHash := ?hash\<rparr>) 1 [m]), mblk_TxList = [m]\<rparr>"
  have mar: "d_MarshalBlock ref_deps e = Ok (enc_block e)" for e by (simp add: ref_deps_def)
  have add: "AddBlock listModb (Some x) db = db @ [x]" for x db by (simp add: AddBlock_def listModb_def)
  have "GenerateNewBlock ref_deps exEvent exSc exS 105 True exChain1 =
    Ok (publishNewBlock exEvent blk (exChain1\<lparr>vc_Scanner := b, vc_CurrentBlockHeight := 1,
       vc_CurrentBlockTimestamp := 105, vc_CurrentBlockHash := ?hash, vc_Store := [blk]\<rparr>))"
    using g by (simp add: GenerateNewBlock_def exChain1_def exChain0_def bchScanner_def mar GetLatestScanHeight_def
        add blk_def evmBlockOf_def Let_def)
  then show ?thesis
    by (rule that [of _ blk m]) (simp_all add: blk_def g(2,3) convert_hash [OF g(4)])
qed

lemma exChain_reachable: "reachable ref_deps exEvent (bchScanners ref_deps) exS exChain0 exChain1"
  by (rule reachable.boot [OF bchScanner_in [OF exNode_ok] exChain_boot])

lemma exChain0_start:
  "(\<lambda>db. db) (vc_Store exChain0) = []" "0 \<le> vc_GenesisMainChainBlockHeight exChain0"
  "is_i64 (vc_GenesisMainChainBlockHeight exChain0)"
  by (simp_all add: exChain0_def is_i64_def)

lemma exChain_reachable2:
  "GenerateNewBlock ref_deps exEvent exSc exS 105 True exChain1 = Ok v \<Longrightarrow>
   reachable ref_deps exEvent (bchScanners ref_deps) exS exChain0 v"
  using reachable.generate [OF exChain_reachable bchScanner_in [OF exNode_ok]] .

lemma ref_HashString_exTx: "d_HashString ref_deps (replicate 32 5) = raw_Txid exTx"
  by (simp add: ref_deps_def exTx_def)

text \<open>A second round adds an empty block: the mempool's transaction is in the store already.\<close>

lemma exChain_block2:
  obtains b b2 v where "reachable ref_deps exEvent (bchScanners ref_deps) exS exChain0 v"
    "vc_Store v = [b, b2]" "mblk_TxList b \<noteq> []"
proof (rule exChain_block)
  fix m b v
  assume g: "GenerateNewBlock ref_deps exEvent exSc exS 105 True exChain1 = Ok v"
    and b: "vc_Store v = [b]" "mblk_TxList b = [m]" "bs_LatestScanBlockHeight (vc_Scanner v) = 1"
      "bs_MaxTxsInBlock (vc_Scanner v) = 1" "mtx_HashId m = d_HexToHash ref_deps (raw_Txid exTx)"
  note r = exChain_reachable2 [OF g]
  let ?mined = "\<lambda>txid. IsTxMined ref_deps listModb txid (vc_Store v) = Ok True"
  have "list_all (storable ref_deps) [b]"
    using bch_reachable_chainInv [OF listModb.modb_lib_axioms ref_codec.codec_lib_axioms r exChain0_start] b
    by (simp add: chainInv_def blocksOk_def)
  from istore.mined [OF chainlogdb_istore [OF listModb.modb_lib_axioms] this] b
  have mined: "?mined (raw_Txid exTx)" by (simp add: allTxs_def)
  have node: "GetBlockCount exNode = Ok 1" "GetRawMempool exNode = Ok [replicate 32 5]" by (simp_all add: exNode_def)
  have n: "GetNewTxs ref_deps exPick exNode ?mined h hash True (vc_Scanner v) = Ok ([], vc_Scanner v)" for h hash
    using mined ref_HashString_exTx
    by (simp add: GetNewTxs_def collectMainChainBlockTxs_def heightLoop.simps node b(3,4) Let_def)
  obtain v' b2 where g2: "GenerateNewBlock ref_deps exEvent exSc exS 165 True v = Ok v'" and "vc_Store v' = [b, b2]"
    using n by (simp add: GenerateNewBlock_def bchScanner_def Let_def ref_deps_def [THEN arg_cong, of d_MarshalBlock]
        AddBlock_def listModb_def [THEN arg_cong, of modb_AddBlock] b(1))
  then have "vc_Store v' = [b, b2]" "mblk_TxList b \<noteq> []" using b(2) by simp_all
  then show ?thesis by (rule that [OF reachable.generate [OF r bchScanner_in [OF exNode_ok] g2]])
qed

section \<open>Delivered transactions are in the store\<close>

lemma derive_covers:
  assumes "tx \<in> set txs" and "\<not> skip tx" and "\<And>i. \<exists>m. convertUtxoInfoToTx D C tx i height hash = Ok m"
  shows "d_HexToHash D (raw_Txid tx) \<in> mtx_HashId ` set (derive D C skip height hash i txs)"
  using assms(1)
proof (induction txs arbitrary: i)
  case (Cons x xs)
  show ?case
  proof (cases "x = tx")
    case True
    with assms(2) obtain m where m: "convertUtxoInfoToTx D C x i height hash = Ok m" using assms(3) by blast
    with True assms(2) have "m \<in> set (derive D C skip height hash i (x # xs))" by (simp add: ok_option_def)
    with convert_hash [OF m] True show ?thesis by force
  next
    case False
    with Cons have "\<And>i. d_HexToHash D (raw_Txid tx) \<in> mtx_HashId ` set (derive D C skip height hash i xs)" by simp
    moreover have "set (derive D C skip height hash i xs) \<subseteq> set (derive D C skip height hash i (x # xs)) \<or>
        set (derive D C skip height hash (i + 1) xs) \<subseteq> set (derive D C skip height hash i (x # xs))"
      by (auto split: option.split)
    ultimately show ?thesis by blast
  qed
qed simp

lemma GetNewTxs_covers:
  assumes "GetNewTxs D pick C isTxMined height hash True b = Ok (txs, b')"
    and "tx \<in> set (chainTxs C (bs_LatestScanBlockHeight b + 1) (bs_LatestScanBlockHeight b'))"
    and "\<not> skipTx b isTxMined tx" and "\<And>i. \<exists>m. convertUtxoInfoToTx D C tx i height hash = Ok m"
  shows "d_HexToHash D (raw_Txid tx) \<in> mtx_HashId ` set txs"
  using assms(1)
proof (rule GetNewTxs_parts)
  fix blk b1
  assume blk: "blk = derive D C (skipTx b isTxMined) height hash 0
       (chainTxs C (bs_LatestScanBlockHeight b + 1) (bs_LatestScanBlockHeight b1))"
    and r: "bs_MaxTxsInBlock b \<le> int (length blk) \<and> txs = blk \<and> b' = b1 \<or>
     int (length blk) < bs_MaxTxsInBlock b \<and>
       (\<exists>hs. GetRawMempool C = Ok hs \<and>
         mempoolLoop D pick C isTxMined (int (length blk)) height hash hs (blk, b1) = Ok (txs, b'))"
  have "bs_LatestScanBlockHeight b' = bs_LatestScanBlockHeight b1" using r mempoolLoop_frame by blast
  with assms(2) blk derive_covers [of tx _ "skipTx b isTxMined" D C height hash 0] assms(3,4)
  have "d_HexToHash D (raw_Txid tx) \<in> mtx_HashId ` set blk" by simp
  moreover have "set blk \<subseteq> set txs" using r mempoolLoop_sound by fastforce
  ultimately show ?thesis by blast
qed

section \<open>The parent hash\<close>

lemma GenerateNewBlock_parent:
  assumes "modb_lib M blocks" and "codec_lib D" and g: "GenerateNewBlock D E I (ChainLogDB D M) now scanBlock v = Ok v'"
  shows "vc_PrevBlockHash v' = vc_PrevBlockHash v \<and>
    (\<exists>new. blocks (vc_Store v') = blocks (vc_Store v) @ new \<and>
       list_all (\<lambda>b. eblk_ParentHash (decodedBlock D b) = vc_PrevBlockHash v) new)"
  using g
proof (cases rule: GenerateNewBlock_cases)
  case (idle s)
  then show ?thesis by simp
next
  case (block txs s info blk)
  have "decodedBlock D blk = evmBlockOf (v\<lparr>vc_CurrentBlockHeight := vc_CurrentBlockHeight v + 1,
         vc_CurrentBlockTimestamp := now, vc_CurrentBlockHash := blockHash (vc_ChainName v) (vc_CurrentBlockHeight v)\<rparr>)
         (sc_GetLatestScanHeight I s) txs"
    using codec_lib.block_decode [OF assms(2) block(3)] by (simp add: decodedBlock_def block(4))
  moreover have "blocks (vc_Store v') = blocks (vc_Store v) @ [blk]"
    using istore.add_block [OF chainlogdb_istore [OF assms(1)]] by (simp add: block(5))
  ultimately show ?thesis by (simp add: block(5) evmBlockOf_def)
qed

section \<open>Properties\<close>

text \<open>
  C8: The shape of the chain.  Whatever the nodes answer and however often the program stops and
  starts, the stored blocks are numbered 1, 2, 3, ... without gap, the block at height \<open>h\<close> has the
  hash SHA-256 of the chain's name, a colon and \<open>h - 1\<close>, and the chain's current height and hash
  are those of the last block.
\<close>

theorem chain_blocks_consecutive:
  assumes "modb_lib M blocks" and "codec_lib D" and "reachable D E (bchScanners D) (ChainLogDB D M) v0 v"
    and "blocks (vc_Store v0) = []" and "0 \<le> vc_GenesisMainChainBlockHeight v0"
    and "is_i64 (vc_GenesisMainChainBlockHeight v0)"
  shows "map mblk_Height (blocks (vc_Store v)) = [1..vc_CurrentBlockHeight v] \<and>
    map mblk_BlockHash (blocks (vc_Store v)) =
      map (\<lambda>h. sha256 (bytes_of (vc_ChainName v @ '':'' @ itoa h))) [0..vc_CurrentBlockHeight v - 1] \<and>
    (blocks (vc_Store v) \<noteq> [] \<longrightarrow> vc_CurrentBlockHash v = mblk_BlockHash (last (blocks (vc_Store v))))"
  using bch_reachable_chainInv [OF assms] by (simp add: chainInv_def headOk_def blocksOk_def blockHash_def)

theorem chain_blocks_consecutive_witness:
  "\<exists>b v. reachable ref_deps exEvent (bchScanners ref_deps) exS exChain0 v \<and> vc_Store v = [b] \<and>
     map mblk_Height [b] = [1..vc_CurrentBlockHeight v] \<and> vc_CurrentBlockHash v = mblk_BlockHash b"
proof (rule exChain_block)
  fix m b v
  assume g: "GenerateNewBlock ref_deps exEvent exSc exS 105 True exChain1 = Ok v" and b: "vc_Store v = [b]"
  note r = exChain_reachable2 [OF g]
  from chain_blocks_consecutive [OF listModb.modb_lib_axioms ref_codec.codec_lib_axioms r exChain0_start] b r
  show ?thesis by auto
qed

text \<open>
  C5: No transaction enters the chain twice: two different blocks never hold a transaction with the
  same hash, also across restarts that lose the scanner's cache.
\<close>

theorem no_transaction_in_two_blocks:
  assumes "modb_lib M blocks" and "codec_lib D" and "reachable D E (bchScanners D) (ChainLogDB D M) v0 v"
    and "blocks (vc_Store v0) = []" and "0 \<le> vc_GenesisMainChainBlockHeight v0"
    and "is_i64 (vc_GenesisMainChainBlockHeight v0)"
    and "blocks (vc_Store v) = xs @ b # ys" and "b' \<in> set xs \<union> set ys"
  shows "mtx_HashId ` set (mblk_TxList b) \<inter> mtx_HashId ` set (mblk_TxList b') = {}"
proof -
  have "separate (xs @ b # ys)"
    using bch_reachable_chainInv [OF assms(1-6)] assms(7) by (simp add: chainInv_def blocksOk_def)
  then have "blockIds b \<inter> blockIds b' = {}" using assms(8)
    by (induction xs) (auto simp: allIds_def)
  then show ?thesis by (simp add: blockIds_def)
qed

theorem no_transaction_in_two_blocks_witness:
  "\<exists>b b2. \<exists>v :: (BchScanner, ModbBlock list) VirtualChain. vc_Store v = [b, b2] \<and> mblk_TxList b \<noteq> [] \<and>
     mtx_HashId ` set (mblk_TxList b) \<inter> mtx_HashId ` set (mblk_TxList b2) = {}"
proof (rule exChain_block2)
  fix b b2 and v :: "(BchScanner, ModbBlock list) VirtualChain"
  assume r: "reachable ref_deps exEvent (bchScanners ref_deps) exS exChain0 v"
    and s: "vc_Store v = [b, b2]" "mblk_TxList b \<noteq> []"
  have "(\<lambda>db. db) (vc_Store v) = [] @ b # [b2]" and "b2 \<in> set [] \<union> set [b2]" using s by simp_all
  note no_transaction_in_two_blocks [OF listModb.modb_lib_axioms ref_codec.codec_lib_axioms r exChain0_start this]
  with s show ?thesis by (intro exI [of _ b] exI [of _ b2] exI [of _ v]) simp
qed

text \<open>
  C6: A restart resumes.  From any reachable state, losing all memory (the scanner's too) and
  recovering from the store succeeds and gives the same height, the same hash and the same scan
  height as before, on the same store.
\<close>

theorem restart_resumes:
  assumes "modb_lib M blocks" and "codec_lib D" and "reachable D E (bchScanners D) (ChainLogDB D M) v0 v"
    and "blocks (vc_Store v0) = []" and "0 \<le> vc_GenesisMainChainBlockHeight v0"
    and "is_i64 (vc_GenesisMainChainBlockHeight v0)"
    and "nodeOk D C"
  shows "\<exists>v'. RecoveryFromDB (bchScanner D pick C) (ChainLogDB D M) now (forget s v) = Ok v' \<and>
    vc_CurrentBlockHeight v' = vc_CurrentBlockHeight v \<and> vc_CurrentBlockHash v' = vc_CurrentBlockHash v \<and>
    bs_LatestScanBlockHeight (vc_Scanner v') = bs_LatestScanBlockHeight (vc_Scanner v) \<and>
    vc_Store v' = vc_Store v"
proof -
  have inv: "blocksOk D (vc_ChainName v) (blocks (vc_Store v))"
    "headOk D (bs_LatestScanBlockHeight (vc_Scanner v)) (blocks (vc_Store v)) v"
    using bch_reachable_chainInv [OF assms(1-6)] by (simp_all add: chainInv_def)
  then have "blocksOk D (vc_ChainName v) (blocks (vc_Store (forget s v)))" by (simp add: forget_def)
  from chain_system.recovery [OF bch_chain_system [OF assms(1,2)] this bchScanner_in [OF assms(7)], of pick now] inv(2)
  show ?thesis by (auto simp: headOk_def forget_def)
qed

theorem restart_resumes_witness:
  "\<exists>v v'. GenerateNewBlock ref_deps exEvent exSc exS 105 True exChain1 = Ok v \<and>
     RecoveryFromDB exSc exS 200 (forget (NewBchScanner 1) v) = Ok v' \<and>
     vc_CurrentBlockHeight v' = vc_CurrentBlockHeight v \<and> bs_LatestScanBlockHeight (vc_Scanner v') = 1"
proof (rule exChain_block)
  fix m b v
  assume g: "GenerateNewBlock ref_deps exEvent exSc exS 105 True exChain1 = Ok v"
    and l: "bs_LatestScanBlockHeight (vc_Scanner v) = 1"
  from restart_resumes [OF listModb.modb_lib_axioms ref_codec.codec_lib_axioms exChain_reachable2 [OF g] exChain0_start exNode_ok,
      of exPick 200 "NewBchScanner 1"] l g
  show ?thesis by auto
qed

text \<open>
  The time of the last block does not survive a restart.  Blocks are stored with timestamp 0, so
  that after recovery from a non-empty store the current timestamp is 0 and \<open>Start\<close> never waits
  for the rest of the block interval.
\<close>

lemma recovered_timestamp_is_zero:
  assumes "modb_lib M blocks" and "codec_lib D" and "reachable D E (bchScanners D) (ChainLogDB D M) v0 v"
    and "blocks (vc_Store v0) = []" and "0 \<le> vc_GenesisMainChainBlockHeight v0"
    and "is_i64 (vc_GenesisMainChainBlockHeight v0)"
    and "nodeOk D C" and "blocks (vc_Store v) \<noteq> []"
    and "RecoveryFromDB (bchScanner D pick C) (ChainLogDB D M) now (forget s v) = Ok v'"
  shows "vc_CurrentBlockTimestamp v' = 0 \<and> (vc_BlockInterval v' \<le> now \<longrightarrow> startSleep now v' = 0)"
proof -
  have "blocksOk D (vc_ChainName v) (blocks (vc_Store v))"
    using bch_reachable_chainInv [OF assms(1-6)] by (simp add: chainInv_def)
  then have "blocksOk D (vc_ChainName v) (blocks (vc_Store (forget s v)))" by (simp add: forget_def)
  from chain_system.recovery [OF bch_chain_system [OF assms(1,2)] this bchScanner_in [OF assms(7)], of pick now] assms(8,9)
  have "vc_CurrentBlockTimestamp v' = 0" by (auto simp: forget_def)
  then show ?thesis by (simp add: startSleep_def)
qed

text \<open>
  Blocks are not linked.  \<open>GenerateNewBlock\<close> never moves \<open>PrevBlockHash\<close>: all blocks generated by
  the ticker loop, however many, record the same parent hash, that of the last block before the
  program started.
\<close>

lemma ticks_share_parent:
  assumes "modb_lib M blocks" and "codec_lib D" and "tickLoop D E (ChainLogDB D M) n ticks v = Ok v'"
  shows "\<exists>new. blocks (vc_Store v') = blocks (vc_Store v) @ new \<and>
    list_all (\<lambda>b. eblk_ParentHash (decodedBlock D b) = vc_PrevBlockHash v) new"
  using assms(3)
proof (induction ticks arbitrary: n v)
  case (Cons t ticks)
  obtain now I where t: "t = (now, I)" by (cases t)
  with Cons.prems obtain v1 where g: "GenerateNewBlock D E I (ChainLogDB D M) now (Suc n mod 12 = 0) v = Ok v1"
    and l: "tickLoop D E (ChainLogDB D M) (n + 1) ticks v1 = Ok v'"
    by (cases "GenerateNewBlock D E I (ChainLogDB D M) now (Suc n mod 12 = 0) v") (simp_all add: Let_def)
  from GenerateNewBlock_parent [OF assms(1,2) g] obtain new1 where
    "vc_PrevBlockHash v1 = vc_PrevBlockHash v" "blocks (vc_Store v1) = blocks (vc_Store v) @ new1"
    "list_all (\<lambda>b. eblk_ParentHash (decodedBlock D b) = vc_PrevBlockHash v) new1" by blast
  moreover from Cons.IH [OF l] obtain new2 where "blocks (vc_Store v') = blocks (vc_Store v1) @ new2"
    "list_all (\<lambda>b. eblk_ParentHash (decodedBlock D b) = vc_PrevBlockHash v1) new2" by blast
  ultimately show ?case by (intro exI [of _ "new1 @ new2"]) simp
qed simp

text \<open>
  What a round does.  Without new transactions and without a block scan it changes nothing but
  the scanner; otherwise it stores and publishes one block at the next height, holding exactly the
  transactions the scanner delivered, in order, whose encoded header lists their hashes and records
  the time and the scanner's height.
\<close>

lemma GenerateNewBlock_effect:
  assumes lib: "codec_lib D" and g: "GenerateNewBlock D E I S now scanBlock v = Ok v'"
  shows "\<exists>txs s. sc_GetNewTxs I (\<lambda>txid. st_IsTxMined S txid (vc_Store v) = Ok True) (vc_CurrentBlockHeight v + 1)
      (blockHash (vc_ChainName v) (vc_CurrentBlockHeight v)) scanBlock (vc_Scanner v) = Ok (txs, s) \<and>
    (if txs = [] \<and> \<not> scanBlock then v' = v\<lparr>vc_Scanner := s\<rparr>
     else \<exists>b. mblk_Height b = vc_CurrentBlockHeight v + 1 \<and> mblk_TxList b = txs \<and>
       eblk_Number (decodedBlock D b) = mblk_Height b \<and> eblk_Hash (decodedBlock D b) = mblk_BlockHash b \<and>
       eblk_Transactions (decodedBlock D b) = map mtx_HashId txs \<and> eblk_Size (decodedBlock D b) = now \<and>
       eblk_GasUsed (decodedBlock D b) = as_u64 (sc_GetLatestScanHeight I s) \<and>
       vc_Store v' = st_AddBlock S (Some b) (vc_Store v) \<and> vc_Scanner v' = s \<and>
       vc_CurrentBlockHeight v' = mblk_Height b \<and> vc_CurrentBlockHash v' = mblk_BlockHash b \<and>
       vc_chainFeed v' = vc_chainFeed v @ [E b] \<and>
       vc_logsFeed v' = vc_logsFeed v @ (if ce_Logs (E b) = [] then [] else [ce_Logs (E b)]))"
  using g
proof (cases rule: GenerateNewBlock_cases)
  case (idle s)
  then show ?thesis by auto
next
  case (block txs s info blk)
  have dec: "decodedBlock D blk = evmBlockOf (v\<lparr>vc_CurrentBlockHeight := vc_CurrentBlockHeight v + 1,
         vc_CurrentBlockTimestamp := now, vc_CurrentBlockHash := blockHash (vc_ChainName v) (vc_CurrentBlockHeight v)\<rparr>)
         (sc_GetLatestScanHeight I s) txs"
    using codec_lib.block_decode [OF lib block(3)] by (simp add: decodedBlock_def block(4))
  have "\<not> (txs = [] \<and> \<not> scanBlock)" using block(2) by auto
  then show ?thesis
    using block(1) by (intro exI [of _ txs] exI [of _ s] conjI)
      (simp, simp only: if_False, intro exI [of _ blk], simp add: dec evmBlockOf_def block(5), simp add: block(4))
qed

end
