(* ===== verification/Backend.thy ===== *)
theory Backend
  imports Chain_Props
begin

text \<open>
  api/backend.go and api/service.go: what the RPC services read from a virtual chain.  The
  interface \<open>BackendService\<close> is a record of queries; \<open>NewBackend\<close> answers them from the current
  state of a chain.  Logs are delivered with the confirmations the node reports now, written over
  the first 32 bytes of their data; the theorems show that this is the encoding the log would have
  had with these confirmations.
\<close>

record BackendService =
  bk_ChainId :: int
  bk_BlockByNumber :: "int \<Rightarrow> EvmBlock outcome"
  bk_BlockByHash :: "bytes \<Rightarrow> EvmBlock outcome"
  bk_GetTx :: "bytes \<Rightarrow> (EvmTx \<times> bytes) outcome"
  bk_GetTxListByHeight :: "int \<Rightarrow> (EvmTx list \<times> bytes list) outcome"
  bk_GetRpcMaxLogResults :: int
  bk_QueryLogs ::
    "bytes list \<Rightarrow> bytes list list \<Rightarrow> int \<Rightarrow> int \<Rightarrow>
     (bytes \<Rightarrow> bytes list \<Rightarrow> bytes list \<Rightarrow> bytes list list \<Rightarrow> bool) \<Rightarrow> (EvmLog list \<times> goerr option) outcome"
  bk_LatestHeight :: "int \<Rightarrow> int outcome"

section \<open>Refreshing the confirmations of a log\<close>

text \<open>The loop that flips a hash: \<open>for i, j := 0, 31; i < j; i, j = i+1, j-1\<close>.\<close>

function flipLoop :: "nat \<Rightarrow> nat \<Rightarrow> 'a list \<Rightarrow> 'a list" where
  "flipLoop i j h = (if i < j then flipLoop (i + 1) (j - 1) (h[i := h ! j, j := h ! i]) else h)"
  by pat_completeness auto
termination
  by (relation "measure (\<lambda>(i, j, h). j)") auto

declare flipLoop.simps [simp del]

text \<open>\<open>uint256.NewInt(uint64(c)).Bytes32()\<close>, or all ones for -1.\<close>

definition latestConfirmations :: "deps \<Rightarrow> int \<Rightarrow> bytes" where
  "latestConfirmations D c =
     (let U = d_u256 D
      in if c = - 1 then u_Bytes32 U (u_SetAllOne U) else u_Bytes32 U (u_NewInt U (word_of_int c)))"

definition refreshLog ::
  "deps \<Rightarrow> 's IScanner \<Rightarrow> ('s, 'db) VirtualChain \<Rightarrow> bytes \<Rightarrow> EvmLog \<Rightarrow> EvmLog outcome" where
  "refreshLog D I v txHash l =
     (if 32 \<le> length (log_Data l) then
        (case vcGetConfirmations I (flipLoop 0 31 txHash) v of
           Err e \<Rightarrow> Err e
         | Panic e \<Rightarrow> Panic e
         | Ok c \<Rightarrow> Ok (l\<lparr>log_Data := copy_into (log_Data l) 0 32 (latestConfirmations D c)\<rparr>))
      else Ok l)"

text \<open>The loops over logs and transactions; \<open>f\<close> is the body.\<close>

fun eachOk :: "('a \<Rightarrow> 'b outcome) \<Rightarrow> 'a list \<Rightarrow> 'b list outcome" where
  "eachOk f [] = Ok []"
| "eachOk f (x # xs) =
     (case f x of
        Err e \<Rightarrow> Err e
      | Panic e \<Rightarrow> Panic e
      | Ok y \<Rightarrow>
        (case eachOk f xs of
           Err e \<Rightarrow> Err e
         | Panic e \<Rightarrow> Panic e
         | Ok ys \<Rightarrow> Ok (y # ys)))"

definition refreshTx ::
  "deps \<Rightarrow> 's IScanner \<Rightarrow> ('s, 'db) VirtualChain \<Rightarrow> EvmTx \<Rightarrow> EvmTx outcome" where
  "refreshTx D I v tx =
     (case eachOk (refreshLog D I v (etx_Hash tx)) (etx_Logs tx) of
        Err e \<Rightarrow> Err e
      | Panic e \<Rightarrow> Panic e
      | Ok logs \<Rightarrow> Ok (tx\<lparr>etx_Logs := logs\<rparr>))"

section \<open>The queries\<close>

definition ChainId :: "deps \<Rightarrow> ('s, 'db) VirtualChain \<Rightarrow> int" where
  "ChainId D v = u_ToBig (d_u256 D) (u_SetBytes32 (d_u256 D) (vc_ChainID v))"

definition BlockByNumber :: "'db IStore \<Rightarrow> ('s, 'db) VirtualChain \<Rightarrow> int \<Rightarrow> EvmBlock outcome" where
  "BlockByNumber S v number = st_GetBlockByHeight S (as_u64 number) (vc_Store v)"

definition BlockByHash :: "'db IStore \<Rightarrow> ('s, 'db) VirtualChain \<Rightarrow> bytes \<Rightarrow> EvmBlock outcome" where
  "BlockByHash S v hash = st_GetBlockByHash S hash (vc_Store v)"

definition GetTx :: "'db IStore \<Rightarrow> ('s, 'db) VirtualChain \<Rightarrow> bytes \<Rightarrow> (EvmTx \<times> bytes) outcome" where
  "GetTx S v txHash = st_GetTxByHash S txHash (vc_Store v)"

definition refreshedTxList ::
  "deps \<Rightarrow> 's IScanner \<Rightarrow> 'db IStore \<Rightarrow> ('s, 'db) VirtualChain \<Rightarrow> int \<Rightarrow> int \<Rightarrow> int \<Rightarrow>
   (EvmTx list \<times> bytes list) outcome" where
  "refreshedTxList D I S v height start end' =
     (case st_GetTxListByHeightWithRange S height start end' (vc_Store v) of
        Err e \<Rightarrow> Err e
      | Panic e \<Rightarrow> Panic e
      | Ok (txs, sigs) \<Rightarrow>
        (case eachOk (refreshTx D I v) txs of
           Err e \<Rightarrow> Err e
         | Panic e \<Rightarrow> Panic e
         | Ok txs' \<Rightarrow> Ok (txs', sigs)))"

definition GetTxListByHeight ::
  "deps \<Rightarrow> 's IScanner \<Rightarrow> 'db IStore \<Rightarrow> ('s, 'db) VirtualChain \<Rightarrow> int \<Rightarrow> (EvmTx list \<times> bytes list) outcome" where
  "GetTxListByHeight D I S v height = refreshedTxList D I S v height 0 (2 ^ 31 - 1)"

definition GetRpcMaxLogResults :: int where
  "GetRpcMaxLogResults = 2000"

definition refreshedLogs ::
  "deps \<Rightarrow> 's IScanner \<Rightarrow> 'db IStore \<Rightarrow> ('s, 'db) VirtualChain \<Rightarrow> bytes list \<Rightarrow> bytes list list \<Rightarrow> int \<Rightarrow> int \<Rightarrow>
   (bytes \<Rightarrow> bytes list \<Rightarrow> bytes list \<Rightarrow> bytes list list \<Rightarrow> bool) \<Rightarrow> (EvmLog list \<times> goerr option) outcome" where
  "refreshedLogs D I S v addresses topics startHeight endHeight flt =
     (case st_QueryLogs S addresses topics startHeight endHeight flt (vc_Store v) of
        Err e \<Rightarrow> Err e
      | Panic e \<Rightarrow> Panic e
      | Ok (logs, Some e) \<Rightarrow> Ok (logs, Some e)
      | Ok (logs, None) \<Rightarrow>
        (case eachOk (\<lambda>l. refreshLog D I v (log_TxHash l) l) logs of
           Err e \<Rightarrow> Err e
         | Panic e \<Rightarrow> Panic e
         | Ok logs' \<Rightarrow> Ok (logs', None)))"

definition LatestHeight :: "'db IStore \<Rightarrow> ('s, 'db) VirtualChain \<Rightarrow> int \<Rightarrow> int outcome" where
  "LatestHeight S v now =
     (case st_GetLatestBlockInfo S now (vc_Store v) of
        Err e \<Rightarrow> Err e
      | Panic e \<Rightarrow> Panic e
      | Ok (height, _, _, _) \<Rightarrow> Ok height)"

definition NewBackend :: "deps \<Rightarrow> 's IScanner \<Rightarrow> 'db IStore \<Rightarrow> ('s, 'db) VirtualChain \<Rightarrow> BackendService" where
  "NewBackend D I S v =
     \<lparr>bk_ChainId = ChainId D v,
      bk_BlockByNumber = BlockByNumber S v,
      bk_BlockByHash = BlockByHash S v,
      bk_GetTx = GetTx S v,
      bk_GetTxListByHeight = GetTxListByHeight D I S v,
      bk_GetRpcMaxLogResults = GetRpcMaxLogResults,
      bk_QueryLogs = refreshedLogs D I S v,
      bk_LatestHeight = LatestHeight S v\<rparr>"

section \<open>The loops\<close>

lemma eachOk_Ok: "eachOk f xs = Ok ys \<longleftrightarrow> list_all2 (\<lambda>x y. f x = Ok y) xs ys"
proof (induction xs arbitrary: ys)
  case (Cons x xs)
  show ?case
  proof (cases "f x")
    case (Ok y)
    with Cons.IH show ?thesis by (cases "eachOk f xs") (auto simp: list_all2_Cons1)
  qed (auto simp: list_all2_Cons1)
qed auto

lemma eachOk_total: "(\<And>x. x \<in> set xs \<Longrightarrow> \<exists>y. f x = Ok y) \<Longrightarrow> \<exists>ys. eachOk f xs = Ok ys"
proof (induction xs)
  case (Cons x xs)
  then obtain y ys where "f x = Ok y" "eachOk f xs = Ok ys" by fastforce
  then show ?case by simp
qed simp

text \<open>Flipping swaps the ends and goes on with the middle.\<close>

lemma flipLoop_middle:
  "length ys = n \<Longrightarrow> flipLoop (length xs) (length xs + n - 1) (xs @ ys @ zs) = xs @ rev ys @ zs"
proof (induction n arbitrary: xs ys zs rule: less_induct)
  case (less n)
  show ?case
  proof (cases "n < 2")
    case True
    with less.prems have "ys = [] \<or> (\<exists>y. ys = [y])" by (cases ys) auto
    then have "rev ys = ys" by auto
    moreover have "\<not> length xs < length xs + n - 1" using True by arith
    ultimately show ?thesis by (subst flipLoop.simps) simp
  next
    case False
    with less.prems obtain a rest where a: "ys = a # rest" "rest \<noteq> []" by (cases ys) auto
    moreover obtain mid b where "rest = mid @ [b]" using a(2) by (cases rest rule: rev_cases) auto
    ultimately have ys: "ys = a # mid @ [b]" by simp
    then have n: "n = length mid + 2" using less.prems by simp
    have swap: "(xs @ ys @ zs)[length xs := (xs @ ys @ zs) ! (length xs + n - 1),
        length xs + n - 1 := (xs @ ys @ zs) ! length xs] = (xs @ [b]) @ mid @ (a # zs)"
      by (simp add: ys n nth_append list_update_append)
    have "flipLoop (length xs) (length xs + n - 1) (xs @ ys @ zs) =
        flipLoop (length (xs @ [b])) (length (xs @ [b]) + length mid - 1) ((xs @ [b]) @ mid @ (a # zs))"
      using n swap by (subst flipLoop.simps) simp
    also have "\<dots> = (xs @ [b]) @ rev mid @ (a # zs)" using n by (intro less.IH) auto
    finally show ?thesis by (simp add: ys)
  qed
qed

lemma flipLoop_rev: "length h = 32 \<Longrightarrow> flipLoop 0 31 h = rev h"
  using flipLoop_middle [of h 32 "[]" "[]"] by simp

section \<open>The refreshed data\<close>

text \<open>What an unsigned 256-bit reader sees of the confirmations \<open>c\<close>.\<close>

definition confirmationsValue :: "int \<Rightarrow> int" where
  "confirmationsValue c = (if c = - 1 then 2 ^ 256 - 1 else as_u64 c)"

lemma latestConfirmations_bytes:
  assumes "uint256_lib (d_u256 D)"
  shows "latestConfirmations D c = be_bytes 32 (confirmationsValue c)"
  using assms
  by (auto simp: latestConfirmations_def confirmationsValue_def Let_def uint256_lib.Bytes32_law uint256_lib.NewInt_law
      uint256_lib.SetAllOne_law as_u64_def uint_word_of_int unsigned_minus_1_eq_mask mask_eq_exp_minus_1)

lemma length_latestConfirmations:
  assumes "uint256_lib (d_u256 D)"
  shows "length (latestConfirmations D c) = 32"
  by (simp add: latestConfirmations_bytes [OF assms])

text \<open>The data of two logs that differ in the confirmations only.\<close>

lemma BuildLogData_head:
  assumes u: "uint256_lib (d_u256 D)" and a: "abi_lib D"
    and "list_all (\<lambda>x. length x = 32) outs" and "list_all (\<lambda>x. length x = 32) ins"
    and "list_all token_ok otoks" and "list_all token_ok itoks"
  obtains rest where "\<And>c. BuildLogData D c outs ins otoks itoks other = Ok (be_bytes 32 (uint c) @ rest)"
proof -
  let ?n = "\<lambda>x. u_ToBig (d_u256 D) (u_SetBytes32 (d_u256 D) x)"
  have "args_ok (map ?n outs) (map ?n ins) otoks itoks"
    using assms by (auto simp: args_ok_def list_all_iff uint256_lib.ToBig_SetBytes32 be_val_u256)
  then obtain rest where rest: "\<And>x. is_u256 x \<Longrightarrow>
      PackEGTXLogDataEvent D x (map ?n outs) (map ?n ins) otoks itoks other = Ok (be_bytes 32 x @ rest)"
    using abi_lib.pack_layout [OF a] by metis
  have "is_u256 (u_ToBig (d_u256 D) c)" for c
    using uint_lt2p [of c] by (simp add: uint256_lib.ToBig_law [OF u] is_u256_def)
  with rest have "BuildLogData D c outs ins otoks itoks other = Ok (be_bytes 32 (uint c) @ rest)" for c
    by (simp add: BuildLogData_def uint256_lib.ToBig_law [OF u])
  then show ?thesis by (rule that)
qed

lemma refreshed_head:
  assumes "uint256_lib (d_u256 D)" and "length old = 32"
  shows "copy_into (old @ rest) 0 32 (latestConfirmations D c) = be_bytes 32 (confirmationsValue c) @ rest"
  using assms by (subst copy_into_exact) (simp_all add: latestConfirmations_bytes)

lemma confirmationsValue_uint:
  "confirmationsValue c = uint (word_of_int (confirmationsValue c) :: uint256)"
  by (simp add: confirmationsValue_def as_u64_def uint_word_of_int)


text \<open>The confirmations a node reports for a transaction, -1 if it does not know it.\<close>

definition reported :: "BchClient \<Rightarrow> bytes \<Rightarrow> int" where
  "reported C h = (case GetRawTransactionVerbose C h of Ok res \<Rightarrow> as_i32 (raw_Confirmations res) | _ \<Rightarrow> - 1)"

lemma vcGetConfirmations_flip:
  assumes "txid_lib D" and "length h = 32" and "\<And>e. GetRawTransactionVerbose C (rev h) \<noteq> Panic e"
  shows "vcGetConfirmations (bchScanner D pick C) (flipLoop 0 31 h) v = Ok (reported C (rev h))"
  using assms(3) txid_lib.new_hash [OF assms(1), of "rev h"] assms(2)
  by (auto simp: vcGetConfirmations_def bchScanner_def GetConfirmations_def reported_def flipLoop_rev split: outcome.splits)

text \<open>A log with the confirmations the node reports now.\<close>

definition currentLog :: "BchClient \<Rightarrow> bytes \<Rightarrow> EvmLog \<Rightarrow> EvmLog" where
  "currentLog C h l =
     (if 32 \<le> length (log_Data l)
      then l\<lparr>log_Data := be_bytes 32 (confirmationsValue (reported C (rev h))) @ drop 32 (log_Data l)\<rparr>
      else l)"

lemma refreshLog_current:
  assumes "uint256_lib (d_u256 D)" and "txid_lib D" and "length h = 32"
    and "\<And>e. GetRawTransactionVerbose C (rev h) \<noteq> Panic e"
  shows "refreshLog D (bchScanner D pick C) v h l = Ok (currentLog C h l)"
proof (cases "32 \<le> length (log_Data l)")
  case True
  then have "copy_into (log_Data l) 0 32 (latestConfirmations D c) = be_bytes 32 (confirmationsValue c) @ drop 32 (log_Data l)" for c
    using refreshed_head [OF assms(1), of "take 32 (log_Data l)" "drop 32 (log_Data l)" c] by simp
  with True show ?thesis by (simp add: refreshLog_def currentLog_def vcGetConfirmations_flip [OF assms(2-)])
qed (simp add: refreshLog_def currentLog_def)

lemma eachOk_map: "(\<And>x. x \<in> set xs \<Longrightarrow> f x = Ok (g x)) \<Longrightarrow> eachOk f xs = Ok (map g xs)"
  by (induction xs) simp_all

text \<open>The transactions of the block at a height, with current confirmations.\<close>

definition currentTx :: "BchClient \<Rightarrow> EvmTx \<Rightarrow> EvmTx" where
  "currentTx C tx = tx\<lparr>etx_Logs := map (currentLog C (etx_Hash tx)) (etx_Logs tx)\<rparr>"

definition currentTxs :: "deps \<Rightarrow> BchClient \<Rightarrow> ModbBlock list \<Rightarrow> int \<Rightarrow> EvmTx list" where
  "currentTxs D C bs h =
     (case blockAt h bs of
        None \<Rightarrow> []
      | Some b \<Rightarrow> map (\<lambda>m. currentTx C (decodedTx D m)) (slice 0 (2 ^ 31 - 1) (mblk_TxList b)))"

lemma blockAt_in: "blockAt h bs = Some b \<Longrightarrow> b \<in> set bs"
  by (auto simp: blockAt_def dest: find_SomeD)

lemma slice_subset: "set (slice lo hi xs) \<subseteq> set xs"
  by (auto simp: slice_def dest: in_set_takeD in_set_dropD)

lemma backend_GetTxListByHeight:
  assumes "modb_lib M blocks" and all: "list_all (storable D) (blocks (vc_Store v))"
    and u: "uint256_lib (d_u256 D)" and t: "txid_lib D" and node: "\<And>h e. GetRawTransactionVerbose C h \<noteq> Panic e"
    and hashes: "\<And>m. m \<in> set (allTxs (blocks (vc_Store v))) \<Longrightarrow> length (mtx_HashId m) = 32"
  shows "\<exists>sigs. bk_GetTxListByHeight (NewBackend D (bchScanner D pick C) (ChainLogDB D M) v) h =
    Ok (currentTxs D C (blocks (vc_Store v)) (as_i64 h), sigs)"
proof -
  note tx_list = istore.tx_list [OF chainlogdb_istore [OF assms(1), of D] all]
  show ?thesis
  proof (cases "blockAt (as_i64 h) (blocks (vc_Store v))")
    case None
    with tx_list [of h 0 "2 ^ 31 - 1"] show ?thesis
      by (simp add: NewBackend_def GetTxListByHeight_def refreshedTxList_def currentTxs_def)
  next
    case (Some b)
    let ?ms = "slice 0 (2 ^ 31 - 1) (mblk_TxList b)"
    have "refreshTx D (bchScanner D pick C) v (decodedTx D m) = Ok (currentTx C (decodedTx D m))" if "m \<in> set ?ms" for m
    proof -
      have m: "m \<in> set (allTxs (blocks (vc_Store v)))"
        using that slice_subset blockAt_in [OF Some] by (fastforce simp: allTxs_def)
      then have "length (etx_Hash (decodedTx D m)) = 32"
        using hashes storableTx_decoded [OF storable_txs [OF all m]] by simp
      then have "eachOk (refreshLog D (bchScanner D pick C) v (etx_Hash (decodedTx D m))) (etx_Logs (decodedTx D m)) =
          Ok (map (currentLog C (etx_Hash (decodedTx D m))) (etx_Logs (decodedTx D m)))"
        using refreshLog_current [OF u t _ node] by (intro eachOk_map) blast
      then show ?thesis by (simp add: refreshTx_def currentTx_def)
    qed
    then have "eachOk (refreshTx D (bchScanner D pick C) v) (map (decodedTx D) ?ms) =
        Ok (map (\<lambda>m. currentTx C (decodedTx D m)) ?ms)"
      by (subst eachOk_map [where g = "currentTx C"]) auto
    with tx_list [of h 0 "2 ^ 31 - 1"] Some show ?thesis
      by (simp add: NewBackend_def GetTxListByHeight_def refreshedTxList_def currentTxs_def Let_def)
  qed
qed

lemma exNode_no_panic: "GetRawTransactionVerbose exNode h \<noteq> Panic e"
  by (simp add: exNode_def)

section \<open>Properties\<close>

text \<open>
  A log is delivered as if it had just been packed.  The data of a stored log are what
  \<open>BuildLogData\<close> packed with the confirmations of that time.  \<open>refreshLog\<close>, given the stored hash
  of the node's transaction \<open>h\<close>, replaces them by what \<open>BuildLogData\<close> packs for the same outputs,
  inputs, tokens and other data with the confirmations the node reports now; a transaction the node does not know
  any more is delivered with all ones.
\<close>

lemma refreshLog_repacks:
  assumes u: "uint256_lib (d_u256 D)" and a: "abi_lib D" and t: "txid_lib D"
    and args: "list_all (\<lambda>x. length x = 32) outs" "list_all (\<lambda>x. length x = 32) ins"
      "list_all token_ok otoks" "list_all token_ok itoks"
    and packed: "BuildLogData D c0 outs ins otoks itoks other = Ok (log_Data l)"
    and h: "length h = 32" "\<And>e. GetRawTransactionVerbose C h \<noteq> Panic e"
  shows "\<exists>data. refreshLog D (bchScanner D pick C) v (d_HexToHash D (d_HashString D h)) l = Ok (l\<lparr>log_Data := data\<rparr>) \<and>
    BuildLogData D (if reported C h = - 1 then - 1 else word_of_int (as_u64 (reported C h))) outs ins otoks itoks other
      = Ok data"
proof -
  obtain rest where rest: "\<And>c. BuildLogData D c outs ins otoks itoks other = Ok (be_bytes 32 (uint c) @ rest)"
    using BuildLogData_head [OF u a args] by metis
  have hash: "d_HexToHash D (d_HashString D h) = rev h" using txid_lib.txid_of_hash [OF t h(1)] .
  have "log_Data l = be_bytes 32 (uint c0) @ rest" using packed rest [of c0] by simp
  then have "currentLog C (rev h) l = l\<lparr>log_Data := be_bytes 32 (confirmationsValue (reported C h)) @ rest\<rparr>"
    by (simp add: currentLog_def)
  moreover have "uint (if reported C h = - 1 then - 1 else word_of_int (as_u64 (reported C h)) :: uint256) =
      confirmationsValue (reported C h)"
    by (simp add: confirmationsValue_def as_u64_def uint_word_of_int unsigned_minus_1_eq_mask mask_eq_exp_minus_1)
  ultimately show ?thesis
    using refreshLog_current [OF u t, of "rev h" C pick v l] h rest by (simp add: hash)
qed

text \<open>
  A query through the backend.  For every reachable kind of store contents, a query that the
  database does not cut off returns exactly the logs of the stored transactions in the range that
  match the criteria, each with the confirmations the node reports now and otherwise unchanged.
\<close>

lemma backend_QueryLogs_current:
  assumes "modb_lib M blocks" and "list_all (storable D) (blocks (vc_Store v))"
    and u: "uint256_lib (d_u256 D)" and t: "txid_lib D" and node: "\<And>h e. GetRawTransactionVerbose C h \<noteq> Panic e"
    and "None \<notin> set (fst (modb_QueryLogs M addresses topics lo hi (vc_Store v)))"
    and noErr: "snd (modb_QueryLogs M addresses topics lo hi (vc_Store v)) = None"
    and hashes: "\<And>m l. m \<in> set (allTxs (blocks (vc_Store v))) \<Longrightarrow> l \<in> set (etx_Logs (decodedTx D m)) \<Longrightarrow>
      length (log_TxHash l) = 32"
  shows "\<exists>logs. bk_QueryLogs (NewBackend D (bchScanner D pick C) (ChainLogDB D M) v) addresses topics lo hi filterFunc =
      Ok (map (\<lambda>l. currentLog C (log_TxHash l) l) logs, None) \<and>
    set logs = {l. wanted addresses topics (log_Address l) (log_Topics l) \<and>
      (\<exists>m \<in> set (txsBetween lo hi (blocks (vc_Store v))). l \<in> set (etx_Logs (decodedTx D m)))}"
proof -
  note C = chainlogdb.intro [OF assms(1)]
  obtain logs err where q: "QueryLogs D M addresses topics lo hi filterFunc (vc_Store v) = Ok (logs, err)"
    and s: "\<forall>l \<in> set logs. wanted addresses topics (log_Address l) (log_Topics l) \<and>
       (\<exists>m \<in> set (txsBetween lo hi (blocks (vc_Store v))). l \<in> set (etx_Logs (decodedTx D m)))"
    using chainlogdb.QueryLogs_sound [OF C assms(2)] by blast
  have "l \<in> set logs" if "wanted addresses topics (log_Address l) (log_Topics l)"
    "m \<in> set (txsBetween lo hi (blocks (vc_Store v)))" "l \<in> set (etx_Logs (decodedTx D m))" for l m
    using chainlogdb.QueryLogs_complete [OF C assms(2,6) that(2,3,1) q] .
  with s have "set logs = {l. wanted addresses topics (log_Address l) (log_Topics l) \<and>
      (\<exists>m \<in> set (txsBetween lo hi (blocks (vc_Store v))). l \<in> set (etx_Logs (decodedTx D m)))}" by blast
  moreover have "err = None"
    using q noErr by (auto simp: QueryLogs_def split: prod.splits outcome.splits)
  moreover have "length (log_TxHash l) = 32" if "l \<in> set logs" for l
    using s that hashes chainlogdb.txsBetween_subset [OF C, of lo hi "blocks (vc_Store v)"] by blast
  then have "eachOk (\<lambda>l. refreshLog D (bchScanner D pick C) v (log_TxHash l) l) logs =
      Ok (map (\<lambda>l. currentLog C (log_TxHash l) l) logs)"
    using refreshLog_current [OF u t _ node] by (intro eachOk_map) blast
  ultimately show ?thesis
    using q by (intro exI [of _ logs]) (simp add: NewBackend_def refreshedLogs_def ChainLogDB_def)
qed

end
