(* ===== verification/Filter_Api.thy ===== *)
theory Filter_Api
  imports Event_System Backend
begin

text \<open>
  rpc/api/filters/filter_api.go: the filters of the RPC service and the queries on them.  The
  definitions are the critical sections of the methods on the map of filters and the methods that
  only ask the backend; how the goroutines interleave them is the theory \<open>Filter_System\<close>.  Slices
  are lists with None for nil, because nil is delivered as \<open>null\<close>.
\<close>

section \<open>Slices and timers\<close>

definition elems :: "'a list option \<Rightarrow> 'a list" where
  "elems s = (case s of None \<Rightarrow> [] | Some xs \<Rightarrow> xs)"

text \<open>\<open>append(s, ys...)\<close>: appending nothing to nil is nil.\<close>

definition appendSlice :: "'a list option \<Rightarrow> 'a list \<Rightarrow> 'a list option" where
  "appendSlice s ys = (if ys = [] then s else Some (elems s @ ys))"

text \<open>A timer runs until a time, has sent that it fired, or was read after it fired.\<close>

datatype Timer = Running int | Fired | Drained

section \<open>Filters\<close>

text \<open>Five minutes, in seconds.\<close>

definition deadline :: int where
  "deadline = 5 * 60"

record apiFilter =
  flt_typ :: Type
  flt_deadline :: Timer
  flt_hashes :: "bytes list option"
  flt_crit :: FilterCriteria
  flt_logs :: "EvmLog list option"
  flt_s :: subscription

type_synonym filters = "rpcID \<rightharpoonup> apiFilter"

text \<open>The filters that \<open>NewFilter\<close> and \<open>NewBlockFilter\<close> enter.\<close>

definition newLogsFilter :: "int \<Rightarrow> FilterCriteria \<Rightarrow> subscription \<Rightarrow> apiFilter" where
  "newLogsFilter now crit logsSub =
     \<lparr>flt_typ = LogsSubscription, flt_deadline = Running (now + deadline), flt_hashes = None, flt_crit = crit,
      flt_logs = Some [], flt_s = logsSub\<rparr>"

definition newHeadsFilter :: "int \<Rightarrow> subscription \<Rightarrow> apiFilter" where
  "newHeadsFilter now headerSub =
     \<lparr>flt_typ = BlocksSubscription, flt_deadline = Running (now + deadline), flt_hashes = Some [], flt_crit = noCriteria,
      flt_logs = None, flt_s = headerSub\<rparr>"

text \<open>
  What the goroutines of \<open>NewFilter\<close> and \<open>NewBlockFilter\<close> do with a message; \<open>H\<close> is the method
  \<open>Hash\<close> of a header.
\<close>

definition receiveLogs :: "rpcID \<Rightarrow> EvmLog list \<Rightarrow> filters \<Rightarrow> filters" where
  "receiveLogs sid l fs =
     (case fs sid of
        Some f \<Rightarrow> fs(sid \<mapsto> f\<lparr>flt_logs := appendSlice (flt_logs f) l\<rparr>)
      | None \<Rightarrow> fs)"

definition receiveHeader :: "(Header \<Rightarrow> bytes) \<Rightarrow> rpcID \<Rightarrow> Header \<Rightarrow> filters \<Rightarrow> filters" where
  "receiveHeader H sid h fs =
     (case fs sid of
        Some f \<Rightarrow> fs(sid \<mapsto> f\<lparr>flt_hashes := appendSlice (flt_hashes f) [H h]\<rparr>)
      | None \<Rightarrow> fs)"

text \<open>The critical section of \<open>UninstallFilter\<close>: what it returns, the filter whose subscription it ends, the map.\<close>

definition UninstallFilter :: "rpcID \<Rightarrow> filters \<Rightarrow> bool \<times> apiFilter option \<times> filters" where
  "UninstallFilter sid fs =
     (case fs sid of
        None \<Rightarrow> (False, None, fs)
      | Some f \<Rightarrow> (True, Some f, fs(sid := None)))"

definition returnHashes :: "bytes list option \<Rightarrow> bytes list option" where
  "returnHashes hashes = (case hashes of None \<Rightarrow> Some [] | Some hs \<Rightarrow> Some hs)"

definition returnLogs :: "EvmLog list option \<Rightarrow> EvmLog list option" where
  "returnLogs logs = (case logs of None \<Rightarrow> Some [] | Some ls \<Rightarrow> Some ls)"

datatype changes = HashChanges "bytes list option" | LogChanges "EvmLog list option"

text \<open>
  \<open>GetFilterChanges\<close>; None is a call that never returns: the timer had fired and its message was
  taken by somebody else.
\<close>

definition GetFilterChanges :: "int \<Rightarrow> rpcID \<Rightarrow> filters \<Rightarrow> (changes outcome \<times> filters) option" where
  "GetFilterChanges now sid fs =
     (case fs sid of
        None \<Rightarrow> Some (Err (ErrorString (''filter '' @ sid @ '' not found'')), fs)
      | Some f \<Rightarrow>
        if flt_deadline f = Drained then None
        else
          let f = f\<lparr>flt_deadline := Running (now + deadline)\<rparr> in
          if flt_typ f = BlocksSubscription then
            Some (Ok (HashChanges (returnHashes (flt_hashes f))), fs(sid \<mapsto> f\<lparr>flt_hashes := None\<rparr>))
          else if flt_typ f = LogsSubscription then
            Some (Ok (LogChanges (returnLogs (Some (elems (flt_logs f))))), fs(sid \<mapsto> f\<lparr>flt_logs := Some []\<rparr>))
          else
            Some (Err (ErrorString (''invalid filter '' @ sid @ '' type '' @ itoa (int (typeByte (flt_typ f))))), fs(sid \<mapsto> f)))"

section \<open>Queries on the backend\<close>

text \<open>\<open>G\<close> is \<open>motypes.ToGethLogs\<close>.\<close>

fun appendTxLogs :: "(EvmLog list \<Rightarrow> EvmLog list option) \<Rightarrow> EvmTx list \<Rightarrow> EvmLog list option \<Rightarrow> EvmLog list option" where
  "appendTxLogs G [] allLogs = allLogs"
| "appendTxLogs G (tx # txList) allLogs = appendTxLogs G txList (appendSlice allLogs (elems (G (etx_Logs tx))))"

function rangeLoop ::
  "(EvmLog list \<Rightarrow> EvmLog list option) \<Rightarrow> BackendService \<Rightarrow> int \<Rightarrow> int \<Rightarrow> EvmLog list option \<Rightarrow> EvmLog list option outcome" where
  "rangeLoop G B i end' allLogs =
     (if i < end' then
        (case bk_GetTxListByHeight B (as_u32 i) of
           Err e \<Rightarrow> Err e
         | Panic e \<Rightarrow> Panic e
         | Ok (txList, _) \<Rightarrow>
           (let allLogs = appendTxLogs G txList allLogs in
            if bk_GetRpcMaxLogResults B < int (length (elems allLogs))
            then Err (ErrorString ''too many potential results'')
            else rangeLoop G B (i + 1) end' allLogs))
      else Ok allLogs)"
  by pat_completeness auto
termination
  by (relation "measure (\<lambda>(G, B, i, end', allLogs). nat (end' - i))") auto

declare rangeLoop.simps [simp del]

definition getLogsByBlockNumberRange ::
  "(EvmLog list \<Rightarrow> EvmLog list option) \<Rightarrow> BackendService \<Rightarrow> int \<Rightarrow> int \<Rightarrow> EvmLog list option outcome" where
  "getLogsByBlockNumberRange G B begin' end' = rangeLoop G B begin' end' None"

text \<open>The block numbers of a query before negative ones are resolved.\<close>

definition queryRange :: "int \<Rightarrow> BackendService \<Rightarrow> FilterCriteria \<Rightarrow> (int \<times> int) outcome" where
  "queryRange latest B crit =
     (let begin' = (case crit_FromBlock crit of None \<Rightarrow> latest | Some b \<Rightarrow> as_i64 b);
          end' = (case crit_ToBlock crit of None \<Rightarrow> latest | Some b \<Rightarrow> as_i64 b)
      in case crit_BlockHash crit of
           None \<Rightarrow> Ok (begin', end')
         | Some h \<Rightarrow>
           (case bk_BlockByHash B h of
              Err e \<Rightarrow> Err e
            | Panic e \<Rightarrow> Panic e
            | Ok block \<Rightarrow> Ok (eblk_Number block, eblk_Number block)))"

definition resolveHeight :: "BackendService \<Rightarrow> int \<Rightarrow> int \<Rightarrow> int outcome" where
  "resolveHeight B now n = (if n < 0 then bk_LatestHeight B now else Ok n)"

definition GetLogs ::
  "int \<Rightarrow> (EvmLog list \<Rightarrow> EvmLog list option) \<Rightarrow> BackendService \<Rightarrow> int \<Rightarrow> FilterCriteria \<Rightarrow> EvmLog list option outcome" where
  "GetLogs latest G B now crit =
     (case queryRange latest B crit of
        Err e \<Rightarrow> Err e
      | Panic e \<Rightarrow> Panic e
      | Ok (begin', end') \<Rightarrow>
        (case resolveHeight B now begin' of
           Err e \<Rightarrow> Err e
         | Panic e \<Rightarrow> Panic e
         | Ok begin' \<Rightarrow>
           (case resolveHeight B now end' of
              Err e \<Rightarrow> Err e
            | Panic e \<Rightarrow> Panic e
            | Ok end' \<Rightarrow>
              if length (crit_Addresses crit) = 0 \<and> length (crit_Topics crit) = 0
              then getLogsByBlockNumberRange G B begin' (as_i64 (end' + 1))
              else
                (case bk_QueryLogs B (crit_Addresses crit) (crit_Topics crit) (as_u32 begin') (as_u32 (end' + 1)) filterFunc of
                   Err e \<Rightarrow> Err e
                 | Panic e \<Rightarrow> Panic e
                 | Ok (logs, Some e) \<Rightarrow> Err e
                 | Ok (logs, None) \<Rightarrow> Ok (G logs)))))"

definition GetFilterLogs ::
  "int \<Rightarrow> (EvmLog list \<Rightarrow> EvmLog list option) \<Rightarrow> BackendService \<Rightarrow> int \<Rightarrow> rpcID \<Rightarrow> filters \<Rightarrow> EvmLog list option outcome" where
  "GetFilterLogs latest G B now sid fs =
     (case fs sid of
        None \<Rightarrow> Err (ErrorString ''filter not found'')
      | Some f \<Rightarrow>
        if flt_typ f \<noteq> LogsSubscription then Err (ErrorString ''filter not found'')
        else GetLogs latest G B now (flt_crit f))"

section \<open>Lemmas on slices\<close>

lemma elems_simps [simp]: "elems None = []" "elems (Some xs) = xs"
  by (simp_all add: elems_def)

lemma elems_append [simp]: "elems (appendSlice s ys) = elems s @ ys"
  by (simp add: appendSlice_def)

lemma return_elems [simp]:
  "elems (returnHashes hs) = elems hs" "elems (returnLogs ls) = elems ls"
  "returnHashes hs \<noteq> None" "returnLogs ls \<noteq> None"
  by (simp_all add: returnHashes_def returnLogs_def elems_def split: option.splits)

section \<open>The loop over a range of blocks\<close>

lemma appendTxLogs_elems:
  "elems (appendTxLogs G txs acc) = elems acc @ concat (map (\<lambda>tx. elems (G (etx_Logs tx))) txs)"
  by (induction txs arbitrary: acc) simp_all

lemma appendTxLogs_Some: "\<exists>y. appendTxLogs G txs (Some x) = Some y"
  by (induction txs arbitrary: x) (auto simp: appendSlice_def)

lemma appendTxLogs_nil:
  "appendTxLogs G txs None = None \<longleftrightarrow> (\<forall>tx \<in> set txs. elems (G (etx_Logs tx)) = [])"
proof (induction txs)
  case (Cons tx txs)
  then show ?case
    using appendTxLogs_Some [of G txs "elems (G (etx_Logs tx))"] by (auto simp: appendSlice_def)
qed simp

lemma appendTxLogs_norm: "acc \<noteq> Some [] \<Longrightarrow> appendTxLogs G txs acc \<noteq> Some []"
  by (induction txs arbitrary: acc) (auto simp: appendSlice_def)

text \<open>The logs of the transactions \<open>txs h\<close> at the heights from \<open>i\<close> to below \<open>n\<close>.\<close>

definition rangeLogs ::
  "(EvmLog list \<Rightarrow> EvmLog list option) \<Rightarrow> (int \<Rightarrow> EvmTx list) \<Rightarrow> int \<Rightarrow> int \<Rightarrow> EvmLog list" where
  "rangeLogs G txs i n = concat (map (\<lambda>h. concat (map (\<lambda>tx. elems (G (etx_Logs tx))) (txs h))) [i..n - 1])"

lemma rangeLogs_step:
  "i < n \<Longrightarrow> elems acc @ rangeLogs G txs i n = elems (appendTxLogs G (txs i) acc) @ rangeLogs G txs (i + 1) n"
  "\<not> i < n \<Longrightarrow> rangeLogs G txs i n = []"
  by (simp_all add: rangeLogs_def appendTxLogs_elems upto_rec1)

text \<open>
  When the backend answers for every height, the loop returns all logs if they are not too many,
  and the error otherwise.
\<close>

lemma rangeLoop_logs:
  assumes "\<And>h. i \<le> h \<Longrightarrow> h < n \<Longrightarrow> \<exists>sigs. bk_GetTxListByHeight B (as_u32 h) = Ok (txs h, sigs)"
    and "int (length (elems acc)) \<le> bk_GetRpcMaxLogResults B"
  shows "if int (length (elems acc @ rangeLogs G txs i n)) \<le> bk_GetRpcMaxLogResults B
    then \<exists>r. rangeLoop G B i n acc = Ok r \<and> elems r = elems acc @ rangeLogs G txs i n \<and> (acc \<noteq> Some [] \<longrightarrow> r \<noteq> Some [])
    else rangeLoop G B i n acc = Err (ErrorString ''too many potential results'')"
  using assms
proof (induction G B i n acc rule: rangeLoop.induct)
  case (1 G B i n acc)
  show ?case
  proof (cases "i < n")
    case False
    then have "rangeLoop G B i n acc = Ok acc" by (simp add: rangeLoop.simps)
    with False "1.prems"(2) show ?thesis by (simp add: rangeLogs_step)
  next
    case True
    then obtain sigs where g: "bk_GetTxListByHeight B (as_u32 i) = Ok (txs i, sigs)" using "1.prems"(1) [of i] by auto
    let ?acc = "appendTxLogs G (txs i) acc"
    show ?thesis
    proof (cases "bk_GetRpcMaxLogResults B < int (length (elems ?acc))")
      case big: True
      with True g have "rangeLoop G B i n acc = Err (ErrorString ''too many potential results'')"
        by (simp add: rangeLoop.simps [of G B i n acc] Let_def)
      moreover have "\<not> int (length (elems ?acc @ rangeLogs G txs (i + 1) n)) \<le> bk_GetRpcMaxLogResults B"
        using big by simp
      ultimately show ?thesis by (simp only: rangeLogs_step(1) [OF True] if_False)
    next
      case False
      with True g have "rangeLoop G B i n acc = rangeLoop G B (i + 1) n ?acc"
        by (simp add: rangeLoop.simps [of G B i n acc] Let_def)
      moreover have "?acc \<noteq> Some [] \<or> acc = Some []" using appendTxLogs_norm [of acc G "txs i"] by blast
      ultimately show ?thesis
        using "1.IH" [OF True g refl refl False] "1.prems"(1) False
        by (simp only: rangeLogs_step(1) [OF True]) (auto split: if_splits)
    qed
  qed
qed

section \<open>Properties\<close>

text \<open>
  C30: \<open>GetLogs\<close> without addresses and topics on a range of block numbers.  If the transactions of the
  blocks in the range have at most 2000 logs, it returns them all, in order and with the
  confirmations the node reports now; otherwise it returns the error that there are too many.  When
  there is no log the result is nil and not an empty slice.
\<close>

theorem GetLogs_range:
  assumes "modb_lib M blocks" and "list_all (storable D) (blocks (vc_Store v))"
    and "uint256_lib (d_u256 D)" and "txid_lib D" and "\<And>h e. GetRawTransactionVerbose C h \<noteq> Panic e"
    and "\<And>m. m \<in> set (allTxs (blocks (vc_Store v))) \<Longrightarrow> length (mtx_HashId m) = 32"
    and G: "\<And>ls. elems (G ls) = map g ls"
    and crit: "crit_BlockHash crit = None" "crit_FromBlock crit = Some b" "crit_ToBlock crit = Some e"
      "crit_Addresses crit = []" "crit_Topics crit = []" "0 \<le> b" "0 \<le> e" "b < 2 ^ 32" "e + 1 < 2 ^ 32"
  shows "GetLogs latest G (NewBackend D (bchScanner D pick C) (ChainLogDB D M) v) now crit =
    (let all = map g (concat (map (\<lambda>h. concat (map etx_Logs (currentTxs D C (blocks (vc_Store v)) h))) [b..e]))
     in if length all \<le> 2000 then Ok (if all = [] then None else Some all)
        else Err (ErrorString ''too many potential results''))"
proof -
  let ?B = "NewBackend D (bchScanner D pick C) (ChainLogDB D M) v"
  let ?txs = "currentTxs D C (blocks (vc_Store v))"
  have i: "as_i64 n = n" "as_u32 n = n" if "0 \<le> n" "n < 2 ^ 32" for n using that by (simp_all add: as_i64_def as_u32_def)
  have max: "bk_GetRpcMaxLogResults ?B = 2000" by (simp add: NewBackend_def GetRpcMaxLogResults_def)
  have "\<exists>sigs. bk_GetTxListByHeight ?B (as_u32 h) = Ok (?txs h, sigs)" if "b \<le> h" "h < e + 1" for h
    using backend_GetTxListByHeight [OF assms(1-6), where pick = pick and h = h] that crit i [of h] by simp
  then have
    "if int (length (elems None @ rangeLogs G ?txs b (e + 1))) \<le> bk_GetRpcMaxLogResults ?B
     then \<exists>r. rangeLoop G ?B b (e + 1) None = Ok r \<and> elems r = elems None @ rangeLogs G ?txs b (e + 1) \<and>
       (None \<noteq> Some ([] :: EvmLog list) \<longrightarrow> r \<noteq> Some [])
     else rangeLoop G ?B b (e + 1) None = Err (ErrorString ''too many potential results'')"
    by (intro rangeLoop_logs) (simp_all add: max)
  then have "if int (length (rangeLogs G ?txs b (e + 1))) \<le> 2000
     then rangeLoop G ?B b (e + 1) None = Ok (if rangeLogs G ?txs b (e + 1) = [] then None else Some (rangeLogs G ?txs b (e + 1)))
     else rangeLoop G ?B b (e + 1) None = Err (ErrorString ''too many potential results'')"
    by (auto simp: max elems_def split: if_splits option.splits)
  moreover have "GetLogs latest G ?B now crit = rangeLoop G ?B b (e + 1) None"
    using crit i [of b] i [of e] i [of "e + 1"]
    by (simp add: GetLogs_def queryRange_def resolveHeight_def getLogsByBlockNumberRange_def)
  moreover have "rangeLogs G ?txs b (e + 1) = map g (concat (map (\<lambda>h. concat (map etx_Logs (?txs h))) [b..e]))"
    by (simp add: rangeLogs_def G map_concat comp_def)
  ultimately show ?thesis by (simp add: Let_def split: if_splits)
qed

theorem GetLogs_range_witness:
  "let B = NewBackend ref_deps exSc exS (exChain1\<lparr>vc_Store := [exModbBlock]\<rparr>);
       crit = (\<lambda>b e. noCriteria\<lparr>crit_FromBlock := Some b, crit_ToBlock := Some e\<rparr>)
   in GetLogs (- 2) Some B 0 (crit 1 2) = Ok (Some (map (currentLog exNode (replicate 32 5)) (etx_Logs exEvmTx))) \<and>
      GetLogs (- 2) Some B 0 (crit 2 3) = Ok None"
proof -
  define v where "v = exChain1\<lparr>vc_Store := [exModbBlock]\<rparr>"
  have s: "list_all (storable ref_deps) (vc_Store v)" using exModbBlocks_storable by (simp add: v_def)
  have hashes: "m \<in> set (allTxs (vc_Store v)) \<Longrightarrow> length (mtx_HashId m) = 32" for m
    by (simp add: v_def allTxs_def) (simp add: exModbBlock_def exModbTx_def)
  have g: "GetLogs (- 2) Some (NewBackend ref_deps exSc exS v) 0 (noCriteria\<lparr>crit_FromBlock := Some b, crit_ToBlock := Some e\<rparr>) =
    (let all = map (\<lambda>l. l) (concat (map (\<lambda>h. concat (map etx_Logs (currentTxs ref_deps exNode (vc_Store v) h))) [b..e]))
     in if length all \<le> 2000 then Ok (if all = [] then None else Some all)
        else Err (ErrorString ''too many potential results''))"
    if "0 \<le> b" "0 \<le> e" "b < 2 ^ 32" "e + 1 < 2 ^ 32" for b e
    by (rule GetLogs_range [OF listModb.modb_lib_axioms s uint256_lib_ref ref_txid.txid_lib_axioms exNode_no_panic hashes])
      (use that in \<open>simp_all add: noCriteria_def\<close>)
  have t: "currentTxs ref_deps exNode (vc_Store v) 1 = [currentTx exNode exEvmTx]"
    "currentTxs ref_deps exNode (vc_Store v) 2 = []" "currentTxs ref_deps exNode (vc_Store v) 3 = []"
    by (simp_all add: currentTxs_def blockAt_def v_def exModbBlock_def slice_def)
  have "etx_Logs (currentTx exNode exEvmTx) = map (currentLog exNode (replicate 32 5)) (etx_Logs exEvmTx)"
    "length (etx_Logs exEvmTx) = 1" "etx_Logs exEvmTx \<noteq> []"
    by (simp_all add: currentTx_def exEvmTx_def)
  with g [of 1 2] g [of 2 3] t show ?thesis by (simp add: Let_def v_def [symmetric] upto.simps)
qed

end
