(* ===== verification/Filter_System.thy ===== *)
theory Filter_System
  imports Filter_Api
begin

text \<open>
  The concurrent side of rpc/api/filters: the event loop, the goroutines that read subscriptions,
  the calls of the RPC methods and the timeout loop, as a state machine.  One step is one
  communication or one critical section: a send on an unbuffered channel happens together with its
  receive, and a section between \<open>Lock\<close> and \<open>Unlock\<close> that does not block is one step.  The
  timeout loop keeps the mutex while it waits, so that the mutex is part of the state.  A run is
  the list of the labels of its steps, from which the theorems read what happened.
\<close>

section \<open>The state\<close>

datatype busEvent =
    TxsEvent "bytes list"
  | LogsEvent "EvmLog list"
  | RemovedLogsEvent "EvmLog list"
  | ChainEvent' ChainEvent

text \<open>
  Goroutines by subscription.  \<open>Reading\<close>, \<open>Holding\<close> and \<open>Exiting\<close> are those of \<open>NewFilter\<close> and
  \<open>NewBlockFilter\<close>: at their \<open>select\<close>, waiting for the mutex with a message, waiting for the mutex
  to delete the filter.  \<open>Notifying\<close>, \<open>Forwarding\<close> and \<open>Leaving\<close> are those of \<open>Logs\<close> and \<open>NewHeads\<close>: at
  their \<open>select\<close>, before \<open>Notify\<close>, and in \<open>Unsubscribe\<close>.
\<close>

datatype task =
    Reading
  | Holding message
  | Exiting
  | Notifying subscription
  | Forwarding subscription message
  | Leaving

text \<open>A call of \<open>subscribe\<close> is sending to \<open>install\<close>, or is past \<open>installed\<close>.\<close>

datatype caller = PollCaller | NotifyCaller

datatype callPhase = Installing | Ready

text \<open>A call of \<open>Unsubscribe\<close> is at its \<open>select\<close>, or waits for \<open>Err\<close>.\<close>

datatype unsubPhase = Requesting | Awaiting

text \<open>The mutex is free, or the timeout loop holds it: between two filters, or in \<open>Unsubscribe\<close>.\<close>

datatype mutex = Free | Visiting "rpcID list" | WaitingFor rpcID "rpcID list"

record fsys =
  fs_now :: int
  fs_txsCh :: "bytes list list"
  fs_logsCh :: "EvmLog list list"
  fs_rmLogsCh :: "EvmLog list list"
  fs_chainCh :: "ChainEvent list"
  fs_index :: filterIndex
  fs_sends :: "(rpcID \<times> message) list"
  fs_err :: "rpcID set"
  fs_calls :: "rpcID \<rightharpoonup> caller \<times> callPhase \<times> subscription"
  fs_tasks :: "rpcID \<rightharpoonup> task"
  fs_unsubs :: "rpcID \<rightharpoonup> unsubPhase \<times> subscription"
  fs_filters :: filters
  fs_mutex :: mutex
  fs_ids :: "rpcID set"

text \<open>
  \<open>NewEventSystem\<close>: an empty index and nothing in the channels.  \<open>NewAPI\<close> adds an empty map of filters and
  starts the timeout loop, which waits for its first tick.
\<close>

definition NewEventSystem :: "int \<Rightarrow> fsys" where
  "NewEventSystem now =
     \<lparr>fs_now = now, fs_txsCh = [], fs_logsCh = [], fs_rmLogsCh = [], fs_chainCh = [], fs_index = newIndex,
      fs_sends = [], fs_err = {}, fs_calls = Map.empty, fs_tasks = Map.empty, fs_unsubs = Map.empty,
      fs_filters = Map.empty, fs_mutex = Free, fs_ids = {}\<rparr>"

definition NewAPI :: "int \<Rightarrow> fsys" where
  "NewAPI now = (NewEventSystem now)\<lparr>fs_filters := Map.empty, fs_mutex := Free\<rparr>"

datatype label =
    Tau
  | Installed subscription
  | Handled busEvent
  | Entered rpcID int
  | Polled rpcID int changes
  | Notified rpcID message
  | Uninstalled rpcID
  | Expired rpcID

section \<open>The event loop\<close>

text \<open>
  The \<open>select\<close> of \<open>eventLoop\<close> when no send is outstanding, and the sends of its handlers: to a
  goroutine at its \<open>select\<close>, or to an \<open>Unsubscribe\<close> call, which drops the message.
\<close>

inductive loopStep :: "fsys \<Rightarrow> label \<Rightarrow> fsys \<Rightarrow> bool" where
  loop_txs: "fs_sends s = [] \<Longrightarrow> fs_txsCh s = ev # rest \<Longrightarrow>
    loopStep s (Handled (TxsEvent ev)) (s\<lparr>fs_txsCh := rest, fs_sends := handleTxsEvent (fs_index s) ev\<rparr>)"
| loop_logs: "fs_sends s = [] \<Longrightarrow> fs_logsCh s = ev # rest \<Longrightarrow> rangeOrder (subsOf (fs_index s) LogsSubscription) order \<Longrightarrow>
    loopStep s (Handled (LogsEvent ev)) (s\<lparr>fs_logsCh := rest, fs_sends := handleLogs order (fs_index s) ev\<rparr>)"
| loop_removed: "fs_sends s = [] \<Longrightarrow> fs_rmLogsCh s = ev # rest \<Longrightarrow> rangeOrder (subsOf (fs_index s) LogsSubscription) order \<Longrightarrow>
    loopStep s (Handled (RemovedLogsEvent ev)) (s\<lparr>fs_rmLogsCh := rest, fs_sends := handleRemovedLogs order (fs_index s) ev\<rparr>)"
| loop_chain: "fs_sends s = [] \<Longrightarrow> fs_chainCh s = ev # rest \<Longrightarrow> rangeOrder (subsOf (fs_index s) BlocksSubscription) order \<Longrightarrow>
    loopStep s (Handled (ChainEvent' ev)) (s\<lparr>fs_chainCh := rest, fs_sends := handleChainEvent order (fs_index s) ev\<rparr>)"
| loop_install: "fs_sends s = [] \<Longrightarrow> fs_calls s sid = Some (c, Installing, f) \<Longrightarrow> installSub f (fs_index s) = Ok index' \<Longrightarrow>
    loopStep s (Installed f) (s\<lparr>fs_index := index', fs_calls := (fs_calls s)(sid \<mapsto> (c, Ready, f))\<rparr>)"
| loop_uninstall: "fs_sends s = [] \<Longrightarrow> fs_unsubs s sid = Some (Requesting, f) \<Longrightarrow>
    loopStep s Tau (s\<lparr>fs_index := uninstallSub f (fs_index s), fs_err := insert sid (fs_err s),
      fs_unsubs := (fs_unsubs s)(sid \<mapsto> (Awaiting, f))\<rparr>)"
| send_reader: "fs_sends s = (sid, m) # rest \<Longrightarrow> fs_tasks s sid = Some Reading \<Longrightarrow>
    loopStep s Tau (s\<lparr>fs_sends := rest, fs_tasks := (fs_tasks s)(sid \<mapsto> Holding m)\<rparr>)"
| send_notifier: "fs_sends s = (sid, m) # rest \<Longrightarrow> fs_tasks s sid = Some (Notifying f) \<Longrightarrow>
    loopStep s Tau (s\<lparr>fs_sends := rest, fs_tasks := (fs_tasks s)(sid \<mapsto> Forwarding f m)\<rparr>)"
| send_dropped: "fs_sends s = (sid, m) # rest \<Longrightarrow> fs_unsubs s sid = Some (Requesting, f) \<Longrightarrow>
    loopStep s Tau (s\<lparr>fs_sends := rest\<rparr>)"

section \<open>The goroutines\<close>

inductive readerStep :: "(Header \<Rightarrow> bytes) \<Rightarrow> fsys \<Rightarrow> label \<Rightarrow> fsys \<Rightarrow> bool" for H where
  store_logs: "fs_mutex s = Free \<Longrightarrow> fs_tasks s sid = Some (Holding (LogsMessage l)) \<Longrightarrow>
    readerStep H s Tau (s\<lparr>fs_filters := receiveLogs sid l (fs_filters s), fs_tasks := (fs_tasks s)(sid \<mapsto> Reading)\<rparr>)"
| store_header: "fs_mutex s = Free \<Longrightarrow> fs_tasks s sid = Some (Holding (HeaderMessage h)) \<Longrightarrow>
    readerStep H s Tau (s\<lparr>fs_filters := receiveHeader H sid h (fs_filters s), fs_tasks := (fs_tasks s)(sid \<mapsto> Reading)\<rparr>)"
| closed: "fs_tasks s sid = Some Reading \<Longrightarrow> sid \<in> fs_err s \<Longrightarrow>
    readerStep H s Tau (s\<lparr>fs_tasks := (fs_tasks s)(sid \<mapsto> Exiting)\<rparr>)"
| exit: "fs_mutex s = Free \<Longrightarrow> fs_tasks s sid = Some Exiting \<Longrightarrow>
    readerStep H s Tau (s\<lparr>fs_filters := (fs_filters s)(sid := None), fs_tasks := (fs_tasks s)(sid := None)\<rparr>)"

inductive notifierStep :: "fsys \<Rightarrow> label \<Rightarrow> fsys \<Rightarrow> bool" where
  notify: "fs_tasks s sid = Some (Forwarding f m) \<Longrightarrow>
    notifierStep s (Notified sid m) (s\<lparr>fs_tasks := (fs_tasks s)(sid \<mapsto> Notifying f)\<rparr>)"
| leave: "fs_tasks s sid = Some (Notifying f) \<Longrightarrow>
    notifierStep s (Uninstalled sid)
      (s\<lparr>fs_tasks := (fs_tasks s)(sid \<mapsto> Leaving), fs_unsubs := (fs_unsubs s)(sid \<mapsto> (Requesting, f))\<rparr>)"
| left: "fs_tasks s sid = Some Leaving \<Longrightarrow> fs_unsubs s sid = None \<Longrightarrow>
    notifierStep s Tau (s\<lparr>fs_tasks := (fs_tasks s)(sid := None)\<rparr>)"

section \<open>The calls\<close>

text \<open>\<open>latest\<close> is \<open>rpc.LatestBlockNumber\<close>; \<open>rpc.NewID\<close> gives an id that was not used before.\<close>

inductive callStep :: "int \<Rightarrow> fsys \<Rightarrow> label \<Rightarrow> fsys \<Rightarrow> bool" for latest where
  subscribe_logs: "sid \<notin> fs_ids s \<Longrightarrow> SubscribeLogs latest sid (fs_now s) crit = Ok f \<Longrightarrow>
    callStep latest s Tau (s\<lparr>fs_ids := insert sid (fs_ids s), fs_calls := (fs_calls s)(sid \<mapsto> (c, Installing, f))\<rparr>)"
| subscribe_heads: "sid \<notin> fs_ids s \<Longrightarrow>
    callStep latest s Tau (s\<lparr>fs_ids := insert sid (fs_ids s),
      fs_calls := (fs_calls s)(sid \<mapsto> (c, Installing, SubscribeNewHeads sid (fs_now s)))\<rparr>)"
| enter_logs: "fs_mutex s = Free \<Longrightarrow> fs_calls s sid = Some (PollCaller, Ready, f) \<Longrightarrow> sub_typ f = LogsSubscription \<Longrightarrow>
    callStep latest s (Entered sid (fs_now s)) (s\<lparr>fs_calls := (fs_calls s)(sid := None),
      fs_filters := (fs_filters s)(sid \<mapsto> newLogsFilter (fs_now s) (sub_logsCrit f) f),
      fs_tasks := (fs_tasks s)(sid \<mapsto> Reading)\<rparr>)"
| enter_heads: "fs_mutex s = Free \<Longrightarrow> fs_calls s sid = Some (PollCaller, Ready, f) \<Longrightarrow> sub_typ f = BlocksSubscription \<Longrightarrow>
    callStep latest s (Entered sid (fs_now s)) (s\<lparr>fs_calls := (fs_calls s)(sid := None),
      fs_filters := (fs_filters s)(sid \<mapsto> newHeadsFilter (fs_now s) f),
      fs_tasks := (fs_tasks s)(sid \<mapsto> Reading)\<rparr>)"
| start_notifier: "fs_calls s sid = Some (NotifyCaller, Ready, f) \<Longrightarrow>
    callStep latest s Tau (s\<lparr>fs_calls := (fs_calls s)(sid := None), fs_tasks := (fs_tasks s)(sid \<mapsto> Notifying f)\<rparr>)"
| poll: "fs_mutex s = Free \<Longrightarrow> GetFilterChanges (fs_now s) sid (fs_filters s) = Some (Ok r, fs') \<Longrightarrow>
    callStep latest s (Polled sid (fs_now s) r) (s\<lparr>fs_filters := fs'\<rparr>)"
| poll_error: "fs_mutex s = Free \<Longrightarrow> GetFilterChanges (fs_now s) sid (fs_filters s) = Some (Err e, fs') \<Longrightarrow>
    callStep latest s Tau (s\<lparr>fs_filters := fs'\<rparr>)"
| uninstall: "fs_mutex s = Free \<Longrightarrow> UninstallFilter sid (fs_filters s) = (True, Some f, fs') \<Longrightarrow>
    callStep latest s (Uninstalled sid) (s\<lparr>fs_filters := fs', fs_unsubs := (fs_unsubs s)(sid \<mapsto> (Requesting, flt_s f))\<rparr>)"
| unsubscribed: "fs_unsubs s sid = Some (Awaiting, f) \<Longrightarrow> sid \<in> fs_err s \<Longrightarrow>
    callStep latest s Tau (s\<lparr>fs_unsubs := (fs_unsubs s)(sid := None)\<rparr>)"

section \<open>The timeout loop, time and the chain\<close>

inductive timeoutStep :: "fsys \<Rightarrow> label \<Rightarrow> fsys \<Rightarrow> bool" where
  sweep: "fs_mutex s = Free \<Longrightarrow> rangeOrder (fs_filters s) order \<Longrightarrow>
    timeoutStep s Tau (s\<lparr>fs_mutex := Visiting order\<rparr>)"
| keep: "fs_mutex s = Visiting (sid # order) \<Longrightarrow> fs_filters s sid = Some f \<Longrightarrow> flt_deadline f \<noteq> Fired \<Longrightarrow>
    timeoutStep s Tau (s\<lparr>fs_mutex := Visiting order\<rparr>)"
| expire: "fs_mutex s = Visiting (sid # order) \<Longrightarrow> fs_filters s sid = Some f \<Longrightarrow> flt_deadline f = Fired \<Longrightarrow>
    timeoutStep s (Expired sid) (s\<lparr>fs_mutex := WaitingFor sid order,
      fs_filters := (fs_filters s)(sid \<mapsto> f\<lparr>flt_deadline := Drained\<rparr>),
      fs_unsubs := (fs_unsubs s)(sid \<mapsto> (Requesting, flt_s f))\<rparr>)"
| remove: "fs_mutex s = WaitingFor sid order \<Longrightarrow> fs_unsubs s sid = None \<Longrightarrow>
    timeoutStep s Tau (s\<lparr>fs_mutex := Visiting order, fs_filters := (fs_filters s)(sid := None)\<rparr>)"
| unlock: "fs_mutex s = Visiting [] \<Longrightarrow> timeoutStep s Tau (s\<lparr>fs_mutex := Free\<rparr>)"

definition fireTimer :: "int \<Rightarrow> apiFilter \<Rightarrow> apiFilter" where
  "fireTimer now f =
     (case flt_deadline f of Running t \<Rightarrow> if t \<le> now then f\<lparr>flt_deadline := Fired\<rparr> else f | _ \<Rightarrow> f)"

text \<open>Time passes, and the feeds of the chain fill the buffered channels.\<close>

inductive envStep :: "fsys \<Rightarrow> label \<Rightarrow> fsys \<Rightarrow> bool" where
  tick: "0 < d \<Longrightarrow> envStep s Tau (s\<lparr>fs_now := fs_now s + d, fs_filters := map_option (fireTimer (fs_now s + d)) \<circ> fs_filters s\<rparr>)"
| post_txs: "length (fs_txsCh s) < txChanSize \<Longrightarrow> envStep s Tau (s\<lparr>fs_txsCh := fs_txsCh s @ [txev]\<rparr>)"
| post_logs: "length (fs_logsCh s) < logsChanSize \<Longrightarrow> envStep s Tau (s\<lparr>fs_logsCh := fs_logsCh s @ [lev]\<rparr>)"
| post_removed: "length (fs_rmLogsCh s) < rmLogsChanSize \<Longrightarrow> envStep s Tau (s\<lparr>fs_rmLogsCh := fs_rmLogsCh s @ [lev]\<rparr>)"
| post_chain: "length (fs_chainCh s) < chainEvChanSize \<Longrightarrow> envStep s Tau (s\<lparr>fs_chainCh := fs_chainCh s @ [cev]\<rparr>)"

definition fstep :: "int \<Rightarrow> (Header \<Rightarrow> bytes) \<Rightarrow> fsys \<Rightarrow> label \<Rightarrow> fsys \<Rightarrow> bool" where
  "fstep latest H s l s' \<longleftrightarrow>
     loopStep s l s' \<or> readerStep H s l s' \<or> notifierStep s l s' \<or> callStep latest s l s' \<or> timeoutStep s l s' \<or> envStep s l s'"

inductive run :: "int \<Rightarrow> (Header \<Rightarrow> bytes) \<Rightarrow> label list \<Rightarrow> fsys \<Rightarrow> bool" for latest H where
  run_start: "run latest H [] (NewAPI now)"
| run_step: "run latest H tr s \<Longrightarrow> fstep latest H s l s' \<Longrightarrow> run latest H (tr @ [l]) s'"

end
