(* ===== verification/Filter_Safety.thy ===== *)
theory Filter_Safety
  imports Filter_System
begin

text \<open>
  Invariants of the filter system: the life cycle of a subscription, that no log or block hash is
  lost or delivered twice, and that only idle filters expire.
\<close>

section \<open>The life cycle of a subscription\<close>

text \<open>What the state says about one id.\<close>

record idView =
  iv_known :: bool
  iv_call :: "(caller \<times> callPhase \<times> subscription) option"
  iv_task :: "task option"
  iv_unsub :: "(unsubPhase \<times> subscription) option"
  iv_filter :: "apiFilter option"
  iv_err :: bool
  iv_subs :: "Type \<Rightarrow> subscription option"
  iv_waits :: bool

definition view :: "fsys \<Rightarrow> rpcID \<Rightarrow> idView" where
  "view s sid =
     \<lparr>iv_known = (sid \<in> fs_ids s), iv_call = fs_calls s sid, iv_task = fs_tasks s sid, iv_unsub = fs_unsubs s sid,
      iv_filter = fs_filters s sid, iv_err = (sid \<in> fs_err s), iv_subs = (\<lambda>ty. subsOf (fs_index s) ty sid),
      iv_waits = (\<exists>order. fs_mutex s = WaitingFor sid order)\<rparr>"

definition wfSub :: "rpcID \<Rightarrow> subscription \<Rightarrow> bool" where
  "wfSub sid f \<longleftrightarrow> sub_id f = sid \<and> (sub_typ f = LogsSubscription \<or> sub_typ f = BlocksSubscription)"

abbreviation onlySub :: "subscription \<Rightarrow> Type \<Rightarrow> subscription option" where
  "onlySub f \<equiv> (\<lambda>ty. if ty = sub_typ f then Some f else None)"

fun msgType :: "message \<Rightarrow> Type" where
  "msgType (LogsMessage l) = LogsSubscription"
| "msgType (HeaderMessage h) = BlocksSubscription"

fun reader :: "Type \<Rightarrow> task option \<Rightarrow> bool" where
  "reader ty (Some Reading) = True"
| "reader ty (Some (Holding m)) = (msgType m = ty)"
| "reader ty _ = False"

fun notifier :: "subscription \<Rightarrow> task option \<Rightarrow> bool" where
  "notifier f (Some (Notifying g)) = (g = f)"
| "notifier f (Some (Forwarding g m)) = (g = f)"
| "notifier f _ = False"

fun finished :: "task option \<Rightarrow> bool" where
  "finished (Some (Notifying g)) = False"
| "finished (Some (Forwarding g m)) = False"
| "finished _ = True"

lemma reader_finished: "reader ty t \<Longrightarrow> finished t"
  by (induction ty t rule: reader.induct) simp_all

text \<open>A filter that is being ended: out of the map, or the one the timeout loop waits for.\<close>

definition ending :: "idView \<Rightarrow> bool" where
  "ending w \<longleftrightarrow> (iv_filter w \<noteq> None) = iv_waits w"

inductive idOk :: "rpcID \<Rightarrow> idView \<Rightarrow> bool" for sid w where
  unused: "\<not> iv_known w \<Longrightarrow> iv_call w = None \<Longrightarrow> iv_task w = None \<Longrightarrow> iv_unsub w = None \<Longrightarrow> iv_filter w = None \<Longrightarrow>
    \<not> iv_err w \<Longrightarrow> iv_subs w = (\<lambda>ty. None) \<Longrightarrow> \<not> iv_waits w \<Longrightarrow> idOk sid w"
| installing: "iv_known w \<Longrightarrow> iv_call w = Some (c, Installing, f) \<Longrightarrow> wfSub sid f \<Longrightarrow> iv_task w = None \<Longrightarrow> iv_unsub w = None \<Longrightarrow>
    iv_filter w = None \<Longrightarrow> \<not> iv_err w \<Longrightarrow> iv_subs w = (\<lambda>ty. None) \<Longrightarrow> \<not> iv_waits w \<Longrightarrow> idOk sid w"
| ready: "iv_known w \<Longrightarrow> iv_call w = Some (c, Ready, f) \<Longrightarrow> wfSub sid f \<Longrightarrow> iv_task w = None \<Longrightarrow> iv_unsub w = None \<Longrightarrow>
    iv_filter w = None \<Longrightarrow> \<not> iv_err w \<Longrightarrow> iv_subs w = onlySub f \<Longrightarrow> \<not> iv_waits w \<Longrightarrow> idOk sid w"
| polling: "iv_known w \<Longrightarrow> iv_call w = None \<Longrightarrow> iv_filter w = Some f \<Longrightarrow> wfSub sid (flt_s f) \<Longrightarrow> flt_typ f = sub_typ (flt_s f) \<Longrightarrow>
    flt_deadline f \<noteq> Drained \<Longrightarrow> reader (flt_typ f) (iv_task w) \<Longrightarrow> iv_unsub w = None \<Longrightarrow>
    \<not> iv_err w \<Longrightarrow> iv_subs w = onlySub (flt_s f) \<Longrightarrow> \<not> iv_waits w \<Longrightarrow> idOk sid w"
| unpolling: "iv_known w \<Longrightarrow> iv_call w = None \<Longrightarrow> iv_unsub w = Some (Requesting, g) \<Longrightarrow> wfSub sid g \<Longrightarrow> reader (sub_typ g) (iv_task w) \<Longrightarrow>
    \<not> iv_err w \<Longrightarrow> iv_subs w = onlySub g \<Longrightarrow> ending w \<Longrightarrow> idOk sid w"
| notifying: "iv_known w \<Longrightarrow> iv_call w = None \<Longrightarrow> iv_filter w = None \<Longrightarrow> wfSub sid g \<Longrightarrow> notifier g (iv_task w) \<Longrightarrow> iv_unsub w = None \<Longrightarrow>
    \<not> iv_err w \<Longrightarrow> iv_subs w = onlySub g \<Longrightarrow> \<not> iv_waits w \<Longrightarrow> idOk sid w"
| leaving: "iv_known w \<Longrightarrow> iv_call w = None \<Longrightarrow> iv_unsub w = Some (Requesting, g) \<Longrightarrow> wfSub sid g \<Longrightarrow> iv_task w = Some Leaving \<Longrightarrow>
    iv_filter w = None \<Longrightarrow> \<not> iv_err w \<Longrightarrow> iv_subs w = onlySub g \<Longrightarrow> \<not> iv_waits w \<Longrightarrow> idOk sid w"
| ended: "iv_known w \<Longrightarrow> iv_call w = None \<Longrightarrow> iv_err w \<Longrightarrow> iv_subs w = (\<lambda>ty. None) \<Longrightarrow>
    iv_unsub w = None \<or> iv_unsub w = Some (Awaiting, g) \<Longrightarrow> finished (iv_task w) \<Longrightarrow> ending w \<Longrightarrow> idOk sid w"

definition sendsOk :: "fsys \<Rightarrow> bool" where
  "sendsOk s \<longleftrightarrow> (\<forall>(sid, m) \<in> set (fs_sends s). subsOf (fs_index s) (msgType m) sid \<noteq> None)"

fun mutexOk :: "mutex \<Rightarrow> filters \<Rightarrow> bool" where
  "mutexOk Free fs = True"
| "mutexOk (Visiting order) fs = (distinct order \<and> set order \<subseteq> dom fs)"
| "mutexOk (WaitingFor sid order) fs = (distinct (sid # order) \<and> set (sid # order) \<subseteq> dom fs)"

definition sysOk :: "fsys \<Rightarrow> bool" where
  "sysOk s \<longleftrightarrow> (\<forall>sid. idOk sid (view s sid)) \<and> sendsOk s \<and> mutexOk (fs_mutex s) (fs_filters s) \<and>
     dom (fs_index s) = - {LastIndexSubscription}"

lemma sysOk_id: "sysOk s \<Longrightarrow> idOk sid (view s sid)"
  by (simp add: sysOk_def)

lemma idOk_elim:
  assumes "sysOk s"
  obtains
    (unused) "sid \<notin> fs_ids s" "fs_calls s sid = None" "fs_tasks s sid = None" "fs_unsubs s sid = None"
      "fs_filters s sid = None" "sid \<notin> fs_err s" "\<And>ty. subsOf (fs_index s) ty sid = None" "\<And>order. fs_mutex s \<noteq> WaitingFor sid order"
  | (installing) c f where "sid \<in> fs_ids s" "fs_calls s sid = Some (c, Installing, f)" "wfSub sid f" "fs_tasks s sid = None"
      "fs_unsubs s sid = None" "fs_filters s sid = None" "sid \<notin> fs_err s" "\<And>ty. subsOf (fs_index s) ty sid = None"
      "\<And>order. fs_mutex s \<noteq> WaitingFor sid order"
  | (ready) c f where "sid \<in> fs_ids s" "fs_calls s sid = Some (c, Ready, f)" "wfSub sid f" "fs_tasks s sid = None"
      "fs_unsubs s sid = None" "fs_filters s sid = None" "sid \<notin> fs_err s" "\<And>ty. subsOf (fs_index s) ty sid = onlySub f ty"
      "\<And>order. fs_mutex s \<noteq> WaitingFor sid order"
  | (polling) f where "sid \<in> fs_ids s" "fs_calls s sid = None" "fs_filters s sid = Some f" "wfSub sid (flt_s f)"
      "flt_typ f = sub_typ (flt_s f)" "flt_deadline f \<noteq> Drained" "reader (flt_typ f) (fs_tasks s sid)"
      "fs_unsubs s sid = None" "sid \<notin> fs_err s" "\<And>ty. subsOf (fs_index s) ty sid = onlySub (flt_s f) ty"
      "\<And>order. fs_mutex s \<noteq> WaitingFor sid order"
  | (unpolling) g where "sid \<in> fs_ids s" "fs_calls s sid = None" "fs_unsubs s sid = Some (Requesting, g)" "wfSub sid g"
      "reader (sub_typ g) (fs_tasks s sid)" "sid \<notin> fs_err s" "\<And>ty. subsOf (fs_index s) ty sid = onlySub g ty"
      "(fs_filters s sid \<noteq> None) = (\<exists>order. fs_mutex s = WaitingFor sid order)"
  | (notifying) g where "sid \<in> fs_ids s" "fs_calls s sid = None" "fs_filters s sid = None" "wfSub sid g"
      "notifier g (fs_tasks s sid)" "fs_unsubs s sid = None" "sid \<notin> fs_err s"
      "\<And>ty. subsOf (fs_index s) ty sid = onlySub g ty" "\<And>order. fs_mutex s \<noteq> WaitingFor sid order"
  | (leaving) g where "sid \<in> fs_ids s" "fs_calls s sid = None" "fs_unsubs s sid = Some (Requesting, g)" "wfSub sid g"
      "fs_tasks s sid = Some Leaving" "fs_filters s sid = None" "sid \<notin> fs_err s"
      "\<And>ty. subsOf (fs_index s) ty sid = onlySub g ty" "\<And>order. fs_mutex s \<noteq> WaitingFor sid order"
  | (ended) g where "sid \<in> fs_ids s" "fs_calls s sid = None" "sid \<in> fs_err s" "\<And>ty. subsOf (fs_index s) ty sid = None"
      "fs_unsubs s sid = None \<or> fs_unsubs s sid = Some (Awaiting, g)" "finished (fs_tasks s sid)"
      "(fs_filters s sid \<noteq> None) = (\<exists>order. fs_mutex s = WaitingFor sid order)"
  using sysOk_id [OF assms, of sid]
proof cases
  case unused
  then show ?thesis by (intro that(1)) (simp_all add: view_def fun_eq_iff)
next
  case (installing c f)
  then show ?thesis by (intro that(2) [of c f]) (simp_all add: view_def fun_eq_iff)
next
  case (ready c f)
  then show ?thesis by (intro that(3) [of c f]) (simp_all add: view_def fun_eq_iff)
next
  case (polling f)
  then show ?thesis by (intro that(4) [of f]) (simp_all add: view_def fun_eq_iff)
next
  case (unpolling g)
  then show ?thesis by (intro that(5) [of g]) (simp_all add: view_def fun_eq_iff ending_def)
next
  case (notifying g)
  then show ?thesis by (intro that(6) [of g]) (simp_all add: view_def fun_eq_iff)
next
  case (leaving g)
  then show ?thesis by (intro that(7) [of g]) (simp_all add: view_def fun_eq_iff)
next
  case (ended g)
  then show ?thesis by (intro that(8) [of g]) (simp_all add: view_def fun_eq_iff ending_def)
qed

section \<open>The life cycle is kept\<close>

text \<open>A step that does not touch an id keeps its life cycle.\<close>

lemma idOk_frame: "sysOk s \<Longrightarrow> view s' k = view s k \<Longrightarrow> idOk k (view s' k)"
  by (simp add: sysOk_id)

lemma idOk_at:
  assumes "sysOk s" and "\<And>k. k \<noteq> sid \<Longrightarrow> view s' k = view s k" and "idOk sid (view s' sid)"
  shows "idOk k (view s' k)"
  using assms idOk_frame by (cases "k = sid") auto

lemmas view_simps = view_def fun_eq_iff ending_def wfSub_def

lemma loopStep_ids:
  assumes ok: "sysOk s" and "loopStep s l s'"
  shows "idOk k (view s' k)"
  using assms(2)
proof cases
  case (loop_install sid c f index')
  note sub = subsOf_install [OF loop_install(5)]
  have f: "sub_id f = sid" using loop_install(4) by (cases rule: idOk_elim [OF ok, of sid]) (auto simp: wfSub_def)
  have "idOk sid (view s' sid)"
    unfolding loop_install(2) using loop_install(4)
    by (cases rule: idOk_elim [OF ok, of sid]) (auto simp: view_simps sub intro!: idOk.ready)
  then show ?thesis by (rule idOk_at [OF ok, rotated]) (simp add: view_def fun_eq_iff sub f loop_install(2))
next
  case (loop_uninstall sid f)
  have f: "sub_id f = sid" using loop_uninstall(4) by (cases rule: idOk_elim [OF ok, of sid]) (auto simp: wfSub_def)
  have "idOk sid (view s' sid)"
    unfolding loop_uninstall(2) using loop_uninstall(4)
    by (cases rule: idOk_elim [OF ok, of sid]) (auto simp: view_simps subsOf_uninstall dest: reader_finished intro!: idOk.ended)
  then show ?thesis by (rule idOk_at [OF ok, rotated]) (simp add: view_def fun_eq_iff subsOf_uninstall f loop_uninstall(2))
next
  case (send_reader sid m rest)
  then have t: "subsOf (fs_index s) (msgType m) sid \<noteq> None" using ok by (auto simp: sysOk_def sendsOk_def)
  have "idOk sid (view s' sid)"
    using ok
  proof (cases rule: idOk_elim [of s sid])
    case (polling f)
    with t have "msgType m = flt_typ f" by (simp split: if_splits)
    with polling show ?thesis unfolding send_reader(2) by (intro idOk.polling [of _ f]) (auto simp: view_simps)
  next
    case (unpolling g)
    with t have "msgType m = sub_typ g" by (simp split: if_splits)
    with unpolling show ?thesis unfolding send_reader(2) by (intro idOk.unpolling [of _ g]) (auto simp: view_simps)
  qed (use t send_reader in auto)
  then show ?thesis by (rule idOk_at [OF ok, rotated]) (simp add: view_def send_reader)
next
  case (send_notifier sid m rest f)
  have "idOk sid (view s' sid)"
    unfolding send_notifier(2) using send_notifier(4)
    by (cases rule: idOk_elim [OF ok, of sid]) (auto simp: view_simps intro!: idOk.notifying)
  then show ?thesis by (rule idOk_at [OF ok, rotated]) (simp add: view_def send_notifier)
qed (intro idOk_frame [OF ok], simp add: view_def)+

text \<open>Receiving a message changes nothing but what a filter has collected.\<close>

lemma receive_filter:
  assumes "fs sid = Some f"
  obtains f' where "receiveLogs sid l fs = fs(sid \<mapsto> f')" "flt_s f' = flt_s f" "flt_typ f' = flt_typ f"
      "flt_deadline f' = flt_deadline f" "elems (flt_logs f') = elems (flt_logs f) @ l" "flt_hashes f' = flt_hashes f"
  using assms that [of "f\<lparr>flt_logs := appendSlice (flt_logs f) l\<rparr>"] by (simp add: receiveLogs_def)

lemma receive_header:
  assumes "fs sid = Some f"
  obtains f' where "receiveHeader H sid h fs = fs(sid \<mapsto> f')" "flt_s f' = flt_s f" "flt_typ f' = flt_typ f"
      "flt_deadline f' = flt_deadline f" "elems (flt_hashes f') = elems (flt_hashes f) @ [H h]" "flt_logs f' = flt_logs f"
  using assms that [of "f\<lparr>flt_hashes := appendSlice (flt_hashes f) [H h]\<rparr>"] by (simp add: receiveHeader_def)

lemma receive_none [simp]:
  "fs sid = None \<Longrightarrow> receiveLogs sid l fs = fs" "fs sid = None \<Longrightarrow> receiveHeader H sid h fs = fs"
  by (simp_all add: receiveLogs_def receiveHeader_def)

lemma receive_other [simp]:
  "k \<noteq> sid \<Longrightarrow> receiveLogs sid l fs k = fs k" "k \<noteq> sid \<Longrightarrow> receiveHeader H sid h fs k = fs k"
  by (simp_all add: receiveLogs_def receiveHeader_def split: option.splits)

text \<open>A goroutine that stores its message: the filter is still there, or it is being ended.\<close>

lemma stored_ids:
  assumes ok: "sysOk s" and free: "fs_mutex s = Free" and t: "fs_tasks s sid = Some (Holding m)"
    and fs: "\<And>k. k \<noteq> sid \<Longrightarrow> fs' k = fs_filters s k" "fs_filters s sid = None \<Longrightarrow> fs' sid = None"
      "\<And>f. fs_filters s sid = Some f \<Longrightarrow>
         \<exists>f'. fs' sid = Some f' \<and> flt_s f' = flt_s f \<and> flt_typ f' = flt_typ f \<and> flt_deadline f' = flt_deadline f"
  shows "idOk k (view (s\<lparr>fs_filters := fs', fs_tasks := (fs_tasks s)(sid \<mapsto> Reading)\<rparr>) k)"
proof (cases "k = sid")
  case True
  show ?thesis
    using ok
  proof (cases rule: idOk_elim [of s sid])
    case (polling f)
    with fs(3) obtain f' where "fs' sid = Some f'" "flt_s f' = flt_s f" "flt_typ f' = flt_typ f" "flt_deadline f' = flt_deadline f"
      by blast
    with polling True show ?thesis by (intro idOk.polling [of _ f']) (auto simp: view_simps)
  next
    case (unpolling g)
    with True free fs(2) show ?thesis by (intro idOk.unpolling [of _ g]) (auto simp: view_simps)
  next
    case (ended g)
    with True free fs(2) show ?thesis by (intro idOk.ended [of _ g]) (auto simp: view_simps)
  qed (use t in auto)
next
  case False
  with fs(1) show ?thesis by (intro idOk_frame [OF ok]) (auto simp: view_simps)
qed

lemma readerStep_ids:
  assumes ok: "sysOk s" and "readerStep H s l s'"
  shows "idOk k (view s' k)"
  using assms(2)
proof cases
  case (store_logs sid ls)
  show ?thesis
    unfolding store_logs(2) by (rule stored_ids [OF ok store_logs(3,4)]) (auto elim: receive_filter [where l = ls])
next
  case (store_header sid h)
  show ?thesis
    unfolding store_header(2) by (rule stored_ids [OF ok store_header(3,4)]) (auto elim: receive_header [where h = h and H = H])
next
  case (closed sid)
  show ?thesis
    unfolding closed(2)
  proof (rule idOk_at [OF ok])
    show "idOk sid (view (s\<lparr>fs_tasks := (fs_tasks s)(sid \<mapsto> Exiting)\<rparr>) sid)"
      using closed by (cases rule: idOk_elim [OF ok, of sid]) (auto simp: view_simps intro!: idOk.ended)
  qed (simp add: view_def)
next
  case (exit sid)
  show ?thesis
    unfolding exit(2)
  proof (rule idOk_at [OF ok])
    show "idOk sid (view (s\<lparr>fs_filters := (fs_filters s)(sid := None), fs_tasks := (fs_tasks s)(sid := None)\<rparr>) sid)"
      using exit by (cases rule: idOk_elim [OF ok, of sid]) (auto simp: view_simps intro!: idOk.ended)
  qed (simp add: view_def)
qed

lemma notifierStep_ids:
  assumes ok: "sysOk s" and "notifierStep s l s'"
  shows "idOk k (view s' k)"
  using assms(2)
proof cases
  case (notify sid f m)
  have "idOk sid (view s' sid)"
    unfolding notify(2) using notify(3)
    by (cases rule: idOk_elim [OF ok, of sid]) (auto simp: view_simps intro!: idOk.notifying)
  then show ?thesis by (rule idOk_at [OF ok, rotated]) (simp add: view_def notify)
next
  case (leave sid f)
  have "idOk sid (view s' sid)"
    unfolding leave(2) using leave(3)
    by (cases rule: idOk_elim [OF ok, of sid]) (auto simp: view_simps intro!: idOk.leaving)
  then show ?thesis by (rule idOk_at [OF ok, rotated]) (simp add: view_def leave)
next
  case (left sid)
  have "idOk sid (view s' sid)"
    unfolding left(2) using left(3,4)
    by (cases rule: idOk_elim [OF ok, of sid]) (auto simp: view_simps intro!: idOk.ended)
  then show ?thesis by (rule idOk_at [OF ok, rotated]) (simp add: view_def left)
qed

lemma SubscribeLogs_wf: "SubscribeLogs latest sid now crit = Ok f \<Longrightarrow> wfSub sid f \<and> sub_typ f = LogsSubscription"
  by (auto simp: SubscribeLogs_def subscribeLogs_def wfSub_def Let_def split: if_splits)

lemma SubscribeNewHeads_wf: "wfSub sid (SubscribeNewHeads sid now)" "sub_typ (SubscribeNewHeads sid now) = BlocksSubscription"
  by (simp_all add: SubscribeNewHeads_def wfSub_def)

text \<open>What a poll does to the map: it restarts the timer and empties what it returns.\<close>

lemma GetFilterChanges_cases:
  assumes "GetFilterChanges now sid fs = Some (r, fs')"
  obtains (none) e where "fs sid = None" "r = Err e" "fs' = fs"
  | (some) f f' where "fs sid = Some f" "fs' = fs(sid \<mapsto> f')" "flt_s f' = flt_s f" "flt_typ f' = flt_typ f"
      "flt_deadline f' = Running (now + deadline)"
  using assms by (auto simp: GetFilterChanges_def Let_def split: option.splits if_splits)

lemma polled_ids:
  assumes ok: "sysOk s" and free: "fs_mutex s = Free" and p: "GetFilterChanges now sid (fs_filters s) = Some (r, fs')"
  shows "idOk k (view (s\<lparr>fs_filters := fs'\<rparr>) k)"
  using p
proof (cases rule: GetFilterChanges_cases)
  case none
  then show ?thesis by (intro idOk_frame [OF ok]) (simp add: view_def)
next
  case (some f f')
  have "idOk sid (view (s\<lparr>fs_filters := fs'\<rparr>) sid)"
    using some free by (cases rule: idOk_elim [OF ok, of sid]) (auto simp: view_simps intro!: idOk.polling)
  then show ?thesis by (rule idOk_at [OF ok, rotated]) (simp add: view_def some)
qed

lemma callStep_ids:
  assumes ok: "sysOk s" and "callStep latest s l s'"
  shows "idOk k (view s' k)"
  using assms(2)
proof cases
  case (subscribe_logs sid crit f c)
  have "idOk sid (view s' sid)"
    unfolding subscribe_logs(2) using subscribe_logs(3) SubscribeLogs_wf [OF subscribe_logs(4)]
    by (cases rule: idOk_elim [OF ok, of sid]) (auto simp: view_simps intro!: idOk.installing)
  then show ?thesis by (rule idOk_at [OF ok, rotated]) (simp add: view_def subscribe_logs)
next
  case (subscribe_heads sid c)
  have "idOk sid (view s' sid)"
    unfolding subscribe_heads(2) using subscribe_heads(3) SubscribeNewHeads_wf [of sid "fs_now s"]
    by (cases rule: idOk_elim [OF ok, of sid]) (auto simp: view_simps intro!: idOk.installing)
  then show ?thesis by (rule idOk_at [OF ok, rotated]) (simp add: view_def subscribe_heads)
next
  case (enter_logs sid f)
  have "idOk sid (view s' sid)"
    unfolding enter_logs(2) using enter_logs(3-)
    by (cases rule: idOk_elim [OF ok, of sid]) (auto simp: view_simps newLogsFilter_def intro!: idOk.polling)
  then show ?thesis by (rule idOk_at [OF ok, rotated]) (simp add: view_def enter_logs)
next
  case (enter_heads sid f)
  have "idOk sid (view s' sid)"
    unfolding enter_heads(2) using enter_heads(3-)
    by (cases rule: idOk_elim [OF ok, of sid]) (auto simp: view_simps newHeadsFilter_def intro!: idOk.polling)
  then show ?thesis by (rule idOk_at [OF ok, rotated]) (simp add: view_def enter_heads)
next
  case (start_notifier sid f)
  have "idOk sid (view s' sid)"
    unfolding start_notifier(2) using start_notifier(3)
    by (cases rule: idOk_elim [OF ok, of sid]) (auto simp: view_simps intro!: idOk.notifying)
  then show ?thesis by (rule idOk_at [OF ok, rotated]) (simp add: view_def start_notifier)
next
  case (poll sid r fs')
  then show ?thesis by (auto elim: polled_ids [OF ok])
next
  case (poll_error sid e fs')
  then show ?thesis by (auto elim: polled_ids [OF ok])
next
  case (uninstall sid f fs')
  then have u: "fs_filters s sid = Some f" "fs' = (fs_filters s)(sid := None)"
    by (auto simp: UninstallFilter_def split: option.splits)
  have "idOk sid (view s' sid)"
    unfolding uninstall(2) using uninstall(3) u
    by (cases rule: idOk_elim [OF ok, of sid]) (auto simp: view_simps intro!: idOk.unpolling)
  then show ?thesis by (rule idOk_at [OF ok, rotated]) (simp add: view_def uninstall u)
next
  case (unsubscribed sid f)
  have "idOk sid (view s' sid)"
    unfolding unsubscribed(2) using unsubscribed(3,4)
    by (cases rule: idOk_elim [OF ok, of sid]) (auto simp: view_simps intro!: idOk.ended)
  then show ?thesis by (rule idOk_at [OF ok, rotated]) (simp add: view_def unsubscribed)
qed

lemma timeoutStep_ids:
  assumes ok: "sysOk s" and "timeoutStep s l s'"
  shows "idOk k (view s' k)"
  using assms(2)
proof cases
  case (expire sid order f)
  have "idOk sid (view s' sid)"
    unfolding expire(2) using expire(3-)
    by (cases rule: idOk_elim [OF ok, of sid]) (auto simp: view_simps intro!: idOk.unpolling)
  then show ?thesis by (rule idOk_at [OF ok, rotated]) (auto simp: view_def expire)
next
  case (remove sid order)
  have "idOk sid (view s' sid)"
    unfolding remove(2) using remove(3-)
    by (cases rule: idOk_elim [OF ok, of sid]) (auto simp: view_simps intro!: idOk.ended)
  then show ?thesis by (rule idOk_at [OF ok, rotated]) (auto simp: view_def remove)
qed (intro idOk_frame [OF ok], simp add: view_def)+

lemma fireTimer_fields [simp]:
  "flt_s (fireTimer now f) = flt_s f" "flt_typ (fireTimer now f) = flt_typ f" "flt_logs (fireTimer now f) = flt_logs f"
  "flt_hashes (fireTimer now f) = flt_hashes f" "flt_deadline (fireTimer now f) = Drained \<longleftrightarrow> flt_deadline f = Drained"
  by (simp_all add: fireTimer_def split: Timer.splits)

lemma envStep_ids:
  assumes ok: "sysOk s" and "envStep s l s'"
  shows "idOk k (view s' k)"
  using assms(2)
proof cases
  case (tick d)
  from ok show ?thesis
    unfolding tick(2)
  proof (cases rule: idOk_elim [of s k])
    case (polling f)
    then show "idOk k (view (s\<lparr>fs_now := fs_now s + d, fs_filters := map_option (fireTimer (fs_now s + d)) \<circ> fs_filters s\<rparr>) k)"
      by (intro idOk.polling [of _ "fireTimer (fs_now s + d) f"]) (auto simp: view_simps)
  next
    case (unpolling g)
    then show "idOk k (view (s\<lparr>fs_now := fs_now s + d, fs_filters := map_option (fireTimer (fs_now s + d)) \<circ> fs_filters s\<rparr>) k)"
      by (intro idOk.unpolling [of _ g]) (auto simp: view_simps)
  next
    case (ended g)
    then show "idOk k (view (s\<lparr>fs_now := fs_now s + d, fs_filters := map_option (fireTimer (fs_now s + d)) \<circ> fs_filters s\<rparr>) k)"
      by (intro idOk.ended [of _ g]) (auto simp: view_simps)
  qed (intro idOk_frame [OF ok], simp add: view_def)+
qed (intro idOk_frame [OF ok], simp add: view_def)+

text \<open>The sends of a handler go to installed subscriptions of the right type.\<close>

lemma handler_sends:
  "sendsOk (s\<lparr>fs_logsCh := q, fs_sends := handleLogs order (fs_index s) lev\<rparr>)"
  "sendsOk (s\<lparr>fs_rmLogsCh := q, fs_sends := handleRemovedLogs order (fs_index s) lev\<rparr>)"
  "sendsOk (s\<lparr>fs_chainCh := q', fs_sends := handleChainEvent order (fs_index s) cev\<rparr>)"
  "sendsOk (s\<lparr>fs_txsCh := q'', fs_sends := handleTxsEvent (fs_index s) tev\<rparr>)"
  by (auto simp: sendsOk_def handleTxsEvent_def dest!: handleLogs_from [OF disjI1] handleLogs_from [OF disjI2] handleChainEvent_from)

text \<open>Only the event loop changes its index and what it has to send.\<close>

lemma loop_frame:
  "readerStep H s l s' \<Longrightarrow> fs_index s' = fs_index s \<and> fs_sends s' = fs_sends s"
  "notifierStep s l s' \<Longrightarrow> fs_index s' = fs_index s \<and> fs_sends s' = fs_sends s"
  "callStep latest s l s' \<Longrightarrow> fs_index s' = fs_index s \<and> fs_sends s' = fs_sends s"
  "timeoutStep s l s' \<Longrightarrow> fs_index s' = fs_index s \<and> fs_sends s' = fs_sends s"
  "envStep s l s' \<Longrightarrow> fs_index s' = fs_index s \<and> fs_sends s' = fs_sends s"
  by (cases rule: readerStep.cases, assumption, simp_all)
    (cases rule: notifierStep.cases, assumption, simp_all,
     cases rule: callStep.cases, assumption, simp_all,
     cases rule: timeoutStep.cases, assumption, simp_all,
     cases rule: envStep.cases, assumption, simp_all)

lemma fstep_loop_or_frame:
  assumes "fstep latest H s l s'"
  obtains "loopStep s l s'" | "fs_index s' = fs_index s" "fs_sends s' = fs_sends s"
  using assms loop_frame unfolding fstep_def by metis

lemma loopStep_sends: "loopStep s l s' \<Longrightarrow> sendsOk s \<Longrightarrow> sendsOk s'"
  by (cases rule: loopStep.cases, assumption) (simp_all add: handler_sends, simp_all add: sendsOk_def)

lemma fstep_sends:
  assumes "sysOk s" and "fstep latest H s l s'"
  shows "sendsOk s'"
  using assms(2)
proof (cases rule: fstep_loop_or_frame)
  case 1
  then show ?thesis using assms(1) loopStep_sends by (simp add: sysOk_def)
next
  case 2
  then show ?thesis using assms(1) by (simp add: sysOk_def sendsOk_def)
qed

lemma fstep_mutex:
  assumes "sysOk s" and "fstep latest H s l s'"
  shows "mutexOk (fs_mutex s') (fs_filters s')"
proof -
  have ok: "mutexOk (fs_mutex s) (fs_filters s)" using assms(1) by (simp add: sysOk_def)
  show ?thesis
    using assms(2) unfolding fstep_def
  proof (elim disjE)
    assume "loopStep s l s'"
    then show ?thesis using ok by cases simp_all
  next
    assume "readerStep H s l s'"
    then show ?thesis using ok by cases simp_all
  next
    assume "notifierStep s l s'"
    then show ?thesis using ok by cases simp_all
  next
    assume "callStep latest s l s'"
    then show ?thesis using ok by cases simp_all
  next
    assume "timeoutStep s l s'"
    then show ?thesis using ok by cases (auto simp: rangeOrder_def)
  next
    assume "envStep s l s'"
    then show ?thesis
    proof cases
      case (tick d)
      have "dom (map_option (fireTimer (fs_now s + d)) \<circ> fs_filters s) = dom (fs_filters s)" by (auto simp: dom_def)
      with ok show ?thesis unfolding tick(2) by (cases "fs_mutex s") simp_all
    qed (use ok in simp_all)
  qed
qed

lemma fstep_types:
  assumes "fstep latest H s l s'"
  shows "dom (fs_index s') = dom (fs_index s)"
  using assms
proof (cases rule: fstep_loop_or_frame)
  case 1
  then show ?thesis by cases (simp_all add: installSub_dom uninstallSub_dom)
qed simp

lemma fstep_sysOk:
  assumes "sysOk s" and "fstep latest H s l s'"
  shows "sysOk s'"
proof -
  have "idOk k (view s' k)" for k
    using assms(2) loopStep_ids [OF assms(1)] readerStep_ids [OF assms(1)] notifierStep_ids [OF assms(1)]
      callStep_ids [OF assms(1)] timeoutStep_ids [OF assms(1)] envStep_ids [OF assms(1)]
    unfolding fstep_def by blast
  with fstep_sends [OF assms] fstep_mutex [OF assms] fstep_types [OF assms(2)] assms(1)
  show ?thesis by (simp add: sysOk_def)
qed

lemma run_sysOk: "run latest H tr s \<Longrightarrow> sysOk s"
proof (induction rule: run.induct)
  case (run_start now)
  have "idOk k (view (NewAPI now) k)" for k by (intro idOk.unused) (simp_all add: view_def NewAPI_def NewEventSystem_def)
  then show ?case by (auto simp: sysOk_def sendsOk_def NewAPI_def NewEventSystem_def newIndex_typ dom_def)
next
  case (run_step tr s l s')
  then show ?case by (blast intro: fstep_sysOk)
qed

end
