(* ===== verification/Filter_Delivery.thy ===== *)
theory Filter_Delivery
  imports Filter_Safety
begin

text \<open>
  What a subscription gets: the logs and block hashes of the events the loop handled since the
  subscription was installed are exactly what was delivered, what its filter or goroutine holds and
  what the loop still has to send, in this order.
\<close>

section \<open>Deliveries\<close>

datatype item = LogItem EvmLog | HashItem bytes

fun items :: "(Header \<Rightarrow> bytes) \<Rightarrow> message \<Rightarrow> item list" where
  "items H (LogsMessage l) = map LogItem l"
| "items H (HeaderMessage h) = [HashItem (H h)]"

text \<open>What a subscription is owed for an event: the logs that match it, or the hash of the block.\<close>

fun owedBy :: "(Header \<Rightarrow> bytes) \<Rightarrow> subscription \<Rightarrow> busEvent \<Rightarrow> item list" where
  "owedBy H f (TxsEvent ev) = []"
| "owedBy H f (LogsEvent ev) = (if sub_typ f = LogsSubscription then map LogItem (matchedLogs f ev) else [])"
| "owedBy H f (RemovedLogsEvent ev) = (if sub_typ f = LogsSubscription then map LogItem (matchedLogs f ev) else [])"
| "owedBy H f (ChainEvent' ev) = (if sub_typ f = BlocksSubscription then [HashItem (H (ce_BlockHeader ev))] else [])"

fun dueOf :: "(Header \<Rightarrow> bytes) \<Rightarrow> subscription \<Rightarrow> label \<Rightarrow> item list" where
  "dueOf H f (Handled ev) = owedBy H f ev"
| "dueOf H f _ = []"

text \<open>What it is owed for all events since it was installed.\<close>

fun owed :: "(Header \<Rightarrow> bytes) \<Rightarrow> subscription \<Rightarrow> label list \<Rightarrow> item list" where
  "owed H f [] = []"
| "owed H f (l # tr) = (if l = Installed f then concat (map (dueOf H f) tr) else owed H f tr)"

fun changeItems :: "changes \<Rightarrow> item list" where
  "changeItems (HashChanges hs) = map HashItem (elems hs)"
| "changeItems (LogChanges ls) = map LogItem (elems ls)"

fun gain :: "(Header \<Rightarrow> bytes) \<Rightarrow> rpcID \<Rightarrow> label \<Rightarrow> item list" where
  "gain H sid (Polled k t r) = (if k = sid then changeItems r else [])"
| "gain H sid (Notified k m) = (if k = sid then items H m else [])"
| "gain H sid _ = []"

text \<open>What was delivered for an id, to polls and as notifications.\<close>

definition delivered :: "(Header \<Rightarrow> bytes) \<Rightarrow> rpcID \<Rightarrow> label list \<Rightarrow> item list" where
  "delivered H sid tr = concat (map (gain H sid) tr)"

text \<open>What the filter has collected, what a goroutine holds, and what the loop has still to send.\<close>

definition content :: "apiFilter \<Rightarrow> item list" where
  "content f = (if flt_typ f = LogsSubscription then map LogItem (elems (flt_logs f)) else map HashItem (elems (flt_hashes f)))"

fun held :: "(Header \<Rightarrow> bytes) \<Rightarrow> task option \<Rightarrow> item list" where
  "held H (Some (Holding m)) = items H m"
| "held H (Some (Forwarding f m)) = items H m"
| "held H _ = []"

definition outstanding :: "(Header \<Rightarrow> bytes) \<Rightarrow> fsys \<Rightarrow> rpcID \<Rightarrow> item list" where
  "outstanding H s sid = concat (map (items H) (sendsTo sid (fs_sends s)))"

text \<open>The subscription that is served under an id, and what it has in stock.\<close>

definition serving :: "(Header \<Rightarrow> bytes) \<Rightarrow> idView \<Rightarrow> (subscription \<times> item list) option" where
  "serving H w =
     (case iv_call w of
        Some (c, Installing, f) \<Rightarrow> None
      | Some (c, Ready, f) \<Rightarrow> Some (f, [])
      | None \<Rightarrow>
        if iv_unsub w \<noteq> None \<or> iv_err w then None
        else (case iv_filter w of
            Some g \<Rightarrow> Some (flt_s g, content g @ held H (iv_task w))
          | None \<Rightarrow>
            (case iv_task w of
               Some (Notifying f) \<Rightarrow> Some (f, [])
             | Some (Forwarding f m) \<Rightarrow> Some (f, items H m)
             | _ \<Rightarrow> None)))"

definition noLoss :: "(Header \<Rightarrow> bytes) \<Rightarrow> label list \<Rightarrow> fsys \<Rightarrow> bool" where
  "noLoss H tr s \<longleftrightarrow>
     (\<forall>sid f stock. serving H (view s sid) = Some (f, stock) \<longrightarrow>
        Installed f \<in> set tr \<and> delivered H sid tr @ stock @ outstanding H s sid = owed H f tr) \<and>
     (\<forall>sid. sid \<notin> fs_ids s \<or> fs_calls s sid \<noteq> None \<longrightarrow> delivered H sid tr = []) \<and>
     (\<forall>g. Installed g \<in> set tr \<longrightarrow> sub_id g \<in> fs_ids s \<and> (\<forall>c h. fs_calls s (sub_id g) \<noteq> Some (c, Installing, h)))"

section \<open>Lemmas on runs\<close>

lemma owed_snoc:
  "Installed f \<in> set tr \<Longrightarrow> owed H f (tr @ [l]) = owed H f tr @ dueOf H f l"
  "Installed f \<notin> set tr \<Longrightarrow> owed H f (tr @ [l]) = []"
  by (induction tr) auto

lemma delivered_snoc: "delivered H sid (tr @ [l]) = delivered H sid tr @ gain H sid l"
  by (simp add: delivered_def)

lemma serving_cong:
  assumes "iv_call w' = iv_call w" "iv_task w' = iv_task w" "iv_unsub w' = iv_unsub w" "iv_filter w' = iv_filter w"
    "iv_err w' = iv_err w"
  shows "serving H w' = serving H w"
  unfolding serving_def assms ..

text \<open>A served subscription is installed under its type.\<close>

lemma serving_installed:
  assumes ok: "sysOk s" and "serving H (view s sid) = Some (f, stock)"
  shows "wfSub sid f \<and> (\<forall>ty. subsOf (fs_index s) ty sid = onlySub f ty)"
  using assms(2)
  by (cases rule: idOk_elim [OF ok, of sid])
    (auto simp: serving_def view_def split: option.splits elim: notifier.elims)

text \<open>
  One step for one id: a subscription that is served after the step was just installed, or it was
  served before and what it is owed for the step is what it got or still has to get.
\<close>

definition accounts :: "(Header \<Rightarrow> bytes) \<Rightarrow> fsys \<Rightarrow> label \<Rightarrow> fsys \<Rightarrow> rpcID \<Rightarrow> bool" where
  "accounts H s l s' sid \<longleftrightarrow>
     (\<forall>f stock'. serving H (view s' sid) = Some (f, stock') \<longrightarrow>
        (\<exists>c. l = Installed f \<and> fs_calls s sid = Some (c, Installing, f) \<and> stock' = [] \<and> fs_sends s' = []) \<or>
        (\<exists>stock. serving H (view s sid) = Some (f, stock) \<and>
           gain H sid l @ stock' @ outstanding H s' sid = stock @ outstanding H s sid @ dueOf H f l))"

lemma accounts_cases:
  assumes "accounts H s l s' sid" and "serving H (view s' sid) = Some (f, stock')"
  obtains (new) c where "l = Installed f" "fs_calls s sid = Some (c, Installing, f)" "stock' = []" "fs_sends s' = []"
  | (old) stock where "serving H (view s sid) = Some (f, stock)"
      "gain H sid l @ stock' @ outstanding H s' sid = stock @ outstanding H s sid @ dueOf H f l"
  using assms unfolding accounts_def by blast

lemma accounts_frame:
  assumes "serving H (view s' sid) = serving H (view s sid)" and "fs_sends s' = fs_sends s" and "gain H sid l = []"
    and "\<And>ev. l \<noteq> Handled ev"
  shows "accounts H s l s' sid"
proof -
  have "dueOf H f l = []" for f using assms(4) by (cases l) auto
  with assms show ?thesis by (simp add: accounts_def outstanding_def)
qed

lemma accounts_none: "serving H (view s' sid) = None \<Longrightarrow> accounts H s l s' sid"
  by (simp add: accounts_def)

text \<open>An event: nothing was outstanding before, and after it exactly what it is worth.\<close>

lemma accounts_event:
  assumes ok: "sysOk s" and "view s' sid = view s sid" and "fs_sends s = []"
    and "\<And>f. subsOf (fs_index s) (sub_typ f) sid = Some f \<Longrightarrow> wfSub sid f \<Longrightarrow>
      (\<And>ty. subsOf (fs_index s) ty sid = onlySub f ty) \<Longrightarrow> outstanding H s' sid = owedBy H f ev"
  shows "accounts H s (Handled ev) s' sid"
  using assms serving_installed [OF ok, of H sid] by (auto simp: accounts_def outstanding_def)

section \<open>Every step accounts for every subscription\<close>

lemma outstanding_Cons:
  "fs_sends s = (k, m) # rest \<Longrightarrow> outstanding H s sid = (if k = sid then items H m else []) @ outstanding H (s\<lparr>fs_sends := rest\<rparr>) sid"
  by (simp add: outstanding_def)

lemma outstanding_sends: "fs_sends s' = fs_sends s \<Longrightarrow> outstanding H s' sid = outstanding H s sid"
  by (simp add: outstanding_def)

lemma loopStep_accounts:
  assumes ok: "sysOk s" and "loopStep s l s'"
  shows "accounts H s l s' sid"
  using assms(2)
proof cases
  case (loop_txs ev rest)
  show ?thesis
    unfolding loop_txs(1) using loop_txs(3)
    by (intro accounts_event [OF ok]) (simp_all add: loop_txs view_def outstanding_def handleTxsEvent_def)
next
  case (loop_logs ev rest order)
  show ?thesis
    unfolding loop_logs(1)
  proof (intro accounts_event [OF ok])
    fix f
    assume f: "subsOf (fs_index s) (sub_typ f) sid = Some f" "wfSub sid f" "\<And>ty. subsOf (fs_index s) ty sid = onlySub f ty"
    show "outstanding H s' sid = owedBy H f (LogsEvent ev)"
    proof (cases "sub_typ f = LogsSubscription")
      case True
      with f handleLogs_to(1) [OF loop_logs(5), of sid f ev] show ?thesis by (simp add: loop_logs(2) outstanding_def)
    next
      case False
      then have "sid \<notin> fst ` set (handleLogs order (fs_index s) ev)" using f by (auto dest!: handleLogs_from [OF disjI1])
      with False show ?thesis by (simp add: loop_logs(2) outstanding_def sendsTo_outside)
    qed
  qed (simp_all add: loop_logs view_def)
next
  case (loop_removed ev rest order)
  show ?thesis
    unfolding loop_removed(1)
  proof (intro accounts_event [OF ok])
    fix f
    assume f: "subsOf (fs_index s) (sub_typ f) sid = Some f" "wfSub sid f" "\<And>ty. subsOf (fs_index s) ty sid = onlySub f ty"
    show "outstanding H s' sid = owedBy H f (RemovedLogsEvent ev)"
    proof (cases "sub_typ f = LogsSubscription")
      case True
      with f handleLogs_to(2) [OF loop_removed(5), of sid f ev] show ?thesis by (simp add: loop_removed(2) outstanding_def)
    next
      case False
      then have "sid \<notin> fst ` set (handleRemovedLogs order (fs_index s) ev)" using f by (auto dest!: handleLogs_from [OF disjI2])
      with False show ?thesis by (simp add: loop_removed(2) outstanding_def sendsTo_outside)
    qed
  qed (simp_all add: loop_removed view_def)
next
  case (loop_chain ev rest order)
  show ?thesis
    unfolding loop_chain(1)
  proof (intro accounts_event [OF ok])
    fix f
    assume f: "subsOf (fs_index s) (sub_typ f) sid = Some f" "wfSub sid f" "\<And>ty. subsOf (fs_index s) ty sid = onlySub f ty"
    show "outstanding H s' sid = owedBy H f (ChainEvent' ev)"
      using f handleChainEvent_to [OF loop_chain(5), of sid ev] by (auto simp: loop_chain(2) outstanding_def dom_def)
  qed (simp_all add: loop_chain view_def)
next
  case (loop_install k c f index')
  show ?thesis
  proof (cases "k = sid")
    case True
    with loop_install show ?thesis by (simp add: accounts_def serving_def view_def)
  next
    case False
    then have "serving H (view s' sid) = serving H (view s sid)" by (intro serving_cong) (simp_all add: loop_install(2) view_def)
    then show ?thesis by (rule accounts_frame) (simp_all add: loop_install)
  qed
next
  case (loop_uninstall k f)
  show ?thesis
  proof (cases "k = sid")
    case True
    have "fs_calls s sid = None" using loop_uninstall(4) True by (cases rule: idOk_elim [OF ok, of sid]) auto
    with True show ?thesis by (intro accounts_none) (simp add: loop_uninstall(2) serving_def view_def)
  next
    case False
    then have "serving H (view s' sid) = serving H (view s sid)" by (intro serving_cong) (simp_all add: loop_uninstall(2) view_def)
    then show ?thesis by (rule accounts_frame) (simp_all add: loop_uninstall)
  qed
next
  case (send_reader k m rest)
  have "serving H (view s' sid) = serving H (view s sid)" if "k \<noteq> sid"
    using that by (intro serving_cong) (simp_all add: send_reader(2) view_def)
  moreover have "serving H (view s' k) = map_option (\<lambda>(f, stock). (f, stock @ items H m)) (serving H (view s k))"
    using send_reader(4) by (cases rule: idOk_elim [OF ok, of k]) (auto simp: send_reader(2) serving_def view_def)
  ultimately have "serving H (view s' sid) = (if k = sid then map_option (\<lambda>(f, stock). (f, stock @ items H m)) (serving H (view s sid))
      else serving H (view s sid))" by auto
  with outstanding_Cons [OF send_reader(3), of H sid] show ?thesis
    by (auto simp: accounts_def send_reader(1,2) outstanding_def)
next
  case (send_notifier k m rest f)
  have "serving H (view s' sid) = serving H (view s sid)" if "k \<noteq> sid"
    using that by (intro serving_cong) (simp_all add: send_notifier(2) view_def)
  moreover have "serving H (view s' k) = map_option (\<lambda>(f, stock). (f, stock @ items H m)) (serving H (view s k))"
    using send_notifier(4) by (cases rule: idOk_elim [OF ok, of k]) (auto simp: send_notifier(2) serving_def view_def)
  ultimately have "serving H (view s' sid) = (if k = sid then map_option (\<lambda>(f, stock). (f, stock @ items H m)) (serving H (view s sid))
      else serving H (view s sid))" by auto
  with outstanding_Cons [OF send_notifier(3), of H sid] show ?thesis
    by (auto simp: accounts_def send_notifier(1,2) outstanding_def)
next
  case (send_dropped k m rest f)
  have "serving H (view s' sid) = serving H (view s sid)" by (intro serving_cong) (simp_all add: send_dropped(2) view_def)
  moreover have "serving H (view s k) = None"
    using send_dropped(4) by (cases rule: idOk_elim [OF ok, of k]) (auto simp: serving_def view_def)
  ultimately show ?thesis
    using outstanding_Cons [OF send_dropped(3), of H sid] by (auto simp: accounts_def send_dropped(1,2) outstanding_def)
qed

text \<open>A step of one goroutine or call, by what it does to its own id.\<close>

lemma accounts_local:
  assumes "fs_sends s' = fs_sends s" and "\<And>ev. l \<noteq> Handled ev"
    and "\<And>k. k \<noteq> sid \<Longrightarrow> serving H (view s' k) = serving H (view s k) \<and> gain H k l = []"
    and "serving H (view s' sid) = None \<or>
      (\<exists>f stock stock'. serving H (view s sid) = Some (f, stock) \<and> serving H (view s' sid) = Some (f, stock') \<and>
         stock = gain H sid l @ stock')"
  shows "accounts H s l s' k"
proof (cases "k = sid")
  case True
  have due: "dueOf H f l = []" for f using assms(2) by (cases l) auto
  from assms(4) show ?thesis
    using True due outstanding_sends [OF assms(1), of H sid] by (auto simp: accounts_def)
next
  case False
  with assms show ?thesis by (intro accounts_frame) auto
qed

lemma serving_store:
  assumes ok: "sysOk s" and t: "fs_tasks s sid = Some (Holding m)"
    and f: "\<And>f. fs_filters s sid = Some f \<Longrightarrow> msgType m = flt_typ f \<Longrightarrow>
      \<exists>f'. fs' sid = Some f' \<and> flt_s f' = flt_s f \<and> content f' = content f @ items H m"
  shows "serving H (view (s\<lparr>fs_filters := fs', fs_tasks := (fs_tasks s)(sid \<mapsto> Reading)\<rparr>) sid) = None \<or>
    (\<exists>g stock. serving H (view s sid) = Some (g, stock) \<and>
      serving H (view (s\<lparr>fs_filters := fs', fs_tasks := (fs_tasks s)(sid \<mapsto> Reading)\<rparr>) sid) = Some (g, stock))"
  using ok
proof (cases rule: idOk_elim [of s sid])
  case (polling g)
  with t f [of g] show ?thesis by (auto simp: serving_def view_def)
qed (use t in \<open>auto simp: serving_def view_def\<close>)

lemma readerStep_accounts:
  assumes ok: "sysOk s" and "readerStep H s l s'"
  shows "accounts H s l s' k"
  using assms(2)
proof cases
  case (store_logs sid ls)
  have "\<exists>f'. receiveLogs sid ls (fs_filters s) sid = Some f' \<and> flt_s f' = flt_s f \<and> content f' = content f @ items H (LogsMessage ls)"
    if "fs_filters s sid = Some f" "msgType (LogsMessage ls) = flt_typ f" for f
    using that by (elim receive_filter [where l = ls]) (auto simp: content_def)
  from serving_store [OF ok store_logs(4), where fs' = "receiveLogs sid ls (fs_filters s)", OF this] show ?thesis
    unfolding store_logs(1,2) by (intro accounts_local [where sid = sid]) (auto intro: serving_cong simp: view_def)
next
  case (store_header sid h)
  have "\<exists>f'. receiveHeader H sid h (fs_filters s) sid = Some f' \<and> flt_s f' = flt_s f \<and> content f' = content f @ items H (HeaderMessage h)"
    if "fs_filters s sid = Some f" "msgType (HeaderMessage h) = flt_typ f" for f
    using that by (elim receive_header [where h = h and H = H]) (auto simp: content_def)
  from serving_store [OF ok store_header(4), where fs' = "receiveHeader H sid h (fs_filters s)", OF this] show ?thesis
    unfolding store_header(1,2) by (intro accounts_local [where sid = sid]) (auto intro: serving_cong simp: view_def)
next
  case (closed sid)
  have "serving H (view s' sid) = None"
    using closed(3,4) by (cases rule: idOk_elim [OF ok, of sid]) (auto simp: closed(2) serving_def view_def)
  then show ?thesis
    unfolding closed(1) by (intro accounts_local [where sid = sid]) (auto intro: serving_cong simp: view_def closed(2))
next
  case (exit sid)
  have "serving H (view s' sid) = None"
    using exit(4) by (cases rule: idOk_elim [OF ok, of sid]) (auto simp: exit(2) serving_def view_def)
  then show ?thesis
    unfolding exit(1) by (intro accounts_local [where sid = sid]) (auto intro: serving_cong simp: view_def exit(2))
qed

lemma notifierStep_accounts:
  assumes ok: "sysOk s" and "notifierStep s l s'"
  shows "accounts H s l s' k"
  using assms(2)
proof cases
  case (notify sid f m)
  have "\<exists>f. serving H (view s sid) = Some (f, items H m) \<and> serving H (view s' sid) = Some (f, [])"
    using notify(3) by (cases rule: idOk_elim [OF ok, of sid]) (auto simp: notify(2) serving_def view_def)
  then show ?thesis
    unfolding notify(1) by (intro accounts_local [where sid = sid]) (auto intro: serving_cong simp: view_def notify(2))
next
  case (leave sid f)
  have "serving H (view s' sid) = None"
    using leave(3) by (cases rule: idOk_elim [OF ok, of sid]) (auto simp: leave(2) serving_def view_def)
  then show ?thesis
    unfolding leave(1) by (intro accounts_local [where sid = sid]) (auto intro: serving_cong simp: view_def leave(2))
next
  case (left sid)
  have "serving H (view s' sid) = None"
    using left(3,4) by (cases rule: idOk_elim [OF ok, of sid]) (auto simp: left(2) serving_def view_def)
  then show ?thesis
    unfolding left(1) by (intro accounts_local [where sid = sid]) (auto intro: serving_cong simp: view_def left(2))
qed

lemma poll_accounts:
  assumes ok: "sysOk s" and "fs_mutex s = Free" and p: "GetFilterChanges now sid (fs_filters s) = Some (r, fs')"
  shows "case r of
      Ok c \<Rightarrow> \<exists>f stock. serving H (view s sid) = Some (f, changeItems c @ stock) \<and> serving H (view (s\<lparr>fs_filters := fs'\<rparr>) sid) = Some (f, stock)
    | _ \<Rightarrow> fs' = fs_filters s"
  using ok
proof (cases rule: idOk_elim [of s sid])
  case (polling f)
  with p show ?thesis
    by (auto simp: GetFilterChanges_def wfSub_def Let_def serving_def view_def content_def split: if_splits)
qed (use p assms(2) in \<open>auto simp: GetFilterChanges_def\<close>)

lemma callStep_accounts:
  assumes ok: "sysOk s" and "callStep latest s l s'"
  shows "accounts H s l s' k"
  using assms(2)
proof cases
  case (subscribe_logs sid crit f c)
  have "serving H (view s' sid) = None" by (simp add: subscribe_logs(2) serving_def view_def)
  then show ?thesis
    unfolding subscribe_logs(1) by (intro accounts_local [where sid = sid]) (auto intro: serving_cong simp: view_def subscribe_logs(2))
next
  case (subscribe_heads sid c)
  have "serving H (view s' sid) = None" by (simp add: subscribe_heads(2) serving_def view_def)
  then show ?thesis
    unfolding subscribe_heads(1) by (intro accounts_local [where sid = sid]) (auto intro: serving_cong simp: view_def subscribe_heads(2))
next
  case (enter_logs sid f)
  have "serving H (view s sid) = Some (f, []) \<and> serving H (view s' sid) = Some (f, [])"
    using enter_logs(4) by (cases rule: idOk_elim [OF ok, of sid])
      (auto simp: enter_logs(2) serving_def view_def newLogsFilter_def content_def)
  then show ?thesis
    unfolding enter_logs(1) by (intro accounts_local [where sid = sid]) (auto intro: serving_cong simp: view_def enter_logs(2))
next
  case (enter_heads sid f)
  have "serving H (view s sid) = Some (f, []) \<and> serving H (view s' sid) = Some (f, [])"
    using enter_heads(4) by (cases rule: idOk_elim [OF ok, of sid])
      (auto simp: enter_heads(2) serving_def view_def newHeadsFilter_def content_def)
  then show ?thesis
    unfolding enter_heads(1) by (intro accounts_local [where sid = sid]) (auto intro: serving_cong simp: view_def enter_heads(2))
next
  case (start_notifier sid f)
  have "serving H (view s sid) = Some (f, []) \<and> serving H (view s' sid) = Some (f, [])"
    using start_notifier(3) by (cases rule: idOk_elim [OF ok, of sid]) (auto simp: start_notifier(2) serving_def view_def)
  then show ?thesis
    unfolding start_notifier(1) by (intro accounts_local [where sid = sid]) (auto intro: serving_cong simp: view_def start_notifier(2))
next
  case (poll sid r fs')
  then have "fs' j = fs_filters s j" if "j \<noteq> sid" for j
    using that by (auto elim!: GetFilterChanges_cases)
  with poll_accounts [OF ok poll(3,4), of H] show ?thesis
    unfolding poll(1) by (intro accounts_local [where sid = sid]) (auto intro: serving_cong simp: view_def poll(2))
next
  case (poll_error sid e fs')
  with poll_accounts [OF ok poll_error(3,4), of H] have "s' = s" by simp
  with poll_error(1) show ?thesis by (intro accounts_frame) simp_all
next
  case (uninstall sid f fs')
  then have u: "fs_filters s sid = Some f" "fs' = (fs_filters s)(sid := None)"
    by (auto simp: UninstallFilter_def split: option.splits)
  then have "serving H (view s' sid) = None"
    by (cases rule: idOk_elim [OF ok, of sid]) (auto simp: uninstall(2) serving_def view_def)
  then show ?thesis
    unfolding uninstall(1) by (intro accounts_local [where sid = sid]) (auto intro: serving_cong simp: view_def uninstall(2) u)
next
  case (unsubscribed sid f)
  have "serving H (view s' sid) = None"
    using unsubscribed(3,4) by (cases rule: idOk_elim [OF ok, of sid]) (auto simp: unsubscribed(2) serving_def view_def)
  then show ?thesis
    unfolding unsubscribed(1) by (intro accounts_local [where sid = sid]) (auto intro: serving_cong simp: view_def unsubscribed(2))
qed

lemma timeoutStep_accounts:
  assumes ok: "sysOk s" and "timeoutStep s l s'"
  shows "accounts H s l s' k"
  using assms(2)
proof cases
  case (expire sid order f)
  have "serving H (view s' sid) = None"
    using expire(3-) by (cases rule: idOk_elim [OF ok, of sid]) (auto simp: expire(2) serving_def view_def)
  then show ?thesis
    unfolding expire(1) by (intro accounts_local [where sid = sid]) (auto intro: serving_cong simp: view_def expire(2))
next
  case (remove sid order)
  have "serving H (view s' sid) = None"
    using remove(3,4) by (cases rule: idOk_elim [OF ok, of sid]) (auto simp: remove(2) serving_def view_def)
  then show ?thesis
    unfolding remove(1) by (intro accounts_local [where sid = sid]) (auto intro: serving_cong simp: view_def remove(2))
qed (intro accounts_frame serving_cong, simp_all add: view_def)+

lemma envStep_accounts:
  assumes "envStep s l s'"
  shows "accounts H s l s' k"
  using assms
proof cases
  case (tick d)
  have "content (fireTimer t f) = content f" for t f by (simp add: content_def)
  then have "serving H (view s' k) = serving H (view s k)"
    by (auto simp: tick(2) serving_def view_def split: option.split callPhase.split)
  with tick show ?thesis by (intro accounts_frame) simp_all
qed (intro accounts_frame serving_cong, simp_all add: view_def)+

lemma fstep_accounts: "sysOk s \<Longrightarrow> fstep latest H s l s' \<Longrightarrow> accounts H s l s' sid"
  unfolding fstep_def
  by (auto intro: loopStep_accounts readerStep_accounts notifierStep_accounts callStep_accounts timeoutStep_accounts
      envStep_accounts)

section \<open>Nothing is lost or delivered twice\<close>

text \<open>Subscribe calls are made once for an id, and what is delivered goes to ids past that call.\<close>

definition orderly :: "(Header \<Rightarrow> bytes) \<Rightarrow> fsys \<Rightarrow> label \<Rightarrow> fsys \<Rightarrow> bool" where
  "orderly H s l s' \<longleftrightarrow>
     fs_ids s \<subseteq> fs_ids s' \<and>
     (\<forall>sid. fs_calls s' sid \<noteq> None \<longrightarrow> sid \<notin> fs_ids s \<or> fs_calls s sid \<noteq> None) \<and>
     (\<forall>sid c h. fs_calls s' sid = Some (c, Installing, h) \<longrightarrow> sid \<notin> fs_ids s \<or> fs_calls s sid = Some (c, Installing, h)) \<and>
     (\<forall>sid. gain H sid l \<noteq> [] \<longrightarrow> sid \<in> fs_ids s \<and> fs_calls s' sid = None) \<and>
     (\<forall>g. l = Installed g \<longrightarrow> sub_id g \<in> fs_ids s \<and> (\<forall>c h. fs_calls s' (sub_id g) \<noteq> Some (c, Installing, h)))"

lemma orderly_calls:
  assumes "orderly H s l s'" and "sid \<notin> fs_ids s' \<or> fs_calls s' sid \<noteq> None"
  shows "sid \<notin> fs_ids s \<or> fs_calls s sid \<noteq> None" and "gain H sid l = []"
proof -
  have o: "fs_ids s \<subseteq> fs_ids s'" "fs_calls s' sid \<noteq> None \<Longrightarrow> sid \<notin> fs_ids s \<or> fs_calls s sid \<noteq> None"
    "gain H sid l \<noteq> [] \<Longrightarrow> sid \<in> fs_ids s \<and> fs_calls s' sid = None"
    using assms(1) unfolding orderly_def by simp_all
  show "sid \<notin> fs_ids s \<or> fs_calls s sid \<noteq> None" using o(1,2) assms(2) by auto
  show "gain H sid l = []" using o(1,3) assms(2) by (cases "gain H sid l = []") auto
qed

lemma orderly_frame:
  "fs_ids s' = fs_ids s \<Longrightarrow> fs_calls s' = fs_calls s \<Longrightarrow> (\<And>sid. gain H sid l = []) \<Longrightarrow> (\<And>g. l \<noteq> Installed g) \<Longrightarrow> orderly H s l s'"
  by (simp add: orderly_def)

lemma loopStep_orderly:
  assumes ok: "sysOk s" and "loopStep s l s'"
  shows "orderly H s l s'"
  using assms(2)
proof cases
  case (loop_install sid c f index')
  have "sub_id f = sid" "sid \<in> fs_ids s"
    using loop_install(4) by (cases rule: idOk_elim [OF ok, of sid]; auto simp: wfSub_def)+
  then show ?thesis using loop_install(4) by (auto simp: orderly_def loop_install(1,2))
qed (intro orderly_frame, simp_all)+

lemma callStep_orderly:
  assumes ok: "sysOk s" and "callStep latest s l s'"
  shows "orderly H s l s'"
  using assms(2)
proof cases
  case (poll sid r fs')
  then have "fs_filters s sid \<noteq> None" by (auto elim: GetFilterChanges_cases)
  then have "sid \<in> fs_ids s" "fs_calls s sid = None" by (cases rule: idOk_elim [OF ok, of sid]; auto)+
  then show ?thesis by (auto simp: orderly_def poll(1,2))
qed (auto simp: orderly_def)

lemma notifierStep_orderly:
  assumes ok: "sysOk s" and "notifierStep s l s'"
  shows "orderly H s l s'"
  using assms(2)
proof cases
  case (notify sid f m)
  then have "sid \<in> fs_ids s" "fs_calls s sid = None" by (cases rule: idOk_elim [OF ok, of sid]; auto)+
  then show ?thesis by (auto simp: orderly_def notify(1,2))
qed (intro orderly_frame, simp_all)+

lemma other_orderly:
  "readerStep H' s l s' \<Longrightarrow> orderly H s l s'" "timeoutStep s l s' \<Longrightarrow> orderly H s l s'" "envStep s l s' \<Longrightarrow> orderly H s l s'"
  by (erule readerStep.cases; intro orderly_frame; simp)
    (erule timeoutStep.cases envStep.cases; intro orderly_frame; simp)+

lemma fstep_orderly: "sysOk s \<Longrightarrow> fstep latest H' s l s' \<Longrightarrow> orderly H s l s'"
  unfolding fstep_def by (auto intro: loopStep_orderly callStep_orderly notifierStep_orderly other_orderly)

lemma noLoss_step:
  assumes ok: "sysOk s" and inv: "noLoss H tr s" and step: "fstep latest H s l s'"
  shows "noLoss H (tr @ [l]) s'"
proof -
  note o = fstep_orderly [OF ok step, of H]
  have "Installed f \<in> set (tr @ [l]) \<and> delivered H sid (tr @ [l]) @ stock' @ outstanding H s' sid = owed H f (tr @ [l])"
    if "serving H (view s' sid) = Some (f, stock')" for sid f stock'
    using fstep_accounts [OF ok step, of sid] that
  proof (cases rule: accounts_cases)
    case l: (new c)
    note c = l(2-)
    have "sub_id f = sid" using c(1) by (cases rule: idOk_elim [OF ok, of sid]) (auto simp: wfSub_def)
    with inv c(1) have "Installed f \<notin> set tr" "delivered H sid tr = []" by (auto simp: noLoss_def)
    with l show ?thesis by (simp add: owed_snoc(2) delivered_snoc outstanding_def)
  next
    case (old stock)
    with inv have "Installed f \<in> set tr" "delivered H sid tr @ stock @ outstanding H s sid = owed H f tr"
      by (auto simp: noLoss_def)
    with old(2) show ?thesis by (simp add: owed_snoc(1) delivered_snoc)
  qed
  moreover have "delivered H sid (tr @ [l]) = []" if "sid \<notin> fs_ids s' \<or> fs_calls s' sid \<noteq> None" for sid
  proof -
    note orderly_calls [OF o that]
    with inv show ?thesis by (auto simp: noLoss_def delivered_snoc)
  qed
  moreover have "sub_id g \<in> fs_ids s' \<and> (\<forall>c h. fs_calls s' (sub_id g) \<noteq> Some (c, Installing, h))"
    if "Installed g \<in> set (tr @ [l])" for g
    using that o inv unfolding noLoss_def orderly_def by auto
  ultimately show ?thesis by (simp add: noLoss_def)
qed

lemma run_noLoss: "run latest H tr s \<Longrightarrow> noLoss H tr s"
proof (induction rule: run.induct)
  case (run_start now)
  show ?case by (simp add: noLoss_def serving_def view_def NewAPI_def NewEventSystem_def delivered_def)
next
  case (run_step tr s l s')
  then show ?case using noLoss_step run_sysOk by blast
qed

lemma run_served:
  assumes "run latest H tr s" and "serving H (view s sid) = Some (f, stock)"
  shows "Installed f \<in> set tr" and "delivered H sid tr @ stock @ outstanding H s sid = owed H f tr"
  using run_noLoss [OF assms(1)] assms(2) unfolding noLoss_def by blast+

lemma serving_filter:
  assumes "sysOk s" and "fs_filters s sid = Some f" and "fs_unsubs s sid = None" and "sid \<notin> fs_err s"
  shows "serving H (view s sid) = Some (flt_s f, content f @ held H (fs_tasks s sid))"
  using assms(2-) by (cases rule: idOk_elim [OF assms(1), of sid]) (auto simp: serving_def view_def)

end
