(* ===== verification/Filter_Progress.thy ===== *)
theory Filter_Progress
  imports Filter_Delivery
begin

text \<open>
  Progress of the filter system: while the mutex is free, every outstanding message can be
  delivered and a poll can get everything its filter is owed; the timeout loop, which keeps the
  mutex while it waits, can stop the system for ever.
\<close>

section \<open>Continuations of a run\<close>

inductive steps :: "int \<Rightarrow> (Header \<Rightarrow> bytes) \<Rightarrow> fsys \<Rightarrow> label list \<Rightarrow> fsys \<Rightarrow> bool" for latest H s where
  steps_refl: "steps latest H s [] s"
| steps_snoc: "steps latest H s tr s' \<Longrightarrow> fstep latest H s' l s'' \<Longrightarrow> steps latest H s (tr @ [l]) s''"

lemma steps_run: "steps latest H s tr' s' \<Longrightarrow> run latest H tr s \<Longrightarrow> run latest H (tr @ tr') s'"
proof (induction rule: steps.induct)
  case (steps_snoc tr' s' l s'')
  then show ?case using run_step [of latest H "tr @ tr'" s' l s''] by simp
qed simp

lemma steps_trans: "steps latest H s' tr' s'' \<Longrightarrow> steps latest H s tr s' \<Longrightarrow> steps latest H s (tr @ tr') s''"
proof (induction rule: steps.induct)
  case (steps_snoc tr' u l u')
  then show ?case using steps.steps_snoc [of latest H s "tr @ tr'" u l u'] by simp
qed simp

lemma steps_single: "fstep latest H s l s' \<Longrightarrow> steps latest H s [l] s'"
  using steps_snoc [OF steps_refl] by fastforce

lemma steps_sysOk: "steps latest H s tr s' \<Longrightarrow> sysOk s \<Longrightarrow> sysOk s'"
  by (induction rule: steps.induct) (auto intro: fstep_sysOk)

section \<open>Delivering what is outstanding\<close>

text \<open>Steps that handle no event, leave the subscriptions and the mutex alone and only add to filters.\<close>

definition quiet :: "label \<Rightarrow> bool" where
  "quiet l \<longleftrightarrow> (\<forall>ev. l \<noteq> Handled ev)"

definition gentle :: "fsys \<Rightarrow> fsys \<Rightarrow> bool" where
  "gentle s s' \<longleftrightarrow> fs_mutex s' = fs_mutex s \<and> fs_unsubs s' = fs_unsubs s \<and> fs_err s' = fs_err s \<and>
     (\<forall>sid f. fs_filters s sid = Some f \<longrightarrow> (\<exists>f'. fs_filters s' sid = Some f' \<and> flt_s f' = flt_s f))"

lemma gentle_refl [simp]: "gentle s s"
  by (simp add: gentle_def)

lemma gentle_trans: "gentle s s' \<Longrightarrow> gentle s' s'' \<Longrightarrow> gentle s s''"
  unfolding gentle_def by metis

definition moves :: "int \<Rightarrow> (Header \<Rightarrow> bytes) \<Rightarrow> fsys \<Rightarrow> fsys \<Rightarrow> bool" where
  "moves latest H s s' \<longleftrightarrow> (\<exists>tr. steps latest H s tr s' \<and> list_all quiet tr \<and> gentle s s')"

lemma moves_refl [simp]: "moves latest H s s"
  unfolding moves_def using steps_refl [of latest H s] by (intro exI [of _ "[]"]) simp

lemma moves_trans:
  assumes "moves latest H s s'" and "moves latest H s' s''"
  shows "moves latest H s s''"
proof -
  from assms obtain tr tr' where "steps latest H s tr s'" "list_all quiet tr" "gentle s s'"
    "steps latest H s' tr' s''" "list_all quiet tr'" "gentle s' s''" unfolding moves_def by blast
  then show ?thesis
    unfolding moves_def using steps_trans [of latest H s' tr' s'' s tr] gentle_trans by (intro exI [of _ "tr @ tr'"]) auto
qed

lemma moves_single: "fstep latest H s l s' \<Longrightarrow> quiet l \<Longrightarrow> gentle s s' \<Longrightarrow> moves latest H s s'"
  unfolding moves_def using steps_single [of latest H s l s'] by (intro exI [of _ "[l]"]) simp

lemma moves_sysOk: "moves latest H s s' \<Longrightarrow> sysOk s \<Longrightarrow> sysOk s'"
  unfolding moves_def using steps_sysOk by blast

lemma receive_keeps:
  "fs k = Some f \<Longrightarrow> \<exists>f'. receiveLogs sid l fs k = Some f' \<and> flt_s f' = flt_s f"
  "fs k = Some f \<Longrightarrow> \<exists>f'. receiveHeader H sid h fs k = Some f' \<and> flt_s f' = flt_s f"
  by (auto simp: receiveLogs_def receiveHeader_def split: option.splits)

text \<open>A goroutine that holds a message can store it while the mutex is free.\<close>

lemma store_moves:
  assumes "fs_mutex s = Free" and "fs_tasks s sid = Some (Holding m)"
  obtains s' where "moves latest H s s'" "fs_tasks s' sid = Some Reading" "fs_sends s' = fs_sends s"
proof (cases m)
  case (LogsMessage l)
  define s' where "s' = s\<lparr>fs_filters := receiveLogs sid l (fs_filters s), fs_tasks := (fs_tasks s)(sid \<mapsto> Reading)\<rparr>"
  have "readerStep H s Tau s'" using assms LogsMessage unfolding s'_def by (intro store_logs) simp_all
  then have "moves latest H s s'"
    by (intro moves_single [of _ _ _ Tau]) (auto simp: fstep_def quiet_def gentle_def s'_def intro: receive_keeps)
  then show ?thesis by (rule that) (simp_all add: s'_def)
next
  case (HeaderMessage h)
  define s' where "s' = s\<lparr>fs_filters := receiveHeader H sid h (fs_filters s), fs_tasks := (fs_tasks s)(sid \<mapsto> Reading)\<rparr>"
  have "readerStep H s Tau s'" using assms HeaderMessage unfolding s'_def by (intro store_header) simp_all
  then have "moves latest H s s'"
    by (intro moves_single [of _ _ _ Tau]) (auto simp: fstep_def quiet_def gentle_def s'_def intro: receive_keeps)
  then show ?thesis by (rule that) (simp_all add: s'_def)
qed

lemma send_moves:
  assumes "fs_sends s = (sid, m) # rest"
    and "fs_tasks s sid = Some Reading \<or> (\<exists>f. fs_tasks s sid = Some (Notifying f)) \<or> (\<exists>f. fs_unsubs s sid = Some (Requesting, f))"
  obtains s' where "moves latest H s s'" "fs_sends s' = rest"
proof -
  from assms obtain s' where "loopStep s Tau s'" "gentle s s'" "fs_sends s' = rest"
    by (elim disjE exE) (auto simp: gentle_def dest: send_reader send_notifier send_dropped)
  then show ?thesis by (intro that moves_single [of _ _ _ Tau]) (auto simp: fstep_def quiet_def)
qed

text \<open>Any outstanding message can be delivered while the mutex is free.\<close>

lemma drain_one:
  assumes ok: "sysOk s" and free: "fs_mutex s = Free" and sends: "fs_sends s = (sid, m) # rest"
  obtains s' where "moves latest H s s'" "fs_sends s' = rest"
proof -
  let ?open = "\<lambda>s'. fs_tasks s' sid = Some Reading \<or> (\<exists>f. fs_tasks s' sid = Some (Notifying f)) \<or>
      (\<exists>f. fs_unsubs s' sid = Some (Requesting, f))"
  have "\<exists>s'. moves latest H s s' \<and> fs_sends s' = fs_sends s \<and> ?open s'"
    using ok
  proof (cases rule: idOk_elim [of s sid])
    case (ready c f)
    define u where "u = s\<lparr>fs_calls := (fs_calls s)(sid := None)\<rparr>"
    have e: "callStep latest s (Entered sid (fs_now s)) (u\<lparr>fs_filters := (fs_filters s)(sid \<mapsto> newLogsFilter (fs_now s) (sub_logsCrit f) f),
        fs_tasks := (fs_tasks s)(sid \<mapsto> Reading)\<rparr>)" if "c = PollCaller" "sub_typ f = LogsSubscription"
      unfolding u_def using enter_logs [OF free ready(2) [unfolded that(1)] that(2), of latest] by simp
    have h: "callStep latest s (Entered sid (fs_now s)) (u\<lparr>fs_filters := (fs_filters s)(sid \<mapsto> newHeadsFilter (fs_now s) f),
        fs_tasks := (fs_tasks s)(sid \<mapsto> Reading)\<rparr>)" if "c = PollCaller" "sub_typ f = BlocksSubscription"
      unfolding u_def using enter_heads [OF free ready(2) [unfolded that(1)] that(2), of latest] by simp
    have n: "callStep latest s Tau (u\<lparr>fs_tasks := (fs_tasks s)(sid \<mapsto> Notifying f)\<rparr>)" if "c = NotifyCaller"
      unfolding u_def using start_notifier [OF ready(2) [unfolded that], of latest] by simp
    consider "c = PollCaller" "sub_typ f = LogsSubscription" | "c = PollCaller" "sub_typ f = BlocksSubscription" | "c = NotifyCaller"
      using ready(3) by (cases c) (auto simp: wfSub_def)
    then obtain l s' where "callStep latest s l s'" "quiet l" "gentle s s'" "fs_sends s' = fs_sends s" "?open s'"
      using ready by cases (auto simp: u_def quiet_def gentle_def dest: e h n)
    then show ?thesis using moves_single [of latest H s l s'] by (auto simp: fstep_def)
  next
    case (polling f)
    then consider "fs_tasks s sid = Some Reading" | m' where "fs_tasks s sid = Some (Holding m')" by (auto elim: reader.elims)
    then show ?thesis
    proof cases
      case 1
      then show ?thesis using moves_refl [of latest H s] by (intro exI [of _ s]) simp
    next
      case 2
      obtain s' where "moves latest H s s'" "fs_tasks s' sid = Some Reading" "fs_sends s' = fs_sends s"
        by (rule store_moves [OF free 2])
      then show ?thesis by (intro exI [of _ s']) simp
    qed
  next
    case (notifying g)
    then consider "fs_tasks s sid = Some (Notifying g)" | m' where "fs_tasks s sid = Some (Forwarding g m')"
      by (auto elim: notifier.elims)
    then show ?thesis
    proof cases
      case 1
      then show ?thesis using moves_refl [of latest H s] by (intro exI [of _ s]) simp
    next
      case 2
      then have "fstep latest H s (Notified sid m') (s\<lparr>fs_tasks := (fs_tasks s)(sid \<mapsto> Notifying g)\<rparr>)"
        by (auto simp: fstep_def intro: notify)
      then have "moves latest H s (s\<lparr>fs_tasks := (fs_tasks s)(sid \<mapsto> Notifying g)\<rparr>)"
        by (rule moves_single) (simp_all add: quiet_def gentle_def)
      then show ?thesis by (intro exI [of _ "s\<lparr>fs_tasks := (fs_tasks s)(sid \<mapsto> Notifying g)\<rparr>"]) simp
    qed
  next
    case (unpolling g)
    then show ?thesis using moves_refl [of latest H s] by (intro exI [of _ s]) simp
  next
    case (leaving g)
    then show ?thesis using moves_refl [of latest H s] by (intro exI [of _ s]) simp
  qed (use ok sends in \<open>auto simp: sysOk_def sendsOk_def\<close>)
  then obtain s' where s': "moves latest H s s'" "fs_sends s' = (sid, m) # rest" "?open s'" using sends by auto
  obtain s'' where "moves latest H s' s''" "fs_sends s'' = rest" using send_moves [OF s'(2,3)] by blast
  with s'(1) show ?thesis using moves_trans that by blast
qed

lemma drain:
  assumes "sysOk s" and "fs_mutex s = Free"
  obtains s' where "moves latest H s s'" "fs_sends s' = []"
proof -
  have "\<exists>s'. moves latest H s s' \<and> fs_sends s' = []"
    using assms
  proof (induction "fs_sends s" arbitrary: s)
    case Nil
    then show ?case using moves_refl by metis
  next
    case (Cons a rest)
    obtain sid m where "a = (sid, m)" by (cases a)
    with Cons.hyps(2) have a: "fs_sends s = (sid, m) # rest" by simp
    obtain u where u: "moves latest H s u" "fs_sends u = rest" by (rule drain_one [OF Cons.prems a])
    then have "fs_mutex u = Free" using Cons.prems(2) by (auto simp: moves_def gentle_def)
    with Cons.hyps(1) [of u] u moves_sysOk [OF u(1) Cons.prems(1)] show ?case using moves_trans by metis
  qed
  then show ?thesis using that by blast
qed

lemma moves_keeps:
  assumes "moves latest H s s'" and "fs_filters s sid = Some f"
  obtains tr f' where "steps latest H s tr s'" "list_all quiet tr" "fs_filters s' sid = Some f'" "flt_s f' = flt_s f"
    "fs_mutex s' = fs_mutex s" "fs_unsubs s' = fs_unsubs s" "fs_err s' = fs_err s"
  using assms unfolding moves_def gentle_def by blast

lemma owed_quiet: "list_all quiet tr' \<Longrightarrow> owed H f (tr @ tr') = owed H f tr \<or> Installed f \<notin> set tr"
proof (induction tr' rule: rev_induct)
  case (snoc l tr')
  have "dueOf H f l = []" using snoc.prems by (cases l) (auto simp: quiet_def)
  with snoc show ?case using owed_snoc(1) [of f "tr @ tr'" H l] by auto
qed simp

lemma poll_possible:
  assumes ok: "sysOk s" and free: "fs_mutex s = Free" and f: "fs_filters s sid = Some f" "fs_unsubs s sid = None" "sid \<notin> fs_err s"
  obtains r s' where "fstep latest H s (Polled sid (fs_now s) r) s'" "serving H (view s' sid) = Some (flt_s f, held H (fs_tasks s sid))"
    "fs_sends s' = fs_sends s"
  using ok
proof (cases rule: idOk_elim [of s sid])
  case (polling g)
  then have g: "flt_typ f = BlocksSubscription \<or> flt_typ f = LogsSubscription" "flt_deadline f \<noteq> Drained"
    using f by (auto simp: wfSub_def)
  then obtain c fs' where p: "GetFilterChanges (fs_now s) sid (fs_filters s) = Some (Ok c, fs')"
    using f by (auto simp: GetFilterChanges_def Let_def)
  have "fstep latest H s (Polled sid (fs_now s) c) (s\<lparr>fs_filters := fs'\<rparr>)"
    using poll [OF free p] by (simp add: fstep_def)
  moreover have "serving H (view (s\<lparr>fs_filters := fs'\<rparr>) sid) = Some (flt_s f, held H (fs_tasks s sid))"
    using p f polling g by (auto simp: GetFilterChanges_def Let_def serving_def view_def content_def split: if_splits)
  ultimately show ?thesis by (rule that) simp
qed (use f free in auto)


section \<open>Timers\<close>

text \<open>The times an id was used: entered or polled.\<close>

fun useOf :: "rpcID \<Rightarrow> label \<Rightarrow> int list" where
  "useOf sid (Entered k t) = (if k = sid then [t] else [])"
| "useOf sid (Polled k t r) = (if k = sid then [t] else [])"
| "useOf sid _ = []"

definition uses :: "rpcID \<Rightarrow> label list \<Rightarrow> int list" where
  "uses sid tr = concat (map (useOf sid) tr)"

text \<open>A running timer ends five minutes after the last use; one that fired did so.\<close>

definition timerOk :: "int list \<Rightarrow> int \<Rightarrow> apiFilter \<Rightarrow> bool" where
  "timerOk ts now f \<longleftrightarrow> ts \<noteq> [] \<and>
     (case flt_deadline f of Running d \<Rightarrow> d = last ts + deadline | _ \<Rightarrow> last ts + deadline \<le> now)"

definition timersOk :: "label list \<Rightarrow> fsys \<Rightarrow> bool" where
  "timersOk tr s \<longleftrightarrow> (\<forall>sid f. fs_filters s sid = Some f \<longrightarrow> timerOk (uses sid tr) (fs_now s) f)"

lemma uses_snoc: "uses sid (tr @ [l]) = uses sid tr @ useOf sid l"
  by (simp add: uses_def)

lemma timersOk_step:
  assumes "timersOk tr s"
    and "\<And>sid f'. fs_filters s' sid = Some f' \<Longrightarrow>
      (\<exists>t. useOf sid l = [t] \<and> flt_deadline f' = Running (t + deadline)) \<or>
      (useOf sid l = [] \<and> (\<exists>f. fs_filters s sid = Some f \<and> (timerOk (uses sid tr) (fs_now s) f \<longrightarrow> timerOk (uses sid tr) (fs_now s') f')))"
  shows "timersOk (tr @ [l]) s'"
  unfolding timersOk_def
proof (intro allI impI)
  fix sid f'
  assume "fs_filters s' sid = Some f'"
  from assms(2) [OF this] show "timerOk (uses sid (tr @ [l])) (fs_now s') f'"
  proof (elim disjE exE conjE)
    fix t
    assume "useOf sid l = [t]" "flt_deadline f' = Running (t + deadline)"
    then show ?thesis by (simp add: uses_snoc timerOk_def)
  next
    fix f
    assume "useOf sid l = []" "fs_filters s sid = Some f"
      "timerOk (uses sid tr) (fs_now s) f \<longrightarrow> timerOk (uses sid tr) (fs_now s') f'"
    with assms(1) show ?thesis by (simp add: timersOk_def uses_snoc)
  qed
qed

lemma timer_kept: "flt_deadline f' = flt_deadline f \<Longrightarrow> timerOk ts now f \<Longrightarrow> timerOk ts now f'"
  by (simp add: timerOk_def)

lemma receive_timer:
  "receiveLogs sid l fs k = Some f' \<Longrightarrow> \<exists>f. fs k = Some f \<and> flt_deadline f' = flt_deadline f"
  "receiveHeader H sid h fs k = Some f' \<Longrightarrow> \<exists>f. fs k = Some f \<and> flt_deadline f' = flt_deadline f"
  by (auto simp: receiveLogs_def receiveHeader_def split: option.splits if_splits)

lemma readerStep_timers: "timersOk tr s \<Longrightarrow> readerStep H s l s' \<Longrightarrow> timersOk (tr @ [l]) s'"
  by (erule readerStep.cases; rule timersOk_step, assumption)
    (auto dest!: receive_timer intro: timer_kept split: if_splits)

lemma callStep_timers:
  assumes "timersOk tr s" and ok: "sysOk s" and "callStep latest s l s'"
  shows "timersOk (tr @ [l]) s'"
  using assms(3)
proof cases
  case (poll sid r fs')
  show ?thesis
    unfolding poll(1,2) using poll(4)
    by (intro timersOk_step [OF assms(1)]) (auto elim!: GetFilterChanges_cases split: if_splits)
next
  case (poll_error sid e fs')
  with poll_accounts [OF ok poll_error(3,4)] have "s' = s" by simp
  with poll_error(1) assms(1) show ?thesis by (simp add: timersOk_def uses_snoc)
next
  case (uninstall sid f fs')
  show ?thesis
    unfolding uninstall(1,2) using uninstall(4)
    by (intro timersOk_step [OF assms(1)]) (auto simp: UninstallFilter_def split: option.splits if_splits)
qed (rule timersOk_step [OF assms(1)], auto simp: newLogsFilter_def newHeadsFilter_def split: if_splits)+

lemma timeoutStep_timers: "timersOk tr s \<Longrightarrow> timeoutStep s l s' \<Longrightarrow> timersOk (tr @ [l]) s'"
  by (erule timeoutStep.cases; rule timersOk_step, assumption) (auto simp: timerOk_def split: if_splits)

lemma envStep_timers:
  assumes "timersOk tr s" and "envStep s l s'"
  shows "timersOk (tr @ [l]) s'"
  using assms(2)
proof cases
  case (tick d)
  have "timerOk ts now f \<Longrightarrow> now \<le> now' \<Longrightarrow> timerOk ts now' (fireTimer now' f)" for ts now now' f
    by (auto simp: timerOk_def fireTimer_def split: Timer.splits)
  with tick show ?thesis by (intro timersOk_step [OF assms(1)]) auto
qed (rule timersOk_step [OF assms(1)], auto)+

lemma timers_frame:
  "fs_filters s' = fs_filters s \<Longrightarrow> fs_now s' = fs_now s \<Longrightarrow> (\<And>sid. useOf sid l = []) \<Longrightarrow> timersOk tr s \<Longrightarrow> timersOk (tr @ [l]) s'"
  by (simp add: timersOk_def uses_snoc)

lemma loopStep_timers: "timersOk tr s \<Longrightarrow> loopStep s l s' \<Longrightarrow> timersOk (tr @ [l]) s'"
  by (erule loopStep.cases; rule timers_frame; simp)

lemma notifierStep_timers: "timersOk tr s \<Longrightarrow> notifierStep s l s' \<Longrightarrow> timersOk (tr @ [l]) s'"
  by (erule notifierStep.cases; rule timers_frame; simp)

lemma run_timersOk: "run latest H tr s \<Longrightarrow> timersOk tr s"
proof (induction rule: run.induct)
  case (run_start now)
  show ?case by (simp add: timersOk_def NewAPI_def NewEventSystem_def)
next
  case (run_step tr s l s')
  note ok = run_sysOk [OF run_step.hyps(1)]
  from run_step.hyps(2) run_step.IH show ?case
    unfolding fstep_def
    by (auto intro: loopStep_timers readerStep_timers notifierStep_timers callStep_timers [OF _ ok] timeoutStep_timers envStep_timers)
qed

section \<open>The deadlock of the timeout loop\<close>

text \<open>
  The timeout loop holds the mutex and waits in \<open>Unsubscribe\<close> for the event loop; the event loop sends
  to another filter, whose goroutine waits for the mutex.
\<close>

definition deadlocked :: "fsys \<Rightarrow> rpcID \<Rightarrow> rpcID \<Rightarrow> bool" where
  "deadlocked s a b \<longleftrightarrow> a \<noteq> b \<and> (\<exists>order. fs_mutex s = WaitingFor a order) \<and> (\<exists>f. fs_unsubs s a = Some (Requesting, f)) \<and>
     (\<exists>m rest. fs_sends s = (b, m) # rest) \<and> (\<exists>m. fs_tasks s b = Some (Holding m)) \<and> fs_unsubs s b = None \<and>
     b \<in> fs_ids s \<and> fs_calls s b = None"

lemma deadlocked_step:
  assumes "deadlocked s a b" and "fstep latest H s l s'"
  shows "deadlocked s' a b \<and> fs_mutex s' = fs_mutex s \<and> fs_sends s' = fs_sends s"
proof -
  from assms(1) obtain order f m rest m' where d: "a \<noteq> b" "fs_mutex s = WaitingFor a order" "fs_unsubs s a = Some (Requesting, f)"
    "fs_sends s = (b, m) # rest" "fs_tasks s b = Some (Holding m')" "fs_unsubs s b = None"
    "b \<in> fs_ids s" "fs_calls s b = None" by (auto simp: deadlocked_def)
  show ?thesis
    using assms(2) unfolding fstep_def
  proof (elim disjE)
    assume "loopStep s l s'"
    then show ?thesis by cases (use d in auto)
  next
    assume "readerStep H s l s'"
    then show ?thesis by cases (use d in \<open>auto simp: deadlocked_def\<close>)
  next
    assume "notifierStep s l s'"
    then show ?thesis by cases (use d in \<open>auto simp: deadlocked_def\<close>)
  next
    assume "callStep latest s l s'"
    then show ?thesis by cases (use d in \<open>auto simp: deadlocked_def\<close>)
  next
    assume "timeoutStep s l s'"
    then show ?thesis by cases (use d in \<open>auto simp: deadlocked_def\<close>)
  next
    assume "envStep s l s'"
    then show ?thesis by cases (use d in \<open>auto simp: deadlocked_def\<close>)
  qed
qed

lemma deadlocked_forever:
  "steps latest H s tr s' \<Longrightarrow> deadlocked s a b \<Longrightarrow> deadlocked s' a b \<and> fs_mutex s' = fs_mutex s \<and> fs_sends s' = fs_sends s"
  by (induction rule: steps.induct) (use deadlocked_step in auto)

end
