(* ===== verification/Filter_Props.thy ===== *)
theory Filter_Props
  imports Filter_Progress
begin

text \<open>
  The properties of the filter system, and a run with two block filters on which they are tried:
  both are entered, time passes until their timers have fired, an event is read by both goroutines,
  and then the timeout loop starts.
\<close>

section \<open>A run\<close>

text \<open>\<open>NewBlockFilter\<close> from start to end.\<close>

lemma run_loop: "run latest H tr s \<Longrightarrow> loopStep s l s' \<Longrightarrow> run latest H (tr @ [l]) s'"
  and run_reader: "run latest H tr s \<Longrightarrow> readerStep H s l s' \<Longrightarrow> run latest H (tr @ [l]) s'"
  and run_call: "run latest H tr s \<Longrightarrow> callStep latest s l s' \<Longrightarrow> run latest H (tr @ [l]) s'"
  and run_timeout: "run latest H tr s \<Longrightarrow> timeoutStep s l s' \<Longrightarrow> run latest H (tr @ [l]) s'"
  and run_env: "run latest H tr s \<Longrightarrow> envStep s l s' \<Longrightarrow> run latest H (tr @ [l]) s'"
  by (auto intro: run_step simp: fstep_def)

lemma run_NewBlockFilter:
  assumes "run latest H tr s" and "fs_mutex s = Free" and "fs_sends s = []" and "sid \<notin> fs_ids s"
    and "fs_index s BlocksSubscription = Some m" and "fs_calls s sid = None"
  defines "f \<equiv> SubscribeNewHeads sid (fs_now s)"
  shows "run latest H (tr @ [Tau, Installed f, Entered sid (fs_now s)])
    (s\<lparr>fs_ids := insert sid (fs_ids s), fs_index := (fs_index s)(BlocksSubscription \<mapsto> m(sid \<mapsto> f)),
       fs_filters := (fs_filters s)(sid \<mapsto> newHeadsFilter (fs_now s) f), fs_tasks := (fs_tasks s)(sid \<mapsto> Reading)\<rparr>)"
proof -
  let ?s1 = "s\<lparr>fs_ids := insert sid (fs_ids s), fs_calls := (fs_calls s)(sid \<mapsto> (PollCaller, Installing, f))\<rparr>"
  let ?s2 = "?s1\<lparr>fs_index := (fs_index s)(BlocksSubscription \<mapsto> m(sid \<mapsto> f)), fs_calls := (fs_calls s)(sid \<mapsto> (PollCaller, Ready, f))\<rparr>"
  have "run latest H (tr @ [Tau]) ?s1" unfolding f_def by (intro run_call [OF assms(1)] subscribe_heads assms)
  moreover have "loopStep ?s1 (Installed f) (?s1\<lparr>fs_index := (fs_index s)(BlocksSubscription \<mapsto> m(sid \<mapsto> f)),
      fs_calls := (fs_calls ?s1)(sid \<mapsto> (PollCaller, Ready, f))\<rparr>)"
    using assms by (intro loop_install) (simp_all add: installSub_def f_def SubscribeNewHeads_def)
  ultimately have "run latest H ((tr @ [Tau]) @ [Installed f]) ?s2" using run_loop by fastforce
  moreover have "callStep latest ?s2 (Entered sid (fs_now ?s2)) (?s2\<lparr>fs_calls := (fs_calls ?s2)(sid := None),
      fs_filters := (fs_filters ?s2)(sid \<mapsto> newHeadsFilter (fs_now ?s2) f), fs_tasks := (fs_tasks ?s2)(sid \<mapsto> Reading)\<rparr>)"
    using assms by (intro enter_heads) (simp_all add: f_def SubscribeNewHeads_def)
  ultimately have "run latest H (((tr @ [Tau]) @ [Installed f]) @ [Entered sid (fs_now ?s2)])
      (?s2\<lparr>fs_calls := (fs_calls ?s2)(sid := None),
      fs_filters := (fs_filters ?s2)(sid \<mapsto> newHeadsFilter (fs_now ?s2) f), fs_tasks := (fs_tasks ?s2)(sid \<mapsto> Reading)\<rparr>)"
    by (rule run_call)
  moreover have "(fs_calls s)(sid := None) = fs_calls s" using assms(6) by auto
  ultimately show ?thesis by simp
qed

definition exSub :: "rpcID \<Rightarrow> subscription" where
  "exSub sid = SubscribeNewHeads sid 0"

definition exHeader :: Header where
  "exHeader = \<lparr>hdr_Number = 1, hdr_BlockHash = [7]\<rparr>"

definition exChainEvent :: ChainEvent where
  "exChainEvent = \<lparr>ce_BlockHeader = exHeader, ce_Logs = []\<rparr>"

definition exTwo :: fsys where
  "exTwo = (NewAPI 0)\<lparr>fs_index := newIndex(BlocksSubscription \<mapsto> [''a'' \<mapsto> exSub ''a'', ''b'' \<mapsto> exSub ''b'']),
     fs_ids := {''b'', ''a''},
     fs_filters := [''a'' \<mapsto> newHeadsFilter 0 (exSub ''a''), ''b'' \<mapsto> newHeadsFilter 0 (exSub ''b'')],
     fs_tasks := [''a'' \<mapsto> Reading, ''b'' \<mapsto> Reading]\<rparr>"

definition exTwoRun :: "label list" where
  "exTwoRun = [Tau, Installed (exSub ''a''), Entered ''a'' 0, Tau, Installed (exSub ''b''), Entered ''b'' 0]"

lemma run_exTwo: "run latest H exTwoRun exTwo"
proof -
  have a: "run latest H [Tau, Installed (exSub ''a''), Entered ''a'' 0]
      ((NewAPI 0)\<lparr>fs_index := newIndex(BlocksSubscription \<mapsto> [''a'' \<mapsto> exSub ''a'']), fs_ids := {''a''},
        fs_filters := [''a'' \<mapsto> newHeadsFilter 0 (exSub ''a'')], fs_tasks := [''a'' \<mapsto> Reading]\<rparr>)" (is "run _ _ _ ?s")
    using run_NewBlockFilter [OF run_start [of latest H 0], of "''a''" Map.empty]
    by (simp add: NewAPI_def NewEventSystem_def newIndex_typ exSub_def)
  have "run latest H ([Tau, Installed (exSub ''a''), Entered ''a'' 0] @ [Tau, Installed (exSub ''b''), Entered ''b'' 0]) exTwo"
    using run_NewBlockFilter [OF a, of "''b''" "[''a'' \<mapsto> exSub ''a'']"] by (simp add: NewAPI_def NewEventSystem_def exSub_def exTwo_def)
  then show ?thesis by (simp add: exTwoRun_def)
qed

text \<open>Five minutes later an event was read by both goroutines.\<close>

definition exFired :: "rpcID \<Rightarrow> apiFilter" where
  "exFired sid = (newHeadsFilter 0 (exSub sid))\<lparr>flt_deadline := Fired\<rparr>"

definition exBusy :: fsys where
  "exBusy = exTwo\<lparr>fs_now := 300, fs_filters := [''a'' \<mapsto> exFired ''a'', ''b'' \<mapsto> exFired ''b''],
     fs_tasks := [''a'' \<mapsto> Holding (HeaderMessage exHeader), ''b'' \<mapsto> Holding (HeaderMessage exHeader)]\<rparr>"

definition exBusyRun :: "label list" where
  "exBusyRun = exTwoRun @ [Tau, Tau, Handled (ChainEvent' exChainEvent), Tau, Tau]"

lemma exTwo_simps [simp]:
  "fs_sends exTwo = []" "fs_mutex exTwo = Free" "fs_now exTwo = 0" "fs_chainCh exTwo = []"
  "fs_index exTwo = newIndex(BlocksSubscription \<mapsto> [''a'' \<mapsto> exSub ''a'', ''b'' \<mapsto> exSub ''b''])"
  "fs_filters exTwo = [''a'' \<mapsto> newHeadsFilter 0 (exSub ''a''), ''b'' \<mapsto> newHeadsFilter 0 (exSub ''b'')]"
  "fs_tasks exTwo = [''a'' \<mapsto> Reading, ''b'' \<mapsto> Reading]" "fs_ids exTwo = {''b'', ''a''}"
  "fs_calls exTwo = Map.empty" "fs_unsubs exTwo = Map.empty" "fs_err exTwo = {}"
  by (simp_all add: exTwo_def NewAPI_def NewEventSystem_def)

lemma exTwo_blocks: "subsOf (fs_index exTwo) BlocksSubscription = [''a'' \<mapsto> exSub ''a'', ''b'' \<mapsto> exSub ''b'']"
  by (simp add: subsOf_def)

lemma exHandle:
  "handleChainEvent [''a'', ''b''] (fs_index exTwo) exChainEvent = [(''a'', HeaderMessage exHeader), (''b'', HeaderMessage exHeader)]"
  "handleChainEvent [''b'', ''a''] (fs_index exTwo) exChainEvent = [(''b'', HeaderMessage exHeader), (''a'', HeaderMessage exHeader)]"
  unfolding handleChainEvent_def exTwo_blocks by (simp_all add: exChainEvent_def)

lemma run_exBusy: "run latest H exBusyRun exBusy"
proof -
  let ?F = "[''a'' \<mapsto> exFired ''a'', ''b'' \<mapsto> exFired ''b'']"
  let ?h = "HeaderMessage exHeader"
  have fire: "map_option (fireTimer 300) \<circ> fs_filters exTwo = ?F"
    by (auto simp: fun_eq_iff fireTimer_def newHeadsFilter_def deadline_def exFired_def)
  let ?s1 = "exTwo\<lparr>fs_now := 300, fs_filters := ?F\<rparr>"
  let ?s2 = "?s1\<lparr>fs_chainCh := [exChainEvent]\<rparr>"
  let ?s3 = "?s1\<lparr>fs_sends := [(''a'', ?h), (''b'', ?h)]\<rparr>"
  let ?s4 = "?s1\<lparr>fs_sends := [(''b'', ?h)], fs_tasks := [''a'' \<mapsto> Holding ?h, ''b'' \<mapsto> Reading]\<rparr>"
  have r1: "run latest H (exTwoRun @ [Tau]) ?s1"
    using run_env [OF run_exTwo tick [of 300 exTwo]] fire by simp
  have r2: "run latest H ((exTwoRun @ [Tau]) @ [Tau]) ?s2"
    using run_env [OF r1 post_chain [of ?s1 exChainEvent]] by (simp add: chainEvChanSize_def)
  have r3: "run latest H (((exTwoRun @ [Tau]) @ [Tau]) @ [Handled (ChainEvent' exChainEvent)]) ?s3"
    using run_loop [OF r2 loop_chain [of ?s2 exChainEvent "[]" "[''a'', ''b'']"]] exTwo_blocks exHandle(1)
    by (simp add: rangeOrder_def insert_commute exTwo_def NewAPI_def NewEventSystem_def)
  have r4: "run latest H ((((exTwoRun @ [Tau]) @ [Tau]) @ [Handled (ChainEvent' exChainEvent)]) @ [Tau]) ?s4"
    using run_loop [OF r3 send_reader [of ?s3 "''a''" ?h "[(''b'', ?h)]"]] by (simp add: fun_upd_twist)
  show ?thesis
    using run_loop [OF r4 send_reader [of ?s4 "''b''" ?h "[]"]] by (simp add: exBusyRun_def exBusy_def exTwo_def NewAPI_def NewEventSystem_def)
qed

text \<open>Then the timeout loop starts with the first filter, and the event loop with the second.\<close>

definition exLock :: fsys where
  "exLock = exBusy\<lparr>fs_mutex := WaitingFor ''a'' [''b''],
     fs_filters := [''a'' \<mapsto> (exFired ''a'')\<lparr>flt_deadline := Drained\<rparr>, ''b'' \<mapsto> exFired ''b''],
     fs_unsubs := [''a'' \<mapsto> (Requesting, exSub ''a'')],
     fs_sends := [(''b'', HeaderMessage exHeader), (''a'', HeaderMessage exHeader)]\<rparr>"

definition exLockRun :: "label list" where
  "exLockRun = exBusyRun @ [Tau, Tau, Expired ''a'', Handled (ChainEvent' exChainEvent)]"

lemma exBusy_simps [simp]:
  "fs_sends exBusy = []" "fs_mutex exBusy = Free" "fs_now exBusy = 300" "fs_chainCh exBusy = []"
  "fs_index exBusy = fs_index exTwo" "fs_filters exBusy = [''a'' \<mapsto> exFired ''a'', ''b'' \<mapsto> exFired ''b'']"
  "fs_tasks exBusy = [''a'' \<mapsto> Holding (HeaderMessage exHeader), ''b'' \<mapsto> Holding (HeaderMessage exHeader)]"
  "fs_ids exBusy = {''b'', ''a''}" "fs_calls exBusy = Map.empty" "fs_unsubs exBusy = Map.empty" "fs_err exBusy = {}"
  by (simp_all add: exBusy_def)

lemma run_exLock: "run latest H exLockRun exLock"
proof -
  let ?D = "(exFired ''a'')\<lparr>flt_deadline := Drained\<rparr>"
  let ?s1 = "exBusy\<lparr>fs_chainCh := [exChainEvent]\<rparr>"
  let ?s2 = "?s1\<lparr>fs_mutex := Visiting [''a'', ''b'']\<rparr>"
  let ?s3 = "?s1\<lparr>fs_mutex := WaitingFor ''a'' [''b''], fs_filters := [''a'' \<mapsto> ?D, ''b'' \<mapsto> exFired ''b''],
    fs_unsubs := [''a'' \<mapsto> (Requesting, exSub ''a'')]\<rparr>"
  have r1: "run latest H (exBusyRun @ [Tau]) ?s1"
    using run_env [OF run_exBusy post_chain [of exBusy exChainEvent]] by (simp add: chainEvChanSize_def)
  have r2: "run latest H ((exBusyRun @ [Tau]) @ [Tau]) ?s2"
    using run_timeout [OF r1 sweep [of ?s1 "[''a'', ''b'']"]] by (simp add: rangeOrder_def insert_commute)
  have "flt_deadline (exFired ''a'') = Fired" "flt_s (exFired ''a'') = exSub ''a''"
    by (simp_all add: exFired_def newHeadsFilter_def)
  then have r3: "run latest H (((exBusyRun @ [Tau]) @ [Tau]) @ [Expired ''a'']) ?s3"
    using run_timeout [OF r2 expire [of ?s2 "''a''" "[''b'']" "exFired ''a''"]] by (simp add: fun_upd_twist)
  show ?thesis
    using run_loop [OF r3 loop_chain [of ?s3 exChainEvent "[]" "[''b'', ''a'']"]] exTwo_blocks exHandle(2)
    by (simp add: rangeOrder_def insert_commute exLockRun_def exLock_def exBusy_def exTwo_def NewAPI_def NewEventSystem_def)
qed

lemma exLock_deadlocked: "deadlocked exLock ''a'' ''b''"
  by (simp add: deadlocked_def exLock_def)

text \<open>A run with a subscription of \<open>NewHeads\<close> that is about to notify.\<close>

definition exHeads :: fsys where
  "exHeads = (NewAPI 0)\<lparr>fs_index := newIndex(BlocksSubscription \<mapsto> [''c'' \<mapsto> exSub ''c'']), fs_ids := {''c''},
     fs_tasks := [''c'' \<mapsto> Forwarding (exSub ''c'') (HeaderMessage exHeader)]\<rparr>"

definition exHeadsRun :: "label list" where
  "exHeadsRun = [Tau, Installed (exSub ''c''), Tau, Tau, Handled (ChainEvent' exChainEvent), Tau]"

lemma run_exHeads: "run latest H exHeadsRun exHeads"
proof -
  let ?f = "exSub ''c''" and ?h = "HeaderMessage exHeader"
  let ?i = "newIndex(BlocksSubscription \<mapsto> [''c'' \<mapsto> exSub ''c''])"
  let ?s1 = "(NewAPI 0)\<lparr>fs_ids := {''c''}, fs_calls := [''c'' \<mapsto> (NotifyCaller, Installing, ?f)]\<rparr>"
  let ?s2 = "(NewAPI 0)\<lparr>fs_ids := {''c''}, fs_calls := [''c'' \<mapsto> (NotifyCaller, Ready, ?f)], fs_index := ?i\<rparr>"
  let ?s3 = "(NewAPI 0)\<lparr>fs_ids := {''c''}, fs_index := ?i, fs_tasks := [''c'' \<mapsto> Notifying ?f]\<rparr>"
  let ?s4 = "?s3\<lparr>fs_chainCh := [exChainEvent]\<rparr>"
  let ?s5 = "?s3\<lparr>fs_sends := [(''c'', ?h)]\<rparr>"
  have sub: "subsOf ?i BlocksSubscription = [''c'' \<mapsto> ?f]" by (simp add: subsOf_def)
  have r1: "run latest H ([] @ [Tau]) ?s1"
    using run_call [OF run_start [of latest H 0] subscribe_heads [of "''c''" "NewAPI 0" latest NotifyCaller]]
    by (simp add: NewAPI_def NewEventSystem_def exSub_def)
  have r2: "run latest H (([] @ [Tau]) @ [Installed ?f]) ?s2"
    using run_loop [OF r1 loop_install [of ?s1 "''c''" NotifyCaller ?f ?i]]
    by (simp add: NewAPI_def NewEventSystem_def installSub_def exSub_def SubscribeNewHeads_def newIndex_typ)
  have r3: "run latest H ((([] @ [Tau]) @ [Installed ?f]) @ [Tau]) ?s3"
    using run_call [OF r2 start_notifier [of ?s2 "''c''" ?f latest]] by (simp add: NewAPI_def NewEventSystem_def)
  have r4: "run latest H (((([] @ [Tau]) @ [Installed ?f]) @ [Tau]) @ [Tau]) ?s4"
    using run_env [OF r3 post_chain [of ?s3 exChainEvent]] by (simp add: NewAPI_def NewEventSystem_def chainEvChanSize_def)
  have h: "handleChainEvent [''c''] ?i exChainEvent = [(''c'', ?h)]"
    unfolding handleChainEvent_def sub by (simp add: exChainEvent_def)
  have r5: "run latest H ((((([] @ [Tau]) @ [Installed ?f]) @ [Tau]) @ [Tau]) @ [Handled (ChainEvent' exChainEvent)]) ?s5"
    using run_loop [OF r4 loop_chain [of ?s4 exChainEvent "[]" "[''c'']"]] sub h by (simp add: NewAPI_def NewEventSystem_def rangeOrder_def)
  have "run latest H (((((([] @ [Tau]) @ [Installed ?f]) @ [Tau]) @ [Tau]) @ [Handled (ChainEvent' exChainEvent)]) @ [Tau]) exHeads"
    using run_loop [OF r5 send_notifier [of ?s5 "''c''" ?h "[]" ?f]] by (simp add: NewAPI_def NewEventSystem_def exHeads_def)
  then show ?thesis by (simp add: exHeadsRun_def)
qed

section \<open>Properties\<close>

text \<open>
  C7: No log and no block hash is lost or delivered twice.  In every state a run can reach, for a
  filter that is not being removed: what its polls have returned so far, followed by what the filter
  has collected, what its goroutine holds and what the event loop has still to send, is exactly the
  sequence of the logs that match its criteria (or the hashes of the blocks) in the events handled since it was
  installed, however the goroutines, the calls and the timeout loop interleave.
\<close>

theorem filter_loses_nothing:
  assumes "run latest H tr s"
    and "fs_filters s sid = Some f" and "fs_unsubs s sid = None" and "sid \<notin> fs_err s"
  shows "delivered H sid tr @ content f @ held H (fs_tasks s sid) @ outstanding H s sid = owed H (flt_s f) tr"
  using run_served(2) [OF assms(1) serving_filter [OF run_sysOk [OF assms(1)] assms(2-)]] by simp

theorem filter_loses_nothing_witness:
  "delivered hdr_BlockHash ''a'' exBusyRun @ content (exFired ''a'') @ held hdr_BlockHash (Some (Holding (HeaderMessage exHeader))) @
     outstanding hdr_BlockHash exBusy ''a'' = owed hdr_BlockHash (exSub ''a'') exBusyRun \<and>
   owed hdr_BlockHash (exSub ''a'') exBusyRun = [HashItem [7]]"
proof -
  have "flt_s (exFired ''a'') = exSub ''a''" by (simp add: exFired_def newHeadsFilter_def)
  with filter_loses_nothing [OF run_exBusy [of "- 2" hdr_BlockHash], of "''a''" "exFired ''a''"] show ?thesis
    by (simp add: exBusyRun_def exTwoRun_def exSub_def SubscribeNewHeads_def exChainEvent_def exHeader_def)
qed

text \<open>
  C32: Notifications.  The same holds of a subscription of \<open>Logs\<close> or \<open>NewHeads\<close>: what was notified,
  what its goroutine is about to notify and what the event loop has still to send is what it is
  owed.
\<close>

theorem subscriber_loses_nothing:
  assumes "run latest H tr s" and "fs_tasks s sid = Some (Notifying f) \<or> (\<exists>m. fs_tasks s sid = Some (Forwarding f m))"
  shows "delivered H sid tr @ held H (fs_tasks s sid) @ outstanding H s sid = owed H f tr"
proof -
  have "serving H (view s sid) = Some (f, held H (fs_tasks s sid))"
    using assms(2) by (cases rule: idOk_elim [OF run_sysOk [OF assms(1)], of sid]) (auto simp: serving_def view_def)
  from run_served(2) [OF assms(1) this] show ?thesis by simp
qed

theorem subscriber_loses_nothing_witness:
  "delivered hdr_BlockHash ''c'' exHeadsRun @ held hdr_BlockHash (fs_tasks exHeads ''c'') @ outstanding hdr_BlockHash exHeads ''c'' =
     owed hdr_BlockHash (exSub ''c'') exHeadsRun \<and>
   owed hdr_BlockHash (exSub ''c'') exHeadsRun = [HashItem [7]]"
proof -
  have "fs_tasks exHeads ''c'' = Some (Forwarding (exSub ''c'') (HeaderMessage exHeader))" by (simp add: exHeads_def)
  with subscriber_loses_nothing [OF run_exHeads [of "- 2" hdr_BlockHash], of "''c''" "exSub ''c''"] show ?thesis
    by (simp add: exHeadsRun_def exSub_def SubscribeNewHeads_def exChainEvent_def exHeader_def)
qed

text \<open>
  C21: A poll can get everything.  While the mutex is free, a run with a filter that is not being
  removed can go on, without any new event, so that the next poll has delivered, all polls
  together, exactly what the filter was owed: no goroutine and no other filter can prevent it.
\<close>

theorem poll_gets_everything:
  assumes "run latest H tr s" and "fs_mutex s = Free"
    and "fs_filters s sid = Some f" and "fs_unsubs s sid = None" and "sid \<notin> fs_err s"
  shows "\<exists>tr' t r s'. run latest H (tr @ tr' @ [Polled sid t r]) s' \<and> list_all quiet tr' \<and>
    delivered H sid (tr @ tr' @ [Polled sid t r]) = owed H (flt_s f) tr"
proof -
  have ok: "sysOk s" using assms(1) by (rule run_sysOk)
  obtain u where u: "moves latest H s u" "fs_sends u = []" by (rule drain [OF ok assms(2)])
  have fu: "fs_mutex u = Free" using u assms(2) by (auto simp: moves_def gentle_def)
  have "\<exists>w. moves latest H u w \<and> fs_sends w = [] \<and> held H (fs_tasks w sid) = []"
  proof (cases "\<exists>m. fs_tasks u sid = Some (Holding m)")
    case True
    then obtain m where m: "fs_tasks u sid = Some (Holding m)" by blast
    obtain w where "moves latest H u w" "fs_tasks w sid = Some Reading" "fs_sends w = fs_sends u"
      by (rule store_moves [OF fu m])
    with u(2) show ?thesis by (intro exI [of _ w]) simp
  next
    case False
    have "sysOk u" using moves_sysOk [OF u(1) ok] .
    moreover obtain f' where "fs_filters u sid = Some f'" "fs_unsubs u sid = None" "sid \<notin> fs_err u"
      using assms(4,5) by (auto intro: moves_keeps [OF u(1) assms(3)])
    ultimately have "fs_tasks u sid = Some Reading"
      using False fu by (cases rule: idOk_elim [of u sid]) (auto elim: reader.elims)
    with u(2) show ?thesis using moves_refl [of latest H u] by (intro exI [of _ u]) simp
  qed
  then obtain w where w: "moves latest H u w" "fs_sends w = []" "held H (fs_tasks w sid) = []" by blast
  have m: "moves latest H s w" using moves_trans [OF u(1) w(1)] .
  then obtain tr' f' where t: "steps latest H s tr' w" "list_all quiet tr'" and g: "fs_mutex w = Free"
      "fs_filters w sid = Some f'" "flt_s f' = flt_s f" "fs_unsubs w sid = None" "sid \<notin> fs_err w"
    using assms(2,4,5) by (auto intro: moves_keeps [OF m assms(3)])
  obtain r s' where p: "fstep latest H w (Polled sid (fs_now w) r) s'" "serving H (view s' sid) = Some (flt_s f', [])" "fs_sends s' = []"
    using poll_possible [OF moves_sysOk [OF m ok] g(1,2,4,5)] w by metis
  have r: "run latest H (tr @ tr' @ [Polled sid (fs_now w) r]) s'"
    using run_step [OF steps_run [OF t(1) assms(1)] p(1)] by simp
  have "delivered H sid (tr @ tr' @ [Polled sid (fs_now w) r]) = owed H (flt_s f) (tr @ tr' @ [Polled sid (fs_now w) r])"
    using run_served(2) [OF r p(2)] p(3) g(3) by (simp add: outstanding_def)
  moreover have "Installed (flt_s f) \<in> set tr"
    by (rule run_served(1) [OF assms(1) serving_filter [OF ok assms(3-5)]])
  ultimately show ?thesis
    using r t(2) owed_quiet [of "tr' @ [Polled sid (fs_now w) r]" H "flt_s f" tr] by (auto simp: quiet_def)
qed

theorem poll_gets_everything_witness:
  "\<exists>tr' t r s'. run (- 2) hdr_BlockHash (exBusyRun @ tr' @ [Polled ''a'' t r]) s' \<and> list_all quiet tr' \<and>
    delivered hdr_BlockHash ''a'' (exBusyRun @ tr' @ [Polled ''a'' t r]) = [HashItem [7]]"
proof -
  have "owed hdr_BlockHash (flt_s (exFired ''a'')) exBusyRun = [HashItem [7]]"
    by (simp add: exFired_def newHeadsFilter_def exBusyRun_def exTwoRun_def exSub_def SubscribeNewHeads_def
        exChainEvent_def exHeader_def)
  with poll_gets_everything [OF run_exBusy [of "- 2" hdr_BlockHash], of "''a''" "exFired ''a''"] show ?thesis by simp
qed

text \<open>
  C31: Only idle filters expire.  When the timeout loop removes a filter, the last time the filter was created
  or polled is at least five minutes ago.
\<close>

theorem expired_filter_was_idle:
  assumes "run latest H (tr @ [Expired sid]) s"
  shows "uses sid tr \<noteq> [] \<and> last (uses sid tr) + 300 \<le> fs_now s"
proof -
  from assms obtain s0 where r: "run latest H tr s0" and "fstep latest H s0 (Expired sid) s"
    by (cases rule: run.cases) auto
  then have "timeoutStep s0 (Expired sid) s"
    by (auto simp: fstep_def elim: loopStep.cases readerStep.cases notifierStep.cases callStep.cases envStep.cases)
  then obtain f where "fs_filters s0 sid = Some f" "flt_deadline f = Fired" "fs_now s = fs_now s0"
    by cases auto
  moreover from this(1) have "timerOk (uses sid tr) (fs_now s0) f" using run_timersOk [OF r] by (simp add: timersOk_def)
  ultimately show ?thesis by (simp add: timerOk_def deadline_def)
qed

theorem expired_filter_was_idle_witness:
  "\<exists>s. run (- 2) hdr_BlockHash (exBusyRun @ [Tau] @ [Expired ''a'']) s \<and> uses ''a'' (exBusyRun @ [Tau]) = [0] \<and> 300 \<le> fs_now s"
proof -
  let ?s2 = "exBusy\<lparr>fs_mutex := Visiting [''a'', ''b'']\<rparr>"
  have r: "run (- 2) hdr_BlockHash (exBusyRun @ [Tau]) ?s2"
    using run_timeout [OF run_exBusy sweep [of exBusy "[''a'', ''b'']"]] by (simp add: rangeOrder_def insert_commute)
  have "flt_deadline (exFired ''a'') = Fired" by (simp add: exFired_def)
  then obtain s where s: "run (- 2) hdr_BlockHash ((exBusyRun @ [Tau]) @ [Expired ''a'']) s"
    using run_timeout [OF r expire [of ?s2 "''a''" "[''b'']" "exFired ''a''"]] by auto
  have "uses ''a'' (exBusyRun @ [Tau]) = [0]" by (simp add: uses_def exBusyRun_def exTwoRun_def)
  with expired_filter_was_idle [OF s] s show ?thesis by auto
qed

text \<open>
  C22: The timeout loop can stop everything.  There is a run to a state in which the timeout loop
  holds the mutex and waits for the event loop, while the event loop waits for a goroutine that waits for
  the mutex; whatever happens afterwards, the mutex is never released and the loop never gets
  on.
\<close>

theorem timeout_loop_deadlocks:
  "\<exists>tr s. run latest H tr s \<and> fs_mutex s \<noteq> Free \<and> fs_sends s \<noteq> [] \<and>
     (\<forall>tr' s'. steps latest H s tr' s' \<longrightarrow> fs_mutex s' = fs_mutex s \<and> fs_sends s' = fs_sends s)"
proof (intro exI conjI allI impI)
  show "run latest H exLockRun exLock" by (rule run_exLock)
  show "fs_mutex exLock \<noteq> Free" "fs_sends exLock \<noteq> []" by (simp_all add: exLock_def)
  fix tr' s'
  assume "steps latest H exLock tr' s'"
  from deadlocked_forever [OF this exLock_deadlocked]
  show "fs_mutex s' = fs_mutex exLock" "fs_sends s' = fs_sends exLock" by auto
qed

theorem timeout_loop_deadlocks_witness:
  "\<exists>tr s. run (- 2) hdr_BlockHash tr s \<and> \<not> (\<exists>tr' s'. steps (- 2) hdr_BlockHash s tr' s' \<and> fs_mutex s' = Free)"
  using timeout_loop_deadlocks [of "- 2" hdr_BlockHash] by metis

end
