(* ===== verification/Chain_Complete.thy ===== *)
theory Chain_Complete
  imports Chain_Props
begin

text \<open>
  Completeness of the chain: nothing derivable in a scanned block is left out.  The scanner skips a
  transaction that its cache of known txids holds, so that the argument is about where the cache
  comes from: over all runs that start with an empty cache, as every new scanner does, a cached txid
  is either stored or belongs to a transaction whose conversion failed.
\<close>

section \<open>Runs from an empty cache\<close>

definition scannersOf :: "deps \<Rightarrow> BchClient set \<Rightarrow> BchScanner IScanner set" where
  "scannersOf D Ns = {bchScanner D pick C |pick C. C \<in> Ns}"

text \<open>
  The chain with the nodes \<open>Ns\<close>: every node stands for the answers of one round.  The scanner is new
  at the first start and at every restart, as \<open>NewBchScanner\<close> makes it.
\<close>

inductive freshRun ::
  "deps \<Rightarrow> (ModbBlock \<Rightarrow> ChainEvent) \<Rightarrow> BchClient set \<Rightarrow> 'db IStore \<Rightarrow> (BchScanner, 'db) VirtualChain \<Rightarrow>
   (BchScanner, 'db) VirtualChain \<Rightarrow> bool"
  for D E Ns S v0 where
  boot: "I \<in> scannersOf D Ns \<Longrightarrow> bs_knownTxCache (vc_Scanner v0) = {} \<Longrightarrow> RecoveryFromDB I S now v0 = Ok v \<Longrightarrow>
    freshRun D E Ns S v0 v"
| generate: "freshRun D E Ns S v0 v \<Longrightarrow> I \<in> scannersOf D Ns \<Longrightarrow> GenerateNewBlock D E I S now scanBlock v = Ok v' \<Longrightarrow>
    freshRun D E Ns S v0 v'"
| restart: "freshRun D E Ns S v0 v \<Longrightarrow> I \<in> scannersOf D Ns \<Longrightarrow> RecoveryFromDB I S now (forget (NewBchScanner n) v) = Ok v' \<Longrightarrow>
    freshRun D E Ns S v0 v'"

lemma scannersOf_bch: "\<forall>C \<in> Ns. nodeOk D C \<Longrightarrow> scannersOf D Ns \<subseteq> bchScanners D"
  by (auto simp: scannersOf_def bchScanners_def)

lemma freshRun_reachable:
  "freshRun D E Ns S v0 v \<Longrightarrow> \<forall>C \<in> Ns. nodeOk D C \<Longrightarrow> reachable D E (bchScanners D) S v0 v"
  by (induction rule: freshRun.induct) (use scannersOf_bch in \<open>blast intro: reachable.intros\<close>)+

section \<open>What the cache holds\<close>

text \<open>A node of \<open>Ns\<close> has served a transaction under this txid that could not be converted.\<close>

definition refused :: "deps \<Rightarrow> BchClient set \<Rightarrow> string \<Rightarrow> bool" where
  "refused D Ns txid \<longleftrightarrow> (\<exists>C \<in> Ns. \<exists>h tx i height hash e. d_HashString D h = txid \<and> GetRawTransactionVerbose C h = Ok tx \<and>
     convertUtxoInfoToTx D C tx i height hash = Err e)"

lemma refusedI:
  "C \<in> Ns \<Longrightarrow> GetRawTransactionVerbose C h = Ok tx \<Longrightarrow> convertUtxoInfoToTx D C tx i height hash = Err e \<Longrightarrow>
   refused D Ns (d_HashString D h)"
  unfolding refused_def by (intro bexI exI conjI) (rule refl)

definition cacheJustified :: "deps \<Rightarrow> BchClient set \<Rightarrow> bytes set \<Rightarrow> BchScanner \<Rightarrow> bool" where
  "cacheJustified D Ns stored b \<longleftrightarrow> (\<forall>txid. isKnownTx txid b \<longrightarrow> d_HexToHash D txid \<in> stored \<or> refused D Ns txid)"

lemma cacheJustified_mono: "cacheJustified D Ns A b \<Longrightarrow> A \<subseteq> B \<Longrightarrow> cacheJustified D Ns B b"
  by (auto simp: cacheJustified_def)

lemma cacheJustified_SetLatest [simp]: "cacheJustified D Ns A (SetLatestScanHeight h b) = cacheJustified D Ns A b"
  by (simp add: cacheJustified_def SetLatestScanHeight_def isKnownTx_def)

lemma cacheJustified_new: "bs_knownTxCache b = {} \<Longrightarrow> cacheJustified D Ns A b"
  by (simp add: cacheJustified_def isKnownTx_def)

lemma cacheJustified_AddKnownTx:
  "cacheJustified D Ns A b \<Longrightarrow> d_HexToHash D txid \<in> A \<or> refused D Ns txid \<Longrightarrow> cacheJustified D Ns A (AddKnownTx pick txid b)"
  by (auto simp: cacheJustified_def AddKnownTx_def isKnownTx_def Let_def)

text \<open>The mempool loop puts into the cache what it delivers, and what it cannot convert.\<close>

lemma mempoolLoop_justified:
  assumes "C \<in> Ns" and "nodeOk D C"
  shows "mempoolLoop D pick C isTxMined i height hash hs (acc, b) = Ok (acc', b') \<Longrightarrow>
    cacheJustified D Ns (A \<union> mtx_HashId ` set acc) b \<Longrightarrow> cacheJustified D Ns (A \<union> mtx_HashId ` set acc') b'"
proof (induction hs arbitrary: acc b)
  case (Cons h hs)
  let ?t = "d_HashString D h"
  let ?b = "AddKnownTx pick ?t b"
  have delivered: "cacheJustified D Ns (A \<union> mtx_HashId ` set (acc @ [m])) ?b"
    if m: "GetRawTransactionVerbose C h = Ok tx" "convertUtxoInfoToTx D C tx i height hash = Ok m" for tx m
  proof (rule cacheJustified_AddKnownTx)
    show "cacheJustified D Ns (A \<union> mtx_HashId ` set (acc @ [m])) b"
      by (rule cacheJustified_mono [OF Cons.prems(2)]) auto
    have "raw_Txid tx = ?t" using assms(2) m(1) by (simp add: nodeOk_def)
    with convert_hash [OF m(2)] show "d_HexToHash D ?t \<in> A \<union> mtx_HashId ` set (acc @ [m]) \<or> refused D Ns ?t" by simp
  qed
  show ?case
  proof (cases "isKnownTx ?t b \<or> isTxMined ?t \<or> (\<exists>e. GetRawTransactionVerbose C h = Err e)")
    case True
    with Cons show ?thesis by (auto simp: Let_def split: if_splits)
  next
    case False
    then obtain tx where tx: "GetRawTransactionVerbose C h = Ok tx"
      using Cons.prems(1) by (cases "GetRawTransactionVerbose C h") (simp_all add: Let_def)
    show ?thesis
    proof (cases "convertUtxoInfoToTx D C tx i height hash")
      case (Ok m)
      with False tx Cons.prems(1) Cons.IH [OF _ delivered [OF tx Ok]] delivered [OF tx Ok]
      show ?thesis by (auto simp: Let_def split: if_splits)
    next
      case (Err e)
      with refusedI [OF assms(1) tx] have "refused D Ns ?t" .
      with False tx Err Cons.prems Cons.IH [of acc ?b] cacheJustified_AddKnownTx show ?thesis by (simp add: Let_def)
    next
      case (Panic e)
      with False tx Cons.prems(1) show ?thesis by (simp add: Let_def)
    qed
  qed
qed simp

lemma GetNewTxs_justified:
  assumes "GetNewTxs D pick C isTxMined height hash scanBlock b = Ok (txs, b')" and "C \<in> Ns" and "nodeOk D C"
    and "cacheJustified D Ns A b"
  shows "cacheJustified D Ns (A \<union> mtx_HashId ` set txs) b'"
  using assms(1)
proof (rule GetNewTxs_parts)
  fix blk b1
  assume b1: "b1 = SetLatestScanHeight (bs_LatestScanBlockHeight b1) b"
    and r: "bs_MaxTxsInBlock b \<le> int (length blk) \<and> txs = blk \<and> b' = b1 \<or>
     int (length blk) < bs_MaxTxsInBlock b \<and>
       (\<exists>hs. GetRawMempool C = Ok hs \<and>
         mempoolLoop D pick C isTxMined (int (length blk)) height hash hs (blk, b1) = Ok (txs, b'))"
  have "cacheJustified D Ns A b1" using assms(4) b1 cacheJustified_SetLatest by metis
  then have "cacheJustified D Ns (A \<union> mtx_HashId ` set blk) b1" by (rule cacheJustified_mono) simp
  with r mempoolLoop_justified [OF assms(2,3)] show ?thesis by metis
qed

lemma freshRun_justified:
  assumes "freshRun D E Ns (ChainLogDB D M) v0 v" and "modb_lib M blocks" and "\<forall>C \<in> Ns. nodeOk D C"
  shows "cacheJustified D Ns (allIds (blocks (vc_Store v))) (vc_Scanner v)"
  using assms(1)
proof (induction rule: freshRun.induct)
  case (boot I now v)
  then show ?case
    by (auto simp: RecoveryFromDB_def scannersOf_def bchScanner_def Let_def cacheJustified_new split: outcome.splits)
next
  case (restart v I now n v')
  then show ?case
    by (auto simp: RecoveryFromDB_def scannersOf_def bchScanner_def forget_def Let_def cacheJustified_new split: outcome.splits)
next
  case (generate v I now scanBlock v')
  then obtain pick C where I: "I = bchScanner D pick C" and C: "C \<in> Ns" by (auto simp: scannersOf_def)
  have j: "cacheJustified D Ns (allIds (blocks (vc_Store v)) \<union> mtx_HashId ` set txs) s"
    if "sc_GetNewTxs I (\<lambda>txid. st_IsTxMined (ChainLogDB D M) txid (vc_Store v) = Ok True) (vc_CurrentBlockHeight v + 1)
         (blockHash (vc_ChainName v) (vc_CurrentBlockHeight v)) scanBlock (vc_Scanner v) = Ok (txs, s)" for txs s
    using that assms(3) C by (intro GetNewTxs_justified [OF _ C _ generate.IH]) (auto simp: I bchScanner_def)
  from generate.hyps(3) show ?case
  proof (cases rule: GenerateNewBlock_cases)
    case (idle s)
    with j [OF idle(2)] show ?thesis by simp
  next
    case (block txs s info blk)
    have "allIds (blocks (vc_Store v')) = allIds (blocks (vc_Store v)) \<union> mtx_HashId ` set txs"
      using istore.add_block [OF chainlogdb_istore [OF assms(2)], of D]
      by (simp add: block(5) allIds_def) (simp add: block(4) blockIds_def Un_commute)
    with j [OF block(1)] block(5) show ?thesis by simp
  qed
qed

section \<open>A derivable transaction is never refused\<close>

text \<open>The transactions a node answers with, and that a txid determines inputs and outputs.\<close>

definition servedBy :: "BchClient \<Rightarrow> TxRawResult set" where
  "servedBy C = {tx. (\<exists>h. GetRawTransactionVerbose C h = Ok tx) \<or> (\<exists>h txs. GetBlockVerboseTx C h = Ok txs \<and> tx \<in> set txs)}"

definition txidsCommit :: "BchClient set \<Rightarrow> bool" where
  "txidsCommit Ns \<longleftrightarrow> (\<forall>C \<in> Ns. \<forall>C' \<in> Ns. \<forall>tx \<in> servedBy C. \<forall>tx' \<in> servedBy C'.
     raw_Txid tx = raw_Txid tx' \<longrightarrow> raw_Vin tx = raw_Vin tx' \<and> raw_Vout tx = raw_Vout tx')"

lemma txidsCommitD:
  "txidsCommit Ns \<Longrightarrow> C \<in> Ns \<Longrightarrow> C' \<in> Ns \<Longrightarrow> tx \<in> servedBy C \<Longrightarrow> tx' \<in> servedBy C' \<Longrightarrow> raw_Txid tx = raw_Txid tx' \<Longrightarrow>
   raw_Vin tx = raw_Vin tx' \<and> raw_Vout tx = raw_Vout tx'"
  unfolding txidsCommit_def by blast

lemma fetchBlock_served: "fetchBlock C h = Ok txs \<Longrightarrow> tx \<in> set txs \<Longrightarrow> tx \<in> servedBy C"
  unfolding fetchBlock_def servedBy_def by (auto split: outcome.splits)

lemma chainTxs_served:
  assumes "tx \<in> set (chainTxs C lo hi)"
  shows "tx \<in> servedBy C"
proof -
  obtain h where h: "tx \<in> set (blockTxs C h)" using assms by (auto simp: chainTxs_def)
  then obtain txs where "fetchBlock C h = Ok txs" by (cases "fetchBlock C h") (simp_all add: blockTxs_def ok_or_def)
  with h fetchBlock_served show ?thesis by (simp add: blockTxs_def ok_or_def)
qed

lemma ExtractSenderInfo_Vout: "raw_Vout tx = raw_Vout tx' \<Longrightarrow> ExtractSenderInfo D tx n = ExtractSenderInfo D tx' n"
  by (simp add: ExtractSenderInfo_def)

lemma processVin_not_Err: "processVin D C vin \<noteq> Err e"
  by (auto simp: processVin_def split: outcome.splits)

lemma vinLoop_not_Err: "vinLoop D C vins acc \<noteq> Err e"
proof (induction vins arbitrary: acc)
  case (Cons vin vins)
  then show ?case by (cases acc) (auto simp: processVin_not_Err split: outcome.splits)
qed simp

locale agreeing_nodes =
  fixes D :: deps and Ns :: "BchClient set"
  assumes nodes_ok: "\<forall>C \<in> Ns. nodeOk D C" and commit: "txidsCommit Ns"
begin

lemma processVin_agree:
  assumes "processVin D C vin = Ok r" and "processVin D C' vin = Ok r'" and "C \<in> Ns" and "C' \<in> Ns"
  shows "r = r'"
proof -
  obtain h tx where h: "d_NewHashFromStr D (vin_Txid vin) = Ok h" and tx: "GetRawTransactionVerbose C h = Ok tx"
    using assms(1) by (auto simp: processVin_def split: outcome.splits)
  obtain tx' where tx': "GetRawTransactionVerbose C' h = Ok tx'"
    using assms(2) h by (auto simp: processVin_def split: outcome.splits)
  have "tx \<in> servedBy C" "tx' \<in> servedBy C'" using tx tx' by (auto simp: servedBy_def)
  moreover have "raw_Txid tx = raw_Txid tx'" using nodes_ok assms(3,4) tx tx' by (simp add: nodeOk_def)
  ultimately have same: "raw_Vout tx' = raw_Vout tx" using txidsCommitD [OF commit assms(3,4)] by simp
  have "processVin D C' vin = processVin D C vin"
    by (cases "ExtractSenderInfo D tx (vin_Vout vin)")
      (simp_all add: processVin_def h tx tx' same ExtractSenderInfo_Vout [OF same])
  with assms(1,2) show ?thesis by simp
qed

lemma vinLoop_agree:
  assumes "C \<in> Ns" and "C' \<in> Ns"
  shows "vinLoop D C vins acc = Ok r \<Longrightarrow> vinLoop D C' vins acc = Ok r' \<Longrightarrow> r = r'"
proof (induction vins arbitrary: acc)
  case (Cons vin vins)
  obtain ss ts where acc: "acc = (ss, ts)" by (cases acc)
  obtain p where p: "processVin D C vin = Ok p" using Cons.prems(1) by (auto simp: acc split: outcome.splits)
  obtain p' where p': "processVin D C' vin = Ok p'" using Cons.prems(2) by (auto simp: acc split: outcome.splits)
  from processVin_agree [OF p p' assms] p' have "processVin D C' vin = Ok p" by simp
  with p Cons show ?case by (cases p) (simp add: acc)
qed simp

text \<open>What one node's answers let convert, no other node's answers make an error of.\<close>

lemma convert_not_Err:
  assumes "C \<in> Ns" and "C' \<in> Ns" and "tx \<in> servedBy C" and "tx' \<in> servedBy C'" and "raw_Txid tx = raw_Txid tx'"
    and "convertUtxoInfoToTx D C tx i height hash = Ok m"
  shows "convertUtxoInfoToTx D C' tx' i' height' hash' \<noteq> Err e"
proof -
  have same: "raw_Vin tx' = raw_Vin tx" "raw_Vout tx' = raw_Vout tx" using txidsCommitD [OF commit assms(1-5)] by simp_all
  obtain ins where ins: "extractInputInfos D C tx = Ok ins"
    using assms(6) by (auto simp: convertUtxoInfoToTx_def split: outcome.splits)
  show ?thesis
  proof (cases "extractInputInfos D C' tx'")
    case (Ok ins')
    then have "vinLoop D C' (raw_Vin tx) ([], []) = Ok ins'" by (simp add: extractInputInfos_def same)
    with vinLoop_agree [OF assms(1,2) _ this] ins have "extractInputInfos D C' tx' = Ok ins"
      by (simp add: extractInputInfos_def same)
    with ins assms(6) show ?thesis
      by (cases ins) (auto simp: convertUtxoInfoToTx_def same Let_def split: outcome.splits prod.splits)
  next
    case (Err e')
    with vinLoop_not_Err show ?thesis by (simp add: extractInputInfos_def)
  next
    case (Panic p)
    with assms(6) show ?thesis by (auto simp: convertUtxoInfoToTx_def same split: outcome.splits)
  qed
qed

lemma not_refused:
  assumes "C \<in> Ns" and "tx \<in> servedBy C" and "convertUtxoInfoToTx D C tx i height hash = Ok m"
  shows "\<not> refused D Ns (raw_Txid tx)"
proof
  assume "refused D Ns (raw_Txid tx)"
  then obtain C' h tx' i' height' hash' e where C': "C' \<in> Ns" and h: "d_HashString D h = raw_Txid tx"
    and tx': "GetRawTransactionVerbose C' h = Ok tx'" and err: "convertUtxoInfoToTx D C' tx' i' height' hash' = Err e"
    by (auto simp: refused_def)
  have "tx' \<in> servedBy C'" "raw_Txid tx = raw_Txid tx'" using tx' h nodes_ok C' by (auto simp: servedBy_def nodeOk_def)
  from convert_not_Err [OF assms(1) C' assms(2) this assms(3)] err show False by simp
qed

end

lemma agreeing: "\<forall>C \<in> Ns. nodeOk D C \<Longrightarrow> txidsCommit Ns \<Longrightarrow> agreeing_nodes D Ns"
  by (rule agreeing_nodes.intro)

section \<open>A mempool seen to its end\<close>

text \<open>The txid of a mempool entry is stored, or refused, or the node does not have its transaction.\<close>

definition entrySettled :: "deps \<Rightarrow> BchClient set \<Rightarrow> BchClient \<Rightarrow> bytes set \<Rightarrow> bytes \<Rightarrow> bool" where
  "entrySettled D Ns C stored h \<longleftrightarrow> d_HexToHash D (d_HashString D h) \<in> stored \<or> refused D Ns (d_HashString D h) \<or>
     (\<exists>e. GetRawTransactionVerbose C h = Err e)"

lemma entrySettled_mono: "entrySettled D Ns C A h \<Longrightarrow> A \<subseteq> B \<Longrightarrow> entrySettled D Ns C B h"
  by (auto simp: entrySettled_def)

lemma mempoolLoop_settles:
  assumes "C \<in> Ns" and "nodeOk D C" and mined: "\<And>t. isTxMined t \<Longrightarrow> d_HexToHash D t \<in> A"
  shows "mempoolLoop D pick C isTxMined i height hash hs (acc, b) = Ok (acc', b') \<Longrightarrow>
    cacheJustified D Ns (A \<union> mtx_HashId ` set acc) b \<Longrightarrow> int (length acc') < bs_MaxTxsInBlock b \<Longrightarrow>
    \<forall>h \<in> set hs. entrySettled D Ns C (A \<union> mtx_HashId ` set acc') h"
proof (induction hs arbitrary: acc b)
  case (Cons h hs)
  let ?t = "d_HashString D h"
  have grows: "A \<union> mtx_HashId ` set acc \<subseteq> A \<union> mtx_HashId ` set acc'"
    using mempoolLoop_sound [OF Cons.prems(1)] by auto
  have head: "mempoolLoop D pick C isTxMined i height hash [h] (acc, b) = Ok r \<Longrightarrow>
      cacheJustified D Ns (A \<union> mtx_HashId ` set (fst r)) (snd r)" for r
    using mempoolLoop_justified [OF assms(1,2) _ Cons.prems(2), of pick isTxMined i height hash "[h]" "fst r" "snd r"] by simp
  show ?case
  proof (cases "isKnownTx ?t b \<or> isTxMined ?t \<or> (\<exists>e. GetRawTransactionVerbose C h = Err e)")
    case True
    then have "entrySettled D Ns C (A \<union> mtx_HashId ` set acc) h"
      using Cons.prems(2) mined [of ?t] by (auto simp: entrySettled_def cacheJustified_def)
    moreover have "mempoolLoop D pick C isTxMined i height hash hs (acc, b) = Ok (acc', b')"
      using True Cons.prems(1) by (auto simp: Let_def split: if_splits)
    ultimately show ?thesis using Cons.IH Cons.prems(2,3) entrySettled_mono [OF _ grows] by simp
  next
    case False
    then obtain tx where tx: "GetRawTransactionVerbose C h = Ok tx"
      using Cons.prems(1) by (cases "GetRawTransactionVerbose C h") (simp_all add: Let_def)
    show ?thesis
    proof (cases "convertUtxoInfoToTx D C tx i height hash")
      case (Ok m)
      then have m: "d_HexToHash D ?t = mtx_HashId m" using convert_hash [OF Ok] assms(2) tx by (simp add: nodeOk_def)
      have more: "\<not> bs_MaxTxsInBlock b \<le> int (length acc) + 1"
        using False tx Ok Cons.prems(1,3) by (auto simp: Let_def split: if_splits)
      with False tx Ok Cons.prems(1)
      have rest: "mempoolLoop D pick C isTxMined i height hash hs (acc @ [m], AddKnownTx pick ?t b) = Ok (acc', b')"
        by (simp add: Let_def)
      have "cacheJustified D Ns (A \<union> mtx_HashId ` set (acc @ [m])) (AddKnownTx pick ?t b)"
        using head [of "(acc @ [m], AddKnownTx pick ?t b)"] False tx Ok more by (simp add: Let_def)
      moreover have "entrySettled D Ns C (A \<union> mtx_HashId ` set acc') h"
        using mempoolLoop_sound [OF rest] by (auto simp: entrySettled_def m)
      ultimately show ?thesis using Cons.IH [OF rest] Cons.prems(3) by simp
    next
      case (Err e)
      have "entrySettled D Ns C (A \<union> mtx_HashId ` set acc') h"
        using refusedI [OF assms(1) tx Err] by (simp add: entrySettled_def)
      moreover have "cacheJustified D Ns (A \<union> mtx_HashId ` set acc) (AddKnownTx pick ?t b)"
        using head [of "(acc, AddKnownTx pick ?t b)"] False tx Err by (simp add: Let_def)
      moreover have "mempoolLoop D pick C isTxMined i height hash hs (acc, AddKnownTx pick ?t b) = Ok (acc', b')"
        using False tx Err Cons.prems(1) by (simp add: Let_def)
      ultimately show ?thesis using Cons.IH Cons.prems(3) by simp
    next
      case (Panic e)
      with False tx Cons.prems(1) show ?thesis by (simp add: Let_def)
    qed
  qed
qed simp

lemma mempoolLoop_quiet:
  assumes "agreeing_nodes D Ns" and "C \<in> Ns" and "\<forall>h \<in> set hs. entrySettled D Ns C A h"
    and mined: "\<And>t. d_HexToHash D t \<in> A \<Longrightarrow> isTxMined t"
  shows "mempoolLoop D pick C isTxMined i height hash hs (acc, b) = Ok (acc', b') \<Longrightarrow> acc' = acc"
  using assms(3)
proof (induction hs arbitrary: b)
  case (Cons h hs)
  let ?t = "d_HashString D h"
  have node: "nodeOk D C" using agreeing_nodes.nodes_ok [OF assms(1)] assms(2) by blast
  have no: "convertUtxoInfoToTx D C tx i height hash \<noteq> Ok m" if "GetRawTransactionVerbose C h = Ok tx" "refused D Ns ?t" for tx m
  proof
    assume "convertUtxoInfoToTx D C tx i height hash = Ok m"
    moreover have "tx \<in> servedBy C" "raw_Txid tx = ?t" using that(1) node by (auto simp: servedBy_def nodeOk_def)
    ultimately show False using agreeing_nodes.not_refused [OF assms(1,2)] that(2) by metis
  qed
  from Cons.prems(1) show ?case
  proof (cases rule: mempoolLoop_step)
    case (new m)
    then show ?thesis using Cons.prems(2) no mined
      by (auto simp: mempoolTx_def entrySettled_def ok_option_def split: if_splits outcome.splits)
  next
    case (full m)
    then show ?thesis using Cons.prems(2) no mined
      by (auto simp: mempoolTx_def entrySettled_def ok_option_def split: if_splits outcome.splits)
  qed (use Cons.IH Cons.prems(2) in auto)
qed simp

section \<open>An example: first the mempool, then the block\<close>

text \<open>The example chain with room for two transactions in a block.\<close>

lemma exNode_served: "servedBy exNode \<subseteq> {exOrigin ''scripthash'', exTx}"
  by (auto simp: servedBy_def exNode_def split: if_splits)

interpretation exNodes: agreeing_nodes ref_deps "{exNode}"
proof unfold_locales
  show "\<forall>C \<in> {exNode}. nodeOk ref_deps C" by (simp add: exNode_ok)
  have "raw_Txid exTx \<noteq> raw_Txid (exOrigin ''scripthash'')" by code_simp
  then have "tx = tx'" if "tx \<in> servedBy exNode" "tx' \<in> servedBy exNode" "raw_Txid tx = raw_Txid tx'" for tx tx'
    using exNode_served [THEN subsetD, OF that(1)] exNode_served [THEN subsetD, OF that(2)] that(3) by (elim insertE emptyE) simp_all
  then show "txidsCommit {exNode}" unfolding txidsCommit_def by blast
qed

definition roomyChain0 :: "(BchScanner, ModbBlock list) VirtualChain" where
  "roomyChain0 = exChain0\<lparr>vc_Scanner := NewBchScanner 2\<rparr>"

definition roomyChain1 :: "(BchScanner, ModbBlock list) VirtualChain" where
  "roomyChain1 = exChain1\<lparr>vc_Scanner := NewBchScanner 2\<rparr>"

lemma roomyChain0_start:
  "(\<lambda>db. db) (vc_Store roomyChain0) = []" "0 \<le> vc_GenesisMainChainBlockHeight roomyChain0"
  "is_i64 (vc_GenesisMainChainBlockHeight roomyChain0)"
  using exChain0_start by (simp_all add: roomyChain0_def)

lemma roomyChain_fresh: "freshRun ref_deps exEvent {exNode} exS roomyChain0 roomyChain1"
proof (rule freshRun.boot)
  have "GetLatestBlockInfo ref_deps listModb 100 [] = Ok (0, 100, zeros 32, 0)"
    using istore.latest_none [OF chainlogdb_istore [OF listModb.modb_lib_axioms], of "[]"] by simp
  moreover have "SetLatestScanHeight 0 (NewBchScanner 2) = NewBchScanner 2"
    by (simp add: NewBchScanner_def SetLatestScanHeight_def)
  ultimately show "RecoveryFromDB exSc exS 100 roomyChain0 = Ok roomyChain1"
    by (simp add: RecoveryFromDB_def roomyChain0_def roomyChain1_def exChain0_def exChain1_def bchScanner_def)
qed (auto simp: scannersOf_def roomyChain0_def)

text \<open>A round without blocks takes the transaction from the mempool, stores it and caches its txid.\<close>

lemma roomyChain_mempool:
  obtains m b v where "GenerateNewBlock ref_deps exEvent exSc exS 105 False roomyChain1 = Ok v"
    "vc_Store v = [b]" "mblk_TxList b = [m]" "vc_Scanner v = AddKnownTx exPick (raw_Txid exTx) (NewBchScanner 2)"
proof -
  let ?hash = "blockHash ''virtual Bitcoin Cash'' 0"
  obtain m where m: "convertUtxoInfoToTx ref_deps exNode exTx 0 1 ?hash = Ok m" using exNode_derives by blast
  have node: "GetRawMempool exNode = Ok [replicate 32 5]" "GetRawTransactionVerbose exNode (replicate 32 5) = Ok exTx"
    by (simp_all add: exNode_def)
  have "\<not> isKnownTx x (NewBchScanner 2)" for x by (simp add: isKnownTx_def)
  moreover have "IsTxMined ref_deps listModb x [] \<noteq> Ok True" for x
    by (simp add: IsTxMined_def GetTxByHash_def listModb_def allTxs_def)
  ultimately have g: "GetNewTxs ref_deps exPick exNode (\<lambda>txid. IsTxMined ref_deps listModb txid [] = Ok True) 1 ?hash False
      (NewBchScanner 2) = Ok ([m], AddKnownTx exPick (raw_Txid exTx) (NewBchScanner 2))"
    by (simp add: GetNewTxs_def node m ref_HashString_exTx Let_def)
  have mar: "d_MarshalBlock ref_deps e = Ok (enc_block e)" for e by (simp add: ref_deps_def)
  have add: "AddBlock listModb (Some x) db = db @ [x]" for x db by (simp add: AddBlock_def listModb_def)
  show ?thesis
    by (rule that [of _ _ m], simp add: GenerateNewBlock_def roomyChain1_def exChain1_def exChain0_def bchScanner_def mar add g Let_def,
        simp, simp, simp)
qed

text \<open>The next round without blocks changes nothing; one that scans the block of the transaction finds it in the cache.\<close>

lemma roomyChain_again:
  assumes "vc_Scanner v = AddKnownTx exPick (raw_Txid exTx) (NewBchScanner 2)"
  shows "GenerateNewBlock ref_deps exEvent exSc exS 110 False v = Ok v"
proof -
  have "GetRawMempool exNode = Ok [replicate 32 5]" by (simp add: exNode_def)
  then have "GetNewTxs ref_deps exPick exNode mined h hash False (vc_Scanner v) = Ok ([], vc_Scanner v)" for mined h hash
    using assms ref_HashString_exTx by (simp add: GetNewTxs_def Let_def)
  then show ?thesis by (simp add: GenerateNewBlock_def bchScanner_def Let_def)
qed

lemma roomyChain_block:
  assumes "vc_Scanner v = AddKnownTx exPick (raw_Txid exTx) (NewBchScanner 2)"
  obtains v' where "GenerateNewBlock ref_deps exEvent exSc exS 165 True v = Ok v'"
    "bs_LatestScanBlockHeight (vc_Scanner v') = 1"
proof -
  let ?b = "AddKnownTx exPick (raw_Txid exTx) (NewBchScanner 2)"
  have known: "isKnownTx (raw_Txid exTx) ?b" "isKnownTx (raw_Txid exTx) (SetLatestScanHeight 1 ?b)"
    by simp (simp add: AddKnownTx_def SetLatestScanHeight_def isKnownTx_def Let_def)
  have node: "GetBlockCount exNode = Ok 1" "GetRawMempool exNode = Ok [replicate 32 5]" "fetchBlock exNode 1 = Ok [exTx]"
    by (simp_all add: exNode_def fetchBlock_def)
  have n: "GetNewTxs ref_deps exPick exNode mined h hash True ?b = Ok ([], SetLatestScanHeight 1 ?b)" for mined h hash
    using known ref_HashString_exTx
    by (simp add: GetNewTxs_def collectMainChainBlockTxs_def heightLoop.simps node Let_def)
  have mar: "d_MarshalBlock ref_deps e = Ok (enc_block e)" for e by (simp add: ref_deps_def)
  show ?thesis
    by (rule that, simp add: GenerateNewBlock_def bchScanner_def assms n mar Let_def, simp)
qed

section \<open>Properties\<close>

text \<open>
  C4: Every derivable transaction of a scanned block is in the chain, also when the scanner has it in
  its cache and skips it, which is the usual way: an EGTX is first seen in the mempool.  Take any
  run of the chain, with restarts, whose scanners start with an empty cache and whose nodes answer
  consistently (a request for a hash gives the transaction of that hash, and a txid determines
  inputs and outputs).  After a round that scans blocks, each transaction of the blocks scanned in
  it that the node's answers let convert counts as mined: this round has stored it, or an
  earlier one had.
\<close>

theorem scanned_egtx_is_mined:
  assumes "modb_lib M blocks" and "codec_lib D" and run: "freshRun D E Ns (ChainLogDB D M) v0 v"
    and "blocks (vc_Store v0) = []" and "0 \<le> vc_GenesisMainChainBlockHeight v0"
    and "is_i64 (vc_GenesisMainChainBlockHeight v0)"
    and nodes: "\<forall>C \<in> Ns. nodeOk D C" and commit: "txidsCommit Ns" and C: "C \<in> Ns"
    and g: "GenerateNewBlock D E (bchScanner D pick C) (ChainLogDB D M) now True v = Ok v'"
    and tx: "tx \<in> set (chainTxs C (bs_LatestScanBlockHeight (vc_Scanner v) + 1) (bs_LatestScanBlockHeight (vc_Scanner v')))"
    and der: "\<And>i height hash. \<exists>m. convertUtxoInfoToTx D C tx i height hash = Ok m"
  shows "IsTxMined D M (raw_Txid tx) (vc_Store v') = Ok True"
proof -
  note S = chainlogdb_istore [OF assms(1), of D]
  note reach = freshRun_reachable [OF run nodes]
  have node: "nodeOk D C" using nodes C by blast
  have inv: "list_all (storable D) (blocks (vc_Store v))"
    using bch_reachable_chainInv [OF assms(1,2) reach assms(4-6)] by (simp add: chainInv_def blocksOk_def)
  have inv': "list_all (storable D) (blocks (vc_Store v'))"
    using bch_reachable_chainInv [OF assms(1,2) reachable.generate [OF reach bchScanner_in [OF node] g] assms(4-6)]
    by (simp add: chainInv_def blocksOk_def)
  have "\<not> refused D Ns (raw_Txid tx)"
    using agreeing_nodes.not_refused [OF agreeing [OF nodes commit] C chainTxs_served [OF tx]] der by blast
  with freshRun_justified [OF run assms(1) nodes]
  have known: "d_HexToHash D (raw_Txid tx) \<in> allIds (blocks (vc_Store v))" if "isKnownTx (raw_Txid tx) (vc_Scanner v)"
    using that by (auto simp: cacheJustified_def)
  from g have "d_HexToHash D (raw_Txid tx) \<in> allIds (blocks (vc_Store v'))"
  proof (cases rule: GenerateNewBlock_cases)
    case (block txs s info blk)
    let ?mined = "\<lambda>txid. IsTxMined D M txid (vc_Store v) = Ok True"
    have store: "allIds (blocks (vc_Store v')) = allIds (blocks (vc_Store v)) \<union> mtx_HashId ` set txs"
      using istore.add_block [OF S] by (simp add: block(5) allIds_def) (simp add: block(4) blockIds_def Un_commute)
    show ?thesis
    proof (cases "skipTx (vc_Scanner v) ?mined tx")
      case True
      with istore.mined [OF S inv] known store show ?thesis by (auto simp: skipTx_def allIds_allTxs)
    next
      case False
      have n: "GetNewTxs D pick C ?mined (vc_CurrentBlockHeight v + 1)
         (blockHash (vc_ChainName v) (vc_CurrentBlockHeight v)) True (vc_Scanner v) = Ok (txs, s)"
        using block(1) by (simp add: bchScanner_def)
      have "tx \<in> set (chainTxs C (bs_LatestScanBlockHeight (vc_Scanner v) + 1) (bs_LatestScanBlockHeight s))"
        using tx by (simp add: block(5))
      from GetNewTxs_covers [OF n this False der] store show ?thesis by simp
    qed
  qed simp
  with istore.mined [OF S inv'] show ?thesis by (simp add: allIds_allTxs)
qed

theorem scanned_egtx_is_mined_witness:
  "\<exists>v v'. GenerateNewBlock ref_deps exEvent exSc exS 105 False roomyChain1 = Ok v \<and> isKnownTx (raw_Txid exTx) (vc_Scanner v) \<and>
     GenerateNewBlock ref_deps exEvent exSc exS 165 True v = Ok v' \<and>
     IsTxMined ref_deps listModb (raw_Txid exTx) (vc_Store v') = Ok True"
proof (rule roomyChain_mempool)
  fix m b v
  assume g: "GenerateNewBlock ref_deps exEvent exSc exS 105 False roomyChain1 = Ok v"
    and s: "vc_Scanner v = AddKnownTx exPick (raw_Txid exTx) (NewBchScanner 2)"
  obtain v' where g': "GenerateNewBlock ref_deps exEvent exSc exS 165 True v = Ok v'"
    and l: "bs_LatestScanBlockHeight (vc_Scanner v') = 1"
    by (rule roomyChain_block [OF s])
  have "exSc \<in> scannersOf ref_deps {exNode}" by (auto simp: scannersOf_def)
  note run = freshRun.generate [OF roomyChain_fresh this g]
  have "blockTxs exNode 1 = [exTx]" by (simp add: blockTxs_def fetchBlock_def exNode_def ok_or_def)
  then have "exTx \<in> set (chainTxs exNode (bs_LatestScanBlockHeight (vc_Scanner v) + 1) (bs_LatestScanBlockHeight (vc_Scanner v')))"
    by (simp add: s l chainTxs_def)
  from scanned_egtx_is_mined [OF listModb.modb_lib_axioms ref_codec.codec_lib_axioms run roomyChain0_start
      exNodes.nodes_ok exNodes.commit _ g' this exNode_derives] g g' s
  show ?thesis by (intro exI [of _ v] exI [of _ v']) simp
qed

text \<open>
  C27: A mempool that stays the same gives no second block, whatever the cache has evicted.  In a run as
  above, take a round without block scan that was not cut off, so that it has added fewer
  transactions than fit into a block.  If the next round, again without block scan and whichever entries
  its cache evicts, sees the same answers of the node and ends, it adds no block.
\<close>

theorem mempool_rescan_adds_nothing:
  assumes "modb_lib M blocks" and "codec_lib D" and run: "freshRun D E Ns (ChainLogDB D M) v0 v"
    and "blocks (vc_Store v0) = []" and "0 \<le> vc_GenesisMainChainBlockHeight v0"
    and "is_i64 (vc_GenesisMainChainBlockHeight v0)"
    and nodes: "\<forall>C \<in> Ns. nodeOk D C" and commit: "txidsCommit Ns" and C: "C \<in> Ns"
    and g: "GenerateNewBlock D E (bchScanner D pick C) (ChainLogDB D M) now False v = Ok v'"
    and room: "int (length (allTxs (blocks (vc_Store v')))) < int (length (allTxs (blocks (vc_Store v)))) + bs_MaxTxsInBlock (vc_Scanner v)"
    and g': "GenerateNewBlock D E (bchScanner D pick' C) (ChainLogDB D M) now' False v' = Ok v''"
  shows "vc_Store v'' = vc_Store v' \<and> vc_CurrentBlockHeight v'' = vc_CurrentBlockHeight v'"
proof -
  note S = chainlogdb_istore [OF assms(1), of D]
  have node: "nodeOk D C" using nodes C by blast
  note reach = freshRun_reachable [OF run nodes]
  note reach' = reachable.generate [OF reach bchScanner_in [OF node] g]
  have inv: "list_all (storable D) (blocks (vc_Store v))" "list_all (storable D) (blocks (vc_Store v'))"
    using bch_reachable_chainInv [OF assms(1,2) reach assms(4-6)] bch_reachable_chainInv [OF assms(1,2) reach' assms(4-6)]
    by (simp_all add: chainInv_def blocksOk_def)
  let ?ids = "\<lambda>v. allIds (blocks (vc_Store v))" and ?mined = "\<lambda>v txid. IsTxMined D M txid (vc_Store v) = Ok True"
  have mined: "?mined w txid \<longleftrightarrow> d_HexToHash D txid \<in> ?ids w" if "list_all (storable D) (blocks (vc_Store w))" for w :: "(BchScanner, 'a) VirtualChain" and txid
    using istore.mined [OF S that] by (auto simp: allIds_allTxs)
  obtain txs s where n: "GetNewTxs D pick C (?mined v) (vc_CurrentBlockHeight v + 1)
       (blockHash (vc_ChainName v) (vc_CurrentBlockHeight v)) False (vc_Scanner v) = Ok (txs, s)"
    and ids: "?ids v' = ?ids v \<union> mtx_HashId ` set txs" and few: "int (length txs) < bs_MaxTxsInBlock (vc_Scanner v)"
    using g
  proof (cases rule: GenerateNewBlock_cases)
    case (idle s)
    then show ?thesis using room that [of "[]" s] by (simp add: bchScanner_def)
  next
    case (block txs s info blk)
    have add: "blocks (vc_Store v') = blocks (vc_Store v) @ [blk]" "mblk_TxList blk = txs"
      using istore.add_block [OF S] by (simp_all add: block(5)) (simp add: block(4))
    then show ?thesis using room block(1) by (intro that [of txs s]) (auto simp: bchScanner_def allTxs_def allIds_def blockIds_def)
  qed
  then obtain hs where hs: "GetRawMempool C = Ok hs" "mempoolLoop D pick C (?mined v) 0 (vc_CurrentBlockHeight v + 1)
       (blockHash (vc_ChainName v) (vc_CurrentBlockHeight v)) hs ([], vc_Scanner v) = Ok (txs, s)"
    by (auto simp: GetNewTxs_def split: if_splits outcome.splits)
  have settled: "\<forall>h \<in> set hs. entrySettled D Ns C (?ids v') h"
    using mempoolLoop_settles [OF C node _ hs(2), of "?ids v"] mined [OF inv(1)] freshRun_justified [OF run assms(1) nodes] few ids
    by simp
  have quiet: "txs' = []" if "sc_GetNewTxs (bchScanner D pick' C) (\<lambda>txid. st_IsTxMined (ChainLogDB D M) txid (vc_Store v') = Ok True)
      (vc_CurrentBlockHeight v' + 1) (blockHash (vc_ChainName v') (vc_CurrentBlockHeight v')) False (vc_Scanner v') = Ok (txs', s')" for txs' s'
    using that hs(1) mempoolLoop_quiet [OF agreeing [OF nodes commit] C settled] mined [OF inv(2)]
    by (auto simp: bchScanner_def GetNewTxs_def split: if_splits)
  from g' show ?thesis by (cases rule: GenerateNewBlock_cases) (use quiet in auto)
qed

theorem mempool_rescan_adds_nothing_witness:
  "\<exists>v v'. GenerateNewBlock ref_deps exEvent exSc exS 105 False roomyChain1 = Ok v \<and> vc_Store v \<noteq> [] \<and>
     GenerateNewBlock ref_deps exEvent exSc exS 110 False v = Ok v' \<and> vc_Store v' = vc_Store v"
proof (rule roomyChain_mempool)
  fix m b v
  assume g: "GenerateNewBlock ref_deps exEvent exSc exS 105 False roomyChain1 = Ok v"
    and b: "vc_Store v = [b]" "mblk_TxList b = [m]" and s: "vc_Scanner v = AddKnownTx exPick (raw_Txid exTx) (NewBchScanner 2)"
  note g' = roomyChain_again [OF s]
  have "int (length (allTxs (vc_Store v))) < int (length (allTxs (vc_Store roomyChain1))) + bs_MaxTxsInBlock (vc_Scanner roomyChain1)"
    by (simp add: b allTxs_def roomyChain1_def exChain1_def exChain0_def)
  from mempool_rescan_adds_nothing [OF listModb.modb_lib_axioms ref_codec.codec_lib_axioms roomyChain_fresh roomyChain0_start
      exNodes.nodes_ok exNodes.commit _ g this g'] g g' b
  show ?thesis by (intro exI [of _ v]) simp
qed

end
