(* ===== verification/Eth_Api.thy ===== *)
theory Eth_Api
  imports Backend
begin

text \<open>
  rpc/api/eth\_api.go and rpc/api/types.go: the services of the namespace \<open>eth\<close> that answer about
  the chain, its blocks and its transactions, over the queries of \<open>BackendService\<close>.  The theorems
  compose them with the backend, the store and the reachable states of the chain.
\<close>

section \<open>Responses\<close>

text \<open>
  The values of the response map of a block: \<open>hexutil.Uint64\<close>, \<open>hexutil.Bytes\<close> (None is nil),
  hashes, the bloom filter, a list of hashes, a list of strings.
\<close>

datatype rpcVal = RUint64 int | RBytes "bytes option" | RHash bytes | RBloom bytes | RHashes "bytes list" | RStrings "string list"

record Transaction =
  tr_BlockHash :: bytes
  tr_BlockNumber :: int
  tr_From :: bytes
  tr_Gas :: int
  tr_GasPrice :: int
  tr_Hash :: bytes
  tr_Input :: bytes
  tr_Nonce :: int
  tr_To :: "bytes option"
  tr_TransactionIndex :: int
  tr_Value :: int
  tr_V :: "int option"
  tr_R :: "int option"
  tr_S :: "int option"

definition BlockMaxGas :: int where
  "BlockMaxGas = 1000000000"

text \<open>\<open>H\<close> is \<open>mevmtypes.ToGethHashes\<close>.\<close>

definition blockToRpcResp :: "(bytes list \<Rightarrow> bytes list) \<Rightarrow> EvmBlock \<Rightarrow> (string \<times> rpcVal) list" where
  "blockToRpcResp H block =
     [(''number'', RUint64 (as_u64 (eblk_Number block))),
      (''hash'', RBytes (Some (eblk_Hash block))),
      (''parentHash'', RBytes (Some (eblk_ParentHash block))),
      (''nonce'', RBytes (Some (zeros 8))),
      (''sha3Uncles'', RHash (zeros 32)),
      (''logsBloom'', RBloom (zeros 256)),
      (''transactionsRoot'', RBytes (Some (eblk_TransactionsRoot block))),
      (''stateRoot'', RBytes (Some (eblk_StateRoot block))),
      (''miner'', RBytes (Some (eblk_Miner block))),
      (''mixHash'', RHash (zeros 32)),
      (''difficulty'', RUint64 0),
      (''totalDifficulty'', RUint64 0),
      (''extraData'', RBytes None),
      (''size'', RUint64 (as_u64 (eblk_Size block))),
      (''gasLimit'', RUint64 (as_u64 BlockMaxGas)),
      (''gasUsed'', RUint64 (eblk_GasUsed block)),
      (''timestamp'', RUint64 (as_u64 (eblk_Timestamp block))),
      (''transactions'', RHashes (H (eblk_Transactions block))),
      (''uncles'', RStrings []),
      (''receiptsRoot'', RHash (zeros 32))]"

definition txToRpcResp :: "EvmTx \<Rightarrow> Transaction" where
  "txToRpcResp tx =
     (let idx = as_u64 (etx_TransactionIndex tx);
          resp = \<lparr>tr_BlockHash = zeros 32, tr_BlockNumber = etx_BlockNumber tx, tr_From = etx_From tx,
                  tr_Gas = as_u64 (etx_Gas tx), tr_GasPrice = be_val (etx_GasPrice tx), tr_Hash = etx_Hash tx,
                  tr_Input = etx_Input tx, tr_Nonce = as_u64 (etx_Nonce tx), tr_To = None,
                  tr_TransactionIndex = idx, tr_Value = be_val (etx_Value tx),
                  tr_V = None, tr_R = None, tr_S = None\<rparr>;
          resp = resp\<lparr>tr_BlockHash := copy_into (tr_BlockHash resp) 0 32 (etx_BlockHash tx)\<rparr>
      in if etx_To tx \<noteq> zeros 20
         then resp\<lparr>tr_To := Some (copy_into (zeros 20) 0 20 (etx_To tx))\<rparr>
         else resp)"

section \<open>The services\<close>

definition ethChainId :: "BackendService \<Rightarrow> int" where
  "ethChainId B = as_u64 (bk_ChainId B)"

definition ethBlockNumber :: "int \<Rightarrow> BackendService \<Rightarrow> int outcome" where
  "ethBlockNumber now B =
     (case bk_LatestHeight B now of Err e \<Rightarrow> Err e | Panic e \<Rightarrow> Panic e | Ok h \<Rightarrow> Ok (as_u64 h))"

text \<open>\<open>Ok None\<close> is a nil response with a nil error.\<close>

definition ethGetBlockByNumber ::
  "(bytes list \<Rightarrow> bytes list) \<Rightarrow> BackendService \<Rightarrow> int \<Rightarrow> bool \<Rightarrow> (string \<times> rpcVal) list option outcome" where
  "ethGetBlockByNumber H B blockNum fullTx =
     (case bk_BlockByNumber B blockNum of
        Err e \<Rightarrow> if e = ErrBlockNotFound then Ok None else Err e
      | Panic e \<Rightarrow> Panic e
      | Ok block \<Rightarrow> Ok (Some (blockToRpcResp H block)))"

definition ethGetTransactionByHash :: "BackendService \<Rightarrow> bytes \<Rightarrow> Transaction option outcome" where
  "ethGetTransactionByHash B hash =
     (case bk_GetTx B hash of
        Err e \<Rightarrow> Ok None
      | Panic e \<Rightarrow> Panic e
      | Ok (tx, _) \<Rightarrow> Ok (Some (txToRpcResp tx)))"

section \<open>Lemmas\<close>

lemma blockAt_consecutive:
  assumes "map mblk_Height bs = [1..int (length bs)]"
  shows "blockAt h bs = (if 1 \<le> h \<and> h \<le> int (length bs) then Some (bs ! nat (h - 1)) else None)"
proof (cases "1 \<le> h \<and> h \<le> int (length bs)")
  case True
  have height: "mblk_Height (bs ! i) = int i + 1" if "i < length bs" for i
  proof -
    have "mblk_Height (bs ! i) = map mblk_Height bs ! i" using that by simp
    then show ?thesis using that assms by simp
  qed
  from True have i: "nat (h - 1) < length bs" "int (nat (h - 1)) + 1 = h" by auto
  then have "bs ! nat (h - 1) \<in> set (rev bs)" "mblk_Height (bs ! nat (h - 1)) = h" using height [OF i(1)] by simp_all
  then have "blockAt h bs \<noteq> None" by (auto simp: blockAt_def find_None_iff)
  then obtain b where b: "blockAt h bs = Some b" by blast
  from blockAt_SomeD [OF b] obtain k where k: "k < length bs" "bs ! k = b" "mblk_Height b = h"
    by (auto simp: in_set_conv_nth)
  with height [OF k(1)] have "nat (h - 1) = k" by simp
  with b k True show ?thesis by simp
next
  case False
  have "h \<notin> mblk_Height ` set bs" using assms False by (auto simp flip: set_map)
  then have "blockAt h bs = None" by (auto simp: blockAt_def find_None_iff)
  with False show ?thesis by auto
qed

text \<open>The blocks of a reachable chain by number.\<close>

lemma chain_block_by_number:
  assumes "modb_lib M blocks" and "codec_lib D" and "reachable D E (bchScanners D) (ChainLogDB D M) v0 v"
    and "blocks (vc_Store v0) = []" and "0 \<le> vc_GenesisMainChainBlockHeight v0"
    and "is_i64 (vc_GenesisMainChainBlockHeight v0)" and "is_i64 n"
  shows "bk_BlockByNumber (NewBackend D I (ChainLogDB D M) v) n =
    (if 1 \<le> n \<and> n \<le> vc_CurrentBlockHeight v then Ok (decodedBlock D (blocks (vc_Store v) ! nat (n - 1))) else Err ErrBlockNotFound)"
proof -
  from bch_reachable_chainInv [OF assms(1-6)]
  have ok: "blocksOk D (vc_ChainName v) (blocks (vc_Store v))" and h: "vc_CurrentBlockHeight v = int (length (blocks (vc_Store v)))"
    by (simp_all add: chainInv_def headOk_def)
  from ok have "list_all (storable D) (blocks (vc_Store v))" "map mblk_Height (blocks (vc_Store v)) = [1..int (length (blocks (vc_Store v)))]"
    by (simp_all add: blocksOk_def)
  with istore.by_height [OF chainlogdb_istore [OF assms(1)], of D] h show ?thesis
    by (simp add: NewBackend_def BlockByNumber_def blockAt_consecutive as_i64_as_u64 [OF assms(7)])
qed

lemma chain_block_fields:
  assumes "blocksOk D name bs" and "1 \<le> n" and "n \<le> int (length bs)"
  shows "eblk_Number (decodedBlock D (bs ! nat (n - 1))) = n"
    and "eblk_Hash (decodedBlock D (bs ! nat (n - 1))) = blockHash name (n - 1)"
    and "eblk_Timestamp (decodedBlock D (bs ! nat (n - 1))) = 0"
proof -
  let ?b = "bs ! nat (n - 1)"
  from assms(2,3) have i: "nat (n - 1) < length bs" "int (nat (n - 1)) = n - 1" by auto
  have "map mblk_Height bs ! nat (n - 1) = n" "map mblk_BlockHash bs ! nat (n - 1) = blockHash name (n - 1)"
    using assms(1) i by (simp_all add: blocksOk_def)
  moreover have "storable D ?b" "eblk_Timestamp (decodedBlock D ?b) = 0"
    using assms(1) i by (auto simp: blocksOk_def list_all_length)
  ultimately show "eblk_Number (decodedBlock D ?b) = n" "eblk_Hash (decodedBlock D ?b) = blockHash name (n - 1)"
      "eblk_Timestamp (decodedBlock D ?b) = 0"
    using storable_decoded i by auto
qed

text \<open>Every stored transaction knows the block it is in.\<close>

definition placed :: "deps \<Rightarrow> ModbBlock \<Rightarrow> bool" where
  "placed D b \<longleftrightarrow> list_all (\<lambda>t. etx_BlockNumber (decodedTx D t) = mblk_Height b \<and>
     etx_BlockHash (decodedTx D t) = mblk_BlockHash b) (mblk_TxList b)"

lemma convert_placed:
  assumes "codec_lib D" and "convertUtxoInfoToTx D C tx i height hash = Ok m"
  shows "etx_BlockNumber (decodedTx D m) = height \<and> etx_BlockHash (decodedTx D m) = hash"
  using assms(2)
proof (rule convert_Ok)
  fix acc :: VoutAcc and senders ca ts data
  assume m: "d_MarshalTx D (evmTxOf (d_HexToHash D (raw_Txid tx)) i height hash (firstAddress senders)
       (firstAddress (acc_receiverInfos acc)) ca ts data) = Ok (mtx_Content m)"
  from codec_lib.tx_decode [OF assms(1) m] show ?thesis by (simp add: decodedTx_def evmTxOf_def)
qed

lemma reachable_placed:
  assumes "reachable D E (bchScanners D) (ChainLogDB D M) v0 v" and "modb_lib M blocks" and "codec_lib D"
    and "blocks (vc_Store v0) = []"
  shows "list_all (placed D) (blocks (vc_Store v))"
  using assms(1)
proof induction
  case (boot I now v)
  then show ?case using assms(4) by (auto simp: RecoveryFromDB_def Let_def split: outcome.splits)
next
  case (generate v I now scanBlock v')
  from generate.hyps(3) show ?case
  proof (cases rule: GenerateNewBlock_cases)
    case idle
    with generate.IH show ?thesis by simp
  next
    case (block txs s info blk)
    from generate.hyps(2) obtain pick C where "I = bchScanner D pick C" by (auto simp: bchScanners_def)
    with block(1) have g: "GetNewTxs D pick C (\<lambda>txid. st_IsTxMined (ChainLogDB D M) txid (vc_Store v) = Ok True)
        (vc_CurrentBlockHeight v + 1) (blockHash (vc_ChainName v) (vc_CurrentBlockHeight v)) scanBlock (vc_Scanner v) =
        Ok (txs, s)"
      by (simp add: bchScanner_def)
    have "placed D blk"
      unfolding placed_def list_all_iff
    proof
      fix t assume "t \<in> set (mblk_TxList blk)"
      then have "t \<in> set txs" using block(4) by simp
      from GetNewTxs_origin [OF g this] convert_placed [OF assms(3)] block(4)
      show "etx_BlockNumber (decodedTx D t) = mblk_Height blk \<and> etx_BlockHash (decodedTx D t) = mblk_BlockHash blk"
        by auto
    qed
    with generate.IH block(5) istore.add_block [OF chainlogdb_istore [OF assms(2)], of D] show ?thesis by simp
  qed
next
  case (restart v I now s v')
  then show ?case by (auto simp: RecoveryFromDB_def Let_def split: outcome.splits)
qed

text \<open>A hash determines the block of a stored transaction.\<close>

lemma separate_same_block:
  "separate bs \<Longrightarrow> b \<in> set bs \<Longrightarrow> b' \<in> set bs \<Longrightarrow> k \<in> blockIds b \<Longrightarrow> k \<in> blockIds b' \<Longrightarrow> b' = b"
  by (induction bs) (auto simp: allIds_def)

section \<open>Properties\<close>

text \<open>
  C20: What eth\_blockNumber and eth\_getBlockByNumber show of a running chain.  The number of the latest
  block is the height of the chain; exactly the numbers from 1 to that height have a block, which
  carries its number, the hash of the chain's name and the height before, the hashes of its
  transactions, and the timestamp 0; every other number, also the negative ones that stand for
  latest, pending and earliest, is answered with null.
\<close>

theorem eth_blocks:
  assumes "modb_lib M blocks" and "codec_lib D" and "reachable D E (bchScanners D) (ChainLogDB D M) v0 v"
    and "blocks (vc_Store v0) = []" and "0 \<le> vc_GenesisMainChainBlockHeight v0"
    and "is_i64 (vc_GenesisMainChainBlockHeight v0)" and "is_i64 n" and "vc_CurrentBlockHeight v < 2 ^ 63"
    and B_def: "B = NewBackend D I (ChainLogDB D M) v"
  shows "ethBlockNumber now B = Ok (vc_CurrentBlockHeight v) \<and>
    (if 1 \<le> n \<and> n \<le> vc_CurrentBlockHeight v
     then \<exists>resp. ethGetBlockByNumber H B n fullTx = Ok (Some resp) \<and>
       map_of resp ''number'' = Some (RUint64 n) \<and>
       map_of resp ''hash'' = Some (RBytes (Some (blockHash (vc_ChainName v) (n - 1)))) \<and>
       map_of resp ''transactions'' =
         Some (RHashes (H (eblk_Transactions (decodedBlock D (blocks (vc_Store v) ! nat (n - 1)))))) \<and>
       map_of resp ''timestamp'' = Some (RUint64 0)
     else ethGetBlockByNumber H B n fullTx = Ok None)"
proof (intro conjI)
  from bch_reachable_chainInv [OF assms(1-6)]
  have ok: "blocksOk D (vc_ChainName v) (blocks (vc_Store v))" and h: "vc_CurrentBlockHeight v = int (length (blocks (vc_Store v)))"
    by (simp_all add: chainInv_def headOk_def)
  note st = chainlogdb_istore [OF assms(1), of D]
  show "ethBlockNumber now B = Ok (vc_CurrentBlockHeight v)"
  proof (cases "blocks (vc_Store v) = []")
    case True
    with istore.latest_none [OF st True] h show ?thesis
      by (simp add: ethBlockNumber_def B_def NewBackend_def LatestHeight_def as_u64_def)
  next
    case False
    with istore.latest [OF st _ False] ok h blocksOk_last(1) [OF ok False] assms(8) show ?thesis
      by (simp add: ethBlockNumber_def B_def NewBackend_def LatestHeight_def blocksOk_def as_u64_id)
  qed
  show "if 1 \<le> n \<and> n \<le> vc_CurrentBlockHeight v
     then \<exists>resp. ethGetBlockByNumber H B n fullTx = Ok (Some resp) \<and>
       map_of resp ''number'' = Some (RUint64 n) \<and>
       map_of resp ''hash'' = Some (RBytes (Some (blockHash (vc_ChainName v) (n - 1)))) \<and>
       map_of resp ''transactions'' =
         Some (RHashes (H (eblk_Transactions (decodedBlock D (blocks (vc_Store v) ! nat (n - 1)))))) \<and>
       map_of resp ''timestamp'' = Some (RUint64 0)
     else ethGetBlockByNumber H B n fullTx = Ok None"
    using chain_block_by_number [OF assms(1-7), of I] chain_block_fields [OF ok, of n] h assms(7)
    by (simp add: ethGetBlockByNumber_def B_def blockToRpcResp_def as_u64_id is_i64_def as_u64_def [of 0])
qed

text \<open>
  C19: eth\_getTransactionByHash finds every transaction of the chain, in its block.  For a transaction
  in a block of a reachable chain, the service answers with a transaction of the same hash, whose
  block number and block hash are those of the block.  The answer is the response for a
  transaction stored under that hash in that block, and its recipient is null exactly if that one
  goes to the zero address.
\<close>

theorem eth_transactions:
  assumes "modb_lib M blocks" and "codec_lib D" and "reachable D E (bchScanners D) (ChainLogDB D M) v0 v"
    and "blocks (vc_Store v0) = []" and "0 \<le> vc_GenesisMainChainBlockHeight v0"
    and "is_i64 (vc_GenesisMainChainBlockHeight v0)"
    and "b \<in> set (blocks (vc_Store v))" and "t \<in> set (mblk_TxList b)"
  shows "\<exists>resp. ethGetTransactionByHash (NewBackend D I (ChainLogDB D M) v) (mtx_HashId t) = Ok (Some resp) \<and>
    tr_Hash resp = mtx_HashId t \<and> tr_BlockNumber resp = mblk_Height b \<and> tr_BlockHash resp = mblk_BlockHash b \<and>
    (\<exists>t' \<in> set (mblk_TxList b). mtx_HashId t' = mtx_HashId t \<and> resp = txToRpcResp (decodedTx D t') \<and>
       (tr_To resp = None) = (etx_To (decodedTx D t') = zeros 20))"
proof -
  from bch_reachable_chainInv [OF assms(1-6)] have ok: "blocksOk D (vc_ChainName v) (blocks (vc_Store v))"
    by (simp add: chainInv_def)
  then have st: "list_all (storable D) (blocks (vc_Store v))" and sep: "separate (blocks (vc_Store v))"
    by (simp_all add: blocksOk_def)
  have "t \<in> set (allTxs (blocks (vc_Store v)))" using assms(7,8) by (auto simp: allTxs_def)
  from istore.tx_by_hash [OF chainlogdb_istore [OF assms(1), of D] st this] obtain t' where
    t': "t' \<in> set (allTxs (blocks (vc_Store v)))" "mtx_HashId t' = mtx_HashId t"
      "st_GetTxByHash (ChainLogDB D M) (mtx_HashId t) (vc_Store v) = Ok (decodedTx D t', zeros 65)"
    by blast
  then obtain b' where b': "b' \<in> set (blocks (vc_Store v))" "t' \<in> set (mblk_TxList b')" by (auto simp: allTxs_def)
  have "mtx_HashId t \<in> blockIds b" using assms(8) by (simp add: blockIds_def)
  moreover have "mtx_HashId t \<in> blockIds b'" using b'(2) t'(2) by (metis blockIds_def imageI)
  ultimately have "b' = b" using separate_same_block [OF sep assms(7) b'(1)] by blast
  with b'(2) have tb: "t' \<in> set (mblk_TxList b)" by simp
  let ?r = "txToRpcResp (decodedTx D t')"
  from tb reachable_placed [OF assms(3,1,2,4)] assms(7)
  have place: "etx_BlockNumber (decodedTx D t') = mblk_Height b" "etx_BlockHash (decodedTx D t') = mblk_BlockHash b"
    by (auto simp: list_all_iff placed_def)
  have "mblk_BlockHash b \<in> set (map mblk_BlockHash (blocks (vc_Store v)))" using assms(7) by simp
  moreover have "map mblk_BlockHash (blocks (vc_Store v)) =
      map (blockHash (vc_ChainName v)) [0..int (length (blocks (vc_Store v))) - 1]"
    using ok by (simp add: blocksOk_def)
  ultimately have "mblk_BlockHash b \<in> set (map (blockHash (vc_ChainName v)) [0..int (length (blocks (vc_Store v))) - 1])"
    by (simp only:)
  then have "length (mblk_BlockHash b) = 32" by (auto simp: blockHash_def)
  moreover have "etx_Hash (decodedTx D t') = mtx_HashId t"
    using storableTx_decoded [OF storable_txs [OF st t'(1)]] t'(2) by simp
  ultimately have "tr_Hash ?r = mtx_HashId t" "tr_BlockNumber ?r = mblk_Height b" "tr_BlockHash ?r = mblk_BlockHash b"
    "(tr_To ?r = None) = (etx_To (decodedTx D t') = zeros 20)"
    using place by (auto simp: txToRpcResp_def Let_def copy_into_exact)
  moreover have "ethGetTransactionByHash (NewBackend D I (ChainLogDB D M) v) (mtx_HashId t) = Ok (Some ?r)"
    using t'(3) by (simp add: ethGetTransactionByHash_def NewBackend_def GetTx_def)
  ultimately show ?thesis using tb t'(2) by (intro exI [of _ ?r] conjI bexI [of _ t']) simp_all
qed

text \<open>
  The chain id that eth\_chainId reports is 0.  The id of a chain is its name, left-justified in 32
  bytes, and the service reports the last 8 of them: for every name of at most 24 bytes, among them
  the name of the Bitcoin Cash chain, that is 0.
\<close>

lemma eth_chainId_is_zero:
  assumes "uint256_lib (d_u256 D)" and "vc_ChainID v = convertChainNameToChainId name" and "length name \<le> 24"
  shows "ethChainId (NewBackend D I S v) = 0"
proof -
  have "vc_ChainID v = (bytes_of name @ zeros (24 - length name)) @ zeros 8"
    using assms(2,3) by (simp add: convertChainNameToChainId_def copy_into_short) (simp add: zeros_def flip: replicate_add)
  then have "be_val (vc_ChainID v) = be_val (bytes_of name @ zeros (24 - length name)) * 256 ^ 8"
    by (simp add: be_val_append power_add)
  moreover have "length (vc_ChainID v) = 32" using assms(2) by (simp add: convertChainNameToChainId_def)
  ultimately show ?thesis
    by (simp add: ethChainId_def NewBackend_def ChainId_def uint256_lib.ToBig_SetBytes32 [OF assms(1)] as_u64_def)
qed

section \<open>On the example chain\<close>

theorem eth_blocks_witness:
  "\<exists>v resp. ethBlockNumber 0 (NewBackend ref_deps exSc exS v) = Ok 1 \<and>
     ethGetBlockByNumber (\<lambda>x. x) (NewBackend ref_deps exSc exS v) 1 True = Ok (Some resp) \<and>
     map_of resp ''number'' = Some (RUint64 1)"
proof (rule exChain_block)
  fix m b v
  assume g: "GenerateNewBlock ref_deps exEvent exSc exS 105 True exChain1 = Ok v" and b: "vc_Store v = [b]"
  note r = exChain_reachable2 [OF g]
  from bch_reachable_chainInv [OF listModb.modb_lib_axioms ref_codec.codec_lib_axioms r exChain0_start] b
  have "vc_CurrentBlockHeight v = 1" by (simp add: chainInv_def headOk_def)
  with eth_blocks [OF listModb.modb_lib_axioms ref_codec.codec_lib_axioms r exChain0_start, of 1
      "NewBackend ref_deps exSc exS v" exSc 0 "\<lambda>x. x" True]
  show ?thesis by (auto simp: is_i64_def)
qed

theorem eth_transactions_witness:
  "\<exists>v resp. ethGetTransactionByHash (NewBackend ref_deps exSc exS v) (d_HexToHash ref_deps (raw_Txid exTx)) = Ok (Some resp) \<and>
     tr_BlockNumber resp = 1"
proof (rule exChain_block)
  fix m b v
  assume g: "GenerateNewBlock ref_deps exEvent exSc exS 105 True exChain1 = Ok v" and b: "vc_Store v = [b]"
    and m: "mblk_TxList b = [m]" "mtx_HashId m = d_HexToHash ref_deps (raw_Txid exTx)"
  note r = exChain_reachable2 [OF g]
  from bch_reachable_chainInv [OF listModb.modb_lib_axioms ref_codec.codec_lib_axioms r exChain0_start] b
  have "mblk_Height b = 1" by (simp add: chainInv_def blocksOk_def)
  with eth_transactions [OF listModb.modb_lib_axioms ref_codec.codec_lib_axioms r exChain0_start, of b m exSc] b m
  show ?thesis by auto
qed

end
