(* ===== verification/Client.thy ===== *)
theory Client
  imports Scanner_Scan
begin

text \<open>
  bch/client.go and bch/client\_raw.go: the client that repeats a failed request.  The network is a
  parameter: \<open>rpcclient\<close> gives the answer to the attempt \<open>i\<close> of a call, a result (nil is None) with
  an error or none.  What a call returns comes with the seconds it slept.
\<close>

section \<open>Retrying\<close>

record ConnConfig =
  conn_Host :: string
  conn_User :: string
  conn_Pass :: string
  conn_HTTPPostMode :: bool
  conn_DisableTLS :: bool

record RetryableClient =
  rc_connCfg :: ConnConfig
  rc_delay :: int
  rc_maxRetry :: int

text \<open>\<open>strings.Split\<close> at a character.\<close>

fun splitAt :: "char \<Rightarrow> string \<Rightarrow> string list" where
  "splitAt c [] = [[]]"
| "splitAt c (x # xs) =
     (if x = c then [] # splitAt c xs
      else case splitAt c xs of [] \<Rightarrow> [[x]] | w # ws \<Rightarrow> (x # w) # ws)"

text \<open>\<open>R\<close> is \<open>rpcclient.New\<close>, which may refuse a configuration.\<close>

definition MakeMainChainClient :: "(ConnConfig \<Rightarrow> goerr option) \<Rightarrow> string \<Rightarrow> ConnConfig outcome" where
  "MakeMainChainClient R mainChainClientInfo =
     (let bchClientParams = splitAt (CHR '','') mainChainClientInfo in
      if length bchClientParams \<noteq> 3 then Panic (ErrorString ''invalid main chain client param'')
      else
        let connCfg = \<lparr>conn_Host = bchClientParams ! 0, conn_User = bchClientParams ! 1, conn_Pass = bchClientParams ! 2,
                        conn_HTTPPostMode = True, conn_DisableTLS = True\<rparr>
        in case R connCfg of
             Some err \<Rightarrow> Panic err
           | None \<Rightarrow> Ok connCfg)"

definition NewRetryableClient :: "(ConnConfig \<Rightarrow> goerr option) \<Rightarrow> string \<Rightarrow> int \<Rightarrow> int \<Rightarrow> RetryableClient outcome" where
  "NewRetryableClient R mainChainClientInfo delayTime maxRetry =
     (case MakeMainChainClient R mainChainClientInfo of
        Err e \<Rightarrow> Err e
      | Panic e \<Rightarrow> Panic e
      | Ok cfg \<Rightarrow> Ok \<lparr>rc_connCfg = cfg, rc_delay = delayTime, rc_maxRetry = maxRetry\<rparr>)"

text \<open>
  The loop of all methods, from attempt \<open>i\<close> on; \<open>ret\<close> are the named results so far, \<open>slept\<close> what
  \<open>Delay\<close> slept.
\<close>

function retryLoop :: "RetryableClient \<Rightarrow> (int \<Rightarrow> 'a \<times> goerr option) \<Rightarrow> int \<Rightarrow> 'a \<times> goerr option \<Rightarrow> int \<Rightarrow> ('a \<times> goerr option) \<times> int" where
  "retryLoop r call i ret slept =
     (if i < rc_maxRetry r then
        (let ret = call i in
         if snd ret = None then (ret, slept) else retryLoop r call (i + 1) ret (slept + rc_delay r))
      else (ret, slept))"
  by pat_completeness auto
termination
  by (relation "measure (\<lambda>(r, call, i, ret, slept). nat (rc_maxRetry r - i))") auto

declare retryLoop.simps [simp del]

text \<open>
  The answers of \<open>rpcclient.Client\<close> by attempt; \<open>'gt\<close> and \<open>'go\<close> stand for \<open>btcjson.GetTransactionResult\<close>
  and \<open>btcjson.GetTxOutResult\<close>, which are only passed on.
\<close>

record ('gt, 'go) rpcclient =
  rpc_GetRawMempool :: "int \<Rightarrow> bytes list \<times> goerr option"
  rpc_GetRawTransactionVerbose :: "bytes \<Rightarrow> int \<Rightarrow> TxRawResult option \<times> goerr option"
  rpc_GetTransaction :: "bytes \<Rightarrow> int \<Rightarrow> 'gt option \<times> goerr option"
  rpc_GetBlockCount :: "int \<Rightarrow> int \<times> goerr option"
  rpc_GetBlockHash :: "int \<Rightarrow> int \<Rightarrow> bytes option \<times> goerr option"
  rpc_GetBlockVerboseTx :: "bytes \<Rightarrow> int \<Rightarrow> TxRawResult list option \<times> goerr option"
  rpc_SendRawSerializedTransaction :: "string \<Rightarrow> bool \<Rightarrow> int \<Rightarrow> bytes option \<times> goerr option"
  rpc_GetTxOut :: "bytes \<Rightarrow> nat \<Rightarrow> bool \<Rightarrow> int \<Rightarrow> 'go option \<times> goerr option"

definition retryGetRawMempool :: "RetryableClient \<Rightarrow> ('gt, 'go) rpcclient \<Rightarrow> (bytes list \<times> goerr option) \<times> int" where
  "retryGetRawMempool r c = retryLoop r (rpc_GetRawMempool c) 0 ([], None) 0"

definition retryGetRawTransactionVerbose ::
  "RetryableClient \<Rightarrow> ('gt, 'go) rpcclient \<Rightarrow> bytes \<Rightarrow> (TxRawResult option \<times> goerr option) \<times> int" where
  "retryGetRawTransactionVerbose r c txHash = retryLoop r (rpc_GetRawTransactionVerbose c txHash) 0 (None, None) 0"

definition retryGetTransaction :: "RetryableClient \<Rightarrow> ('gt, 'go) rpcclient \<Rightarrow> bytes \<Rightarrow> ('gt option \<times> goerr option) \<times> int" where
  "retryGetTransaction r c txHash = retryLoop r (rpc_GetTransaction c txHash) 0 (None, None) 0"

definition retryGetBlockCount :: "RetryableClient \<Rightarrow> ('gt, 'go) rpcclient \<Rightarrow> (int \<times> goerr option) \<times> int" where
  "retryGetBlockCount r c = retryLoop r (rpc_GetBlockCount c) 0 (0, None) 0"

definition retryGetBlockHash :: "RetryableClient \<Rightarrow> ('gt, 'go) rpcclient \<Rightarrow> int \<Rightarrow> (bytes option \<times> goerr option) \<times> int" where
  "retryGetBlockHash r c blockHeight = retryLoop r (rpc_GetBlockHash c blockHeight) 0 (None, None) 0"

definition retryGetBlockVerboseTx ::
  "RetryableClient \<Rightarrow> ('gt, 'go) rpcclient \<Rightarrow> bytes \<Rightarrow> (TxRawResult list option \<times> goerr option) \<times> int" where
  "retryGetBlockVerboseTx r c blockHash = retryLoop r (rpc_GetBlockVerboseTx c blockHash) 0 (None, None) 0"

definition retrySendRawTransaction ::
  "RetryableClient \<Rightarrow> ('gt, 'go) rpcclient \<Rightarrow> bytes \<Rightarrow> (bytes option \<times> goerr option) \<times> int" where
  "retrySendRawTransaction r c rawTx =
     retryLoop r (rpc_SendRawSerializedTransaction c (hexEncodeToString rawTx) True) 0 (None, None) 0"

definition retryGetTxOut ::
  "RetryableClient \<Rightarrow> ('gt, 'go) rpcclient \<Rightarrow> bytes \<Rightarrow> nat \<Rightarrow> bool \<Rightarrow> ('go option \<times> goerr option) \<times> int" where
  "retryGetTxOut r c txHash index mempool = retryLoop r (rpc_GetTxOut c txHash index mempool) 0 (None, None) 0"

section \<open>The raw request\<close>

record JsonRpcError =
  jre_Code :: int
  jre_Message :: string

record JsonRpcResult =
  jrr_Id :: string
  jrr_Error :: "JsonRpcError option"
  jrr_Result :: bytes

record TestMempoolAcceptResult =
  tma_Txid :: string
  tma_Allowed :: bool
  tma_RejectReason :: string

text \<open>
  What the standard library does with a request and with JSON: \<open>http.NewRequest\<close> checks the address,
  \<open>Do\<close> gives a response, \<open>io.ReadAll\<close> its content, and \<open>json.Unmarshal\<close> decodes the two types.
\<close>

record 'resp http_ops =
  h_NewRequest :: "string \<Rightarrow> string \<Rightarrow> goerr option"
  h_Do :: "string \<Rightarrow> string \<Rightarrow> string \<Rightarrow> string \<Rightarrow> goerr + 'resp"
  h_ReadAll :: "'resp \<Rightarrow> goerr + bytes"
  h_JsonRpcResult :: "bytes \<Rightarrow> goerr + JsonRpcResult"
  h_AcceptResults :: "bytes \<Rightarrow> goerr + TestMempoolAcceptResult list"

definition sendRequest :: "'resp http_ops \<Rightarrow> string \<Rightarrow> string \<Rightarrow> string \<Rightarrow> string \<Rightarrow> goerr + bytes" where
  "sendRequest J host user pass reqStr =
     (case h_NewRequest J host reqStr of
        Some err \<Rightarrow> Inl err
      | None \<Rightarrow>
        (case h_Do J host user pass reqStr of
           Inl err \<Rightarrow> Inl err
         | Inr resp \<Rightarrow>
           (case h_ReadAll J resp of
              Inl err \<Rightarrow> Inl err
            | Inr respData \<Rightarrow> Inr respData)))"

definition testMempoolAcceptReq :: "string \<Rightarrow> string" where
  "testMempoolAcceptReq rawTx =
     (let q = [CHR 0x22] in
      ''{'' @ q @ ''jsonrpc'' @ q @ '': '' @ q @ ''1.0'' @ q @ '', '' @ q @ ''id'' @ q @ '':'' @ q @ ''relayer'' @ q @
      '', '' @ q @ ''method'' @ q @ '': '' @ q @ ''testmempoolaccept'' @ q @ '', '' @ q @ ''params'' @ q @ '': [['' @ q @
      rawTx @ q @ '']] }'')"

text \<open>The part of \<open>testMempoolAccept\<close> after the check of the error field.\<close>

definition acceptResult :: "'resp http_ops \<Rightarrow> bytes \<Rightarrow> bool \<times> goerr option" where
  "acceptResult J result =
     (case h_AcceptResults J result of
        Inl err \<Rightarrow> (False, Some (WrappedError ''failed to unmarsal TestMempoolAcceptResults: '' err))
      | Inr results \<Rightarrow>
        if length results \<noteq> 1
        then (False, Some (ErrorString (''invalid TestMempoolAcceptResults count: '' @ itoa (int (length results)))))
        else if \<not> tma_Allowed (results ! 0)
        then (False, Some (ErrorString (''tx rejected: '' @ tma_RejectReason (results ! 0))))
        else (True, None))"

definition testMempoolAccept :: "'resp http_ops \<Rightarrow> string \<Rightarrow> string \<Rightarrow> string \<Rightarrow> bytes \<Rightarrow> bool \<times> goerr option" where
  "testMempoolAccept J rpcUrl user pass rawTx =
     (case sendRequest J rpcUrl user pass (testMempoolAcceptReq (hexEncodeToString rawTx)) of
        Inl err \<Rightarrow> (False, Some (WrappedError ''failed to send resquest: '' err))
      | Inr resp \<Rightarrow>
        (case h_JsonRpcResult J resp of
           Inl err \<Rightarrow> (False, Some (WrappedError ''failed to unmarsal JSON RPC result: '' err))
         | Inr jsonRpcResult \<Rightarrow>
           (case jrr_Error jsonRpcResult of
              None \<Rightarrow> acceptResult J (jrr_Result jsonRpcResult)
            | Some err \<Rightarrow>
              if jre_Code err \<noteq> 0
              then (False, Some (ErrorString (''error code: '' @ itoa (jre_Code err) @ '', error message: '' @ jre_Message err)))
              else acceptResult J (jrr_Result jsonRpcResult))))"

text \<open>\<open>J i\<close> is the network at attempt \<open>i\<close>.\<close>

definition retryTestMempoolAccept :: "RetryableClient \<Rightarrow> (int \<Rightarrow> 'resp http_ops) \<Rightarrow> bytes \<Rightarrow> (bool \<times> goerr option) \<times> int" where
  "retryTestMempoolAccept r J rawTx =
     retryLoop r (\<lambda>i. testMempoolAccept (J i) (''http://'' @ conn_Host (rc_connCfg r)) (conn_User (rc_connCfg r))
       (conn_Pass (rc_connCfg r)) rawTx) 0 (False, None) 0"

section \<open>As the node of the scanner\<close>

text \<open>
  The scanner checks the error and uses the result: the hashes of the mempool (nil is the empty list)
  and the block count as they are, a pointer by dereferencing it.
\<close>

definition valueOf :: "('a \<times> goerr option) \<times> int \<Rightarrow> 'a outcome" where
  "valueOf ret = (case fst ret of (_, Some e) \<Rightarrow> Err e | (x, None) \<Rightarrow> Ok x)"

definition answer :: "('a option \<times> goerr option) \<times> int \<Rightarrow> 'a outcome" where
  "answer ret =
     (case fst ret of
        (_, Some e) \<Rightarrow> Err e
      | (Some x, None) \<Rightarrow> Ok x
      | (None, None) \<Rightarrow> Panic NilDereference)"

definition retryingNode :: "RetryableClient \<Rightarrow> ('gt, 'go) rpcclient \<Rightarrow> BchClient" where
  "retryingNode r c =
     \<lparr>GetRawMempool = valueOf (retryGetRawMempool r c),
      GetRawTransactionVerbose = (\<lambda>h. answer (retryGetRawTransactionVerbose r c h)),
      GetBlockCount = valueOf (retryGetBlockCount r c),
      GetBlockHash = (\<lambda>n. answer (retryGetBlockHash r c n)),
      GetBlockVerboseTx = (\<lambda>h. answer (retryGetBlockVerboseTx r c h))\<rparr>"

section \<open>Lemmas\<close>

text \<open>The first attempt of the loop that succeeds, from \<open>i\<close> on.\<close>

definition goodAttempts :: "RetryableClient \<Rightarrow> (int \<Rightarrow> 'a \<times> goerr option) \<Rightarrow> int \<Rightarrow> int list" where
  "goodAttempts r call i = filter (\<lambda>j. snd (call j) = None) [i..rc_maxRetry r - 1]"

lemma retryLoop_from:
  "retryLoop r call i ret slept =
     (case goodAttempts r call i of
        k # _ \<Rightarrow> (call k, slept + (k - i) * rc_delay r)
      | [] \<Rightarrow> if i < rc_maxRetry r then (call (rc_maxRetry r - 1), slept + (rc_maxRetry r - i) * rc_delay r) else (ret, slept))"
proof (induction r call i ret slept rule: retryLoop.induct)
  case (1 r call i ret slept)
  show ?case
  proof (cases "i < rc_maxRetry r")
    case False
    then show ?thesis by (simp add: retryLoop.simps goodAttempts_def)
  next
    case True
    then have g: "goodAttempts r call i = (if snd (call i) = None then [i] else []) @ goodAttempts r call (i + 1)"
      by (simp add: goodAttempts_def upto_rec1)
    show ?thesis
    proof (cases "snd (call i) = None")
      case good: True
      with True g show ?thesis by (simp add: retryLoop.simps [of r call i] Let_def)
    next
      case bad: False
      have "retryLoop r call i ret slept = retryLoop r call (i + 1) (call i) (slept + rc_delay r)"
        using True bad by (subst retryLoop.simps) (auto simp: Let_def)
      then have loop: "retryLoop r call i ret slept =
          (case goodAttempts r call (i + 1) of
             k # _ \<Rightarrow> (call k, slept + rc_delay r + (k - (i + 1)) * rc_delay r)
           | [] \<Rightarrow> if i + 1 < rc_maxRetry r
               then (call (rc_maxRetry r - 1), slept + rc_delay r + (rc_maxRetry r - (i + 1)) * rc_delay r)
               else (call i, slept + rc_delay r))"
        using "1.IH" [OF True refl bad] by simp
      show ?thesis
      proof (cases "rc_maxRetry r = i + 1")
        case last: True
        then have "goodAttempts r call (i + 1) = []" by (simp add: goodAttempts_def)
        with last bad g loop show ?thesis by auto
      next
        case False
        with True bad g loop show ?thesis by (auto simp: algebra_simps split: list.split)
      qed
    qed
  qed
qed

text \<open>
  What the attempts of one request come to: the first success, or the last error if all attempts
  fail.
\<close>

definition settles :: "RetryableClient \<Rightarrow> (int \<Rightarrow> 'a \<times> goerr option) \<Rightarrow> ('a \<Rightarrow> 'b option) \<Rightarrow> 'b outcome \<Rightarrow> bool" where
  "settles r call deref res \<longleftrightarrow>
     (case res of
        Ok x \<Rightarrow> (case goodAttempts r call 0 of [] \<Rightarrow> False | k # _ \<Rightarrow> deref (fst (call k)) = Some x)
      | Err e \<Rightarrow> goodAttempts r call 0 = [] \<and> 0 < rc_maxRetry r \<and> snd (call (rc_maxRetry r - 1)) = Some e
      | Panic e \<Rightarrow> False)"

lemma goodAttempt: "goodAttempts r call i = k # ks \<Longrightarrow> snd (call k) = None"
  using filter_set [of "\<lambda>j. snd (call j) = None" "[i..rc_maxRetry r - 1]"]
  by (auto simp: goodAttempts_def)

lemma answer_settled: "settles r call (\<lambda>x. x) res \<Longrightarrow> answer (retryLoop r call 0 ret 0) = res"
  by (cases res)
    (auto simp: settles_def retryLoop_from answer_def dest!: goodAttempt split: list.splits prod.splits option.splits)

lemma value_settled: "settles r call Some res \<Longrightarrow> valueOf (retryLoop r call 0 ret 0) = res"
  by (cases res)
    (auto simp: settles_def retryLoop_from valueOf_def dest!: goodAttempt split: list.splits prod.splits option.splits)

text \<open>The requests a client makes for the scanner come to what the node \<open>N\<close> answers.\<close>

definition approximates :: "RetryableClient \<Rightarrow> ('gt, 'go) rpcclient \<Rightarrow> BchClient \<Rightarrow> bool" where
  "approximates r c N \<longleftrightarrow>
     settles r (rpc_GetRawMempool c) Some (GetRawMempool N) \<and>
     (\<forall>h. settles r (rpc_GetRawTransactionVerbose c h) (\<lambda>x. x) (GetRawTransactionVerbose N h)) \<and>
     settles r (rpc_GetBlockCount c) Some (GetBlockCount N) \<and>
     (\<forall>n. settles r (rpc_GetBlockHash c n) (\<lambda>x. x) (GetBlockHash N n)) \<and>
     (\<forall>h. settles r (rpc_GetBlockVerboseTx c h) (\<lambda>x. x) (GetBlockVerboseTx N h))"

section \<open>Properties\<close>

text \<open>
  The retry loop ends and returns the first success.  Every method of the client returns the
  answer of the first attempt below \<open>maxRetry\<close> that succeeds, after one delay for each failed attempt;
  if none succeeds, the last answer, after \<open>maxRetry\<close> delays; and if \<open>maxRetry\<close> is not positive, the
  zero value without an error.
\<close>

lemma retryLoop_outcome:
  "retryLoop r call 0 ret 0 =
     (case filter (\<lambda>j. snd (call j) = None) [0..rc_maxRetry r - 1] of
        k # _ \<Rightarrow> (call k, k * rc_delay r)
      | [] \<Rightarrow> if 0 < rc_maxRetry r then (call (rc_maxRetry r - 1), rc_maxRetry r * rc_delay r) else (ret, 0))"
  unfolding retryLoop_from goodAttempts_def by (simp split: list.split)

text \<open>
  C23: Failures of the network are invisible to the scanner.  If every request fails at most
  \<open>maxRetry - 1\<close> times before the node answers (or fails in all attempts where the node \<open>N\<close> refuses it),
  then the retrying client is the node \<open>N\<close>: what the scanner's theorems say of \<open>N\<close> holds over an
  unreliable connection.
\<close>

theorem retryingNode_refines:
  assumes "approximates r c N"
  shows "retryingNode r c = N"
  using assms
  by (intro BchClient.equality)
    (simp_all add: approximates_def retryingNode_def answer_settled value_settled fun_eq_iff
      retryGetRawMempool_def retryGetRawTransactionVerbose_def retryGetBlockCount_def retryGetBlockHash_def
      retryGetBlockVerboseTx_def)

definition flakyCall :: "'a \<Rightarrow> 'a \<Rightarrow> int \<Rightarrow> 'a \<times> goerr option" where
  "flakyCall zero x i = (if i < 2 then (zero, Some (ErrorString ''connection refused'')) else (x, None))"

definition flakyClient :: "(unit, unit) rpcclient" where
  "flakyClient =
     \<lparr>rpc_GetRawMempool = flakyCall [] [[1], [2]],
      rpc_GetRawTransactionVerbose = (\<lambda>h i. (None, Some ErrTxNotFound)),
      rpc_GetTransaction = (\<lambda>h. flakyCall None None),
      rpc_GetBlockCount = flakyCall 0 800000,
      rpc_GetBlockHash = (\<lambda>n. flakyCall None (Some (be_bytes 32 n))),
      rpc_GetBlockVerboseTx = (\<lambda>h. flakyCall None (Some [])),
      rpc_SendRawSerializedTransaction = (\<lambda>s b. flakyCall None None),
      rpc_GetTxOut = (\<lambda>h n b. flakyCall None None)\<rparr>"

definition nodeCfg :: ConnConfig where
  "nodeCfg = \<lparr>conn_Host = ''node:8332'', conn_User = ''u'', conn_Pass = ''p'', conn_HTTPPostMode = True, conn_DisableTLS = True\<rparr>"

theorem retryingNode_refines_witness:
  "retryingNode \<lparr>rc_connCfg = nodeCfg, rc_delay = 10, rc_maxRetry = 4\<rparr> flakyClient =
     \<lparr>GetRawMempool = Ok [[1], [2]], GetRawTransactionVerbose = (\<lambda>h. Err ErrTxNotFound),
      GetBlockCount = Ok 800000, GetBlockHash = (\<lambda>n. Ok (be_bytes 32 n)), GetBlockVerboseTx = (\<lambda>h. Ok [])\<rparr>"
proof (rule retryingNode_refines)
  have "[0..3] = [0, 1, 2, 3 :: int]" by (simp add: upto_rec1)
  then show "approximates \<lparr>rc_connCfg = nodeCfg, rc_delay = 10, rc_maxRetry = 4\<rparr> flakyClient
     \<lparr>GetRawMempool = Ok [[1], [2]], GetRawTransactionVerbose = (\<lambda>h. Err ErrTxNotFound),
      GetBlockCount = Ok 800000, GetBlockHash = (\<lambda>n. Ok (be_bytes 32 n)), GetBlockVerboseTx = (\<lambda>h. Ok [])\<rparr>"
    by (simp add: approximates_def settles_def goodAttempts_def flakyClient_def flakyCall_def)
qed

text \<open>
  A transaction is reported as acceptable exactly when no error is, so a transaction the node rejects
  is an error and is tried again until the retries are used up.
\<close>

lemma testMempoolAccept_error: "fst (testMempoolAccept J url user pass tx) \<longleftrightarrow> snd (testMempoolAccept J url user pass tx) = None"
  by (auto simp: testMempoolAccept_def acceptResult_def split: sum.splits option.splits)

lemma rejected_transaction_is_retried:
  assumes "\<And>i. \<not> fst (testMempoolAccept (J i) (''http://'' @ conn_Host (rc_connCfg r)) (conn_User (rc_connCfg r))
      (conn_Pass (rc_connCfg r)) tx)"
    and "0 < rc_maxRetry r"
  shows "snd (retryTestMempoolAccept r J tx) = rc_maxRetry r * rc_delay r"
  using assms
  by (simp add: retryTestMempoolAccept_def retryLoop_from goodAttempts_def testMempoolAccept_error split: list.split)

text \<open>
  An unknown transaction: with the delay and the number of retries of \<open>NewBchScanner\<close>, asking for
  the confirmations of a transaction the node does not know takes 9990 seconds.
\<close>

lemma unknown_transaction_blocks:
  assumes "\<And>i. snd (rpc_GetRawTransactionVerbose c h i) \<noteq> None"
  shows "snd (retryGetRawTransactionVerbose \<lparr>rc_connCfg = cfg, rc_delay = 10, rc_maxRetry = 999\<rparr> c h) = 9990"
  using assms by (simp add: retryGetRawTransactionVerbose_def retryLoop_from goodAttempts_def split: list.split)

end
