(* ===== verification/Rpc_Server.thy ===== *)
theory Rpc_Server
  imports Eth_Api Client Filter_System
begin

text \<open>
  rpc/server.go and rpc/api/apis.go: the server that listens for HTTP, HTTPS and websocket
  connections and offers the services of the namespace \<open>eth\<close>.  The network is explicit: which
  listeners are open and what is served on them.  \<open>tmrpcserver.Listen\<close> may refuse an address and
  \<open>RegisterName\<close> may refuse a service; both refusals are parameters.  The program holds the server
  only as a service of tendermint, whose \<open>Start\<close> and \<open>Stop\<close> decide whether \<open>OnStart\<close> and \<open>OnStop\<close> run;
  that service is the parameter \<open>base_service\<close>.
\<close>

section \<open>The services\<close>

datatype service = EthService BackendService | FilterService BackendService fsys

record API =
  api_Namespace :: string
  api_Version :: string
  api_Service :: service
  api_Public :: bool

definition GetAPIs :: "int \<Rightarrow> BackendService \<Rightarrow> API list" where
  "GetAPIs now backend =
     [\<lparr>api_Namespace = ''eth'', api_Version = ''1.0'', api_Service = EthService backend, api_Public = True\<rparr>,
      \<lparr>api_Namespace = ''eth'', api_Version = ''1.0'', api_Service = FilterService backend (NewAPI now), api_Public = True\<rparr>]"

section \<open>Strings\<close>

text \<open>\<open>strings.TrimSpace\<close>, for ASCII.\<close>

definition isSpace :: "char \<Rightarrow> bool" where
  "isSpace c \<longleftrightarrow> c \<in> {CHR 0x09, CHR 0x0A, CHR 0x0B, CHR 0x0C, CHR 0x0D, CHR '' ''}"

definition trimSpace :: "string \<Rightarrow> string" where
  "trimSpace s = rev (dropWhile isSpace (rev (dropWhile isSpace s)))"

fun trimLoop :: "string list \<Rightarrow> string list \<Rightarrow> string list" where
  "trimLoop ret [] = ret"
| "trimLoop ret (r # l) = trimLoop (let r = trimSpace r in if r \<noteq> [] then ret @ [r] else ret) l"

definition splitAndTrim :: "string \<Rightarrow> string list" where
  "splitAndTrim input = trimLoop [] (splitAt (CHR '','') input)"

fun exists :: "string list \<Rightarrow> string \<Rightarrow> bool" where
  "exists [] target = False"
| "exists (s # ss) target = (if s = target then True else exists ss target)"

section \<open>The network\<close>

text \<open>
  What answers the requests of a listener: the services, behind a CORS filter or as websockets, for
  the allowed origins.
\<close>

datatype handler =
    Handler "(string \<times> service) list"
  | CorsHandler "string list" "(string \<times> service) list"
  | WebsocketHandler "string list" "(string \<times> service) list"

datatype transport = PlainTCP | SelfSignedTLS | CertTLS string string

record Net =
  net_next :: nat
  net_open :: "(nat \<times> string) list"
  net_serving :: "(nat \<times> transport \<times> handler) list"

text \<open>\<open>L opened addr\<close> is the error of listening on \<open>addr\<close> while the given listeners are open.\<close>

type_synonym listen = "(nat \<times> string) list \<Rightarrow> string \<Rightarrow> goerr option"

definition Listen :: "listen \<Rightarrow> string \<Rightarrow> Net \<Rightarrow> nat option \<times> goerr option \<times> Net" where
  "Listen L addr n =
     (case L (net_open n) addr of
        Some err \<Rightarrow> (None, Some err, n)
      | None \<Rightarrow> (Some (net_next n), None,
          n\<lparr>net_next := net_next n + 1, net_open := net_open n @ [(net_next n, addr)]\<rparr>))"

text \<open>\<open>go Serve(listener, ...)\<close>: the goroutine ends when the listener is closed.\<close>

definition serve :: "nat option \<Rightarrow> transport \<Rightarrow> handler \<Rightarrow> Net \<Rightarrow> Net" where
  "serve l t h n = (case l of None \<Rightarrow> n | Some k \<Rightarrow> n\<lparr>net_serving := net_serving n @ [(k, t, h)]\<rparr>)"

definition closeListener :: "nat option \<Rightarrow> Net \<Rightarrow> Net" where
  "closeListener l n =
     (case l of
        None \<Rightarrow> n
      | Some k \<Rightarrow> n\<lparr>net_open := filter (\<lambda>(j, _). j \<noteq> k) (net_open n),
                    net_serving := filter (\<lambda>(j, _). j \<noteq> k) (net_serving n)\<rparr>)"

section \<open>The server\<close>

record rpcServer =
  rs_services :: "(string \<times> service) list"
  rs_running :: bool

record Server =
  srv_rpcAddr :: string
  srv_wsAddr :: string
  srv_rpcHttpsAddr :: string
  srv_wssAddr :: string
  srv_corsDomain :: string
  srv_certFile :: string
  srv_keyFile :: string
  srv_httpAPIs :: "string list"
  srv_wsAPIs :: "string list"
  srv_backend :: BackendService
  srv_httpServer :: "rpcServer option"
  srv_httpListener :: "nat option"
  srv_wsServer :: "rpcServer option"
  srv_wsListener :: "nat option"
  srv_httpsListener :: "nat option"
  srv_wssListener :: "nat option"

text \<open>The \<open>Server\<close> that \<open>NewServer\<close> makes and hands to \<open>NewBaseService\<close>.\<close>

definition serverImpl ::
  "string \<Rightarrow> string \<Rightarrow> string \<Rightarrow> string \<Rightarrow> string \<Rightarrow> string \<Rightarrow> string \<Rightarrow> BackendService \<Rightarrow> string \<Rightarrow> string \<Rightarrow> Server" where
  "serverImpl rpcAddr wsAddr rpcAddrSecure wsAddrSecure corsDomain certFile keyFile backend httpAPI wsAPI =
     \<lparr>srv_rpcAddr = rpcAddr, srv_wsAddr = wsAddr, srv_rpcHttpsAddr = rpcAddrSecure, srv_wssAddr = wsAddrSecure,
      srv_corsDomain = corsDomain, srv_certFile = certFile, srv_keyFile = keyFile,
      srv_httpAPIs = splitAndTrim httpAPI, srv_wsAPIs = splitAndTrim wsAPI, srv_backend = backend,
      srv_httpServer = None, srv_httpListener = None, srv_wsServer = None, srv_wsListener = None,
      srv_httpsListener = None, srv_wssListener = None\<rparr>"

text \<open>\<open>R name service\<close> is the error of \<open>RegisterName\<close>.\<close>

type_synonym register = "string \<Rightarrow> service \<Rightarrow> goerr option"

fun registerApis :: "register \<Rightarrow> rpcServer \<Rightarrow> string list \<Rightarrow> API list \<Rightarrow> goerr option \<times> rpcServer" where
  "registerApis R rs namespaces [] = (None, rs)"
| "registerApis R rs namespaces (a # apis) =
     (if exists namespaces (api_Namespace a)
      then (case R (api_Namespace a) (api_Service a) of
              Some err \<Rightarrow> (Some err, rs)
            | None \<Rightarrow> registerApis R (rs\<lparr>rs_services := rs_services rs @ [(api_Namespace a, api_Service a)]\<rparr>) namespaces apis)
      else registerApis R rs namespaces apis)"

definition newCorsHandler :: "(string \<times> service) list \<Rightarrow> string list \<Rightarrow> handler" where
  "newCorsHandler srv allowedOrigins =
     (if length allowedOrigins = 0 then Handler srv else CorsHandler allowedOrigins srv)"

definition startHTTPAndHTTPS :: "listen \<Rightarrow> register \<Rightarrow> API list \<Rightarrow> Server \<Rightarrow> Net \<Rightarrow> goerr option \<times> Server \<times> Net" where
  "startHTTPAndHTTPS L R apis s n =
     (case registerApis R \<lparr>rs_services = [], rs_running = True\<rparr> (srv_httpAPIs s) apis of
        (Some err, rs) \<Rightarrow> (Some err, s\<lparr>srv_httpServer := Some rs\<rparr>, n)
      | (None, rs) \<Rightarrow>
        (let s = s\<lparr>srv_httpServer := Some rs\<rparr>;
             allowedOrigins = splitAt (CHR '','') (srv_corsDomain s);
             handler = newCorsHandler (rs_services rs) allowedOrigins
         in case Listen L (srv_rpcAddr s) n of
              (l, Some err, n) \<Rightarrow> (Some err, s\<lparr>srv_httpListener := l\<rparr>, n)
            | (l, None, n) \<Rightarrow>
              (let s = s\<lparr>srv_httpListener := l\<rparr>; n = serve l PlainTCP handler n in
               if srv_rpcHttpsAddr s \<noteq> ''off'' then
                 (case Listen L (srv_rpcHttpsAddr s) n of
                    (l, Some err, n) \<Rightarrow> (Some err, s\<lparr>srv_httpsListener := l\<rparr>, n)
                  | (l, None, n) \<Rightarrow>
                    (None, s\<lparr>srv_httpsListener := l\<rparr>,
                     serve l (if srv_certFile s = [] then SelfSignedTLS else CertTLS (srv_certFile s) (srv_keyFile s)) handler n))
               else (None, s, n))))"

definition startWSAndWSS :: "listen \<Rightarrow> register \<Rightarrow> API list \<Rightarrow> Server \<Rightarrow> Net \<Rightarrow> goerr option \<times> Server \<times> Net" where
  "startWSAndWSS L R apis s n =
     (case registerApis R \<lparr>rs_services = [], rs_running = True\<rparr> (srv_wsAPIs s) apis of
        (Some err, rs) \<Rightarrow> (Some err, s\<lparr>srv_wsServer := Some rs\<rparr>, n)
      | (None, rs) \<Rightarrow>
        (let s = s\<lparr>srv_wsServer := Some rs\<rparr>;
             allowedOrigins = splitAt (CHR '','') (srv_corsDomain s);
             wsh = WebsocketHandler allowedOrigins (rs_services rs)
         in case Listen L (srv_wsAddr s) n of
              (l, Some err, n) \<Rightarrow> (Some err, s\<lparr>srv_wsListener := l\<rparr>, n)
            | (l, None, n) \<Rightarrow>
              (let s = s\<lparr>srv_wsListener := l\<rparr>; n = serve l PlainTCP wsh n in
               if srv_wssAddr s \<noteq> ''off'' then
                 (case Listen L (srv_wssAddr s) n of
                    (l, Some err, n) \<Rightarrow> (Some err, s\<lparr>srv_wssListener := l\<rparr>, n)
                  | (l, None, n) \<Rightarrow>
                    (None, s\<lparr>srv_wssListener := l\<rparr>, serve l (CertTLS (srv_certFile s) (srv_keyFile s)) wsh n))
               else (None, s, n))))"

definition OnStart :: "listen \<Rightarrow> register \<Rightarrow> int \<Rightarrow> Server \<Rightarrow> Net \<Rightarrow> goerr option \<times> Server \<times> Net" where
  "OnStart L R now s n =
     (let apis = GetAPIs now (srv_backend s) in
      case startHTTPAndHTTPS L R apis s n of
        (Some err, s, n) \<Rightarrow> (Some err, s, n)
      | (None, s, n) \<Rightarrow> startWSAndWSS L R apis s n)"

definition stopServer :: "rpcServer option \<Rightarrow> rpcServer option" where
  "stopServer = map_option (\<lambda>rs. rs\<lparr>rs_running := False\<rparr>)"

definition stopHTTP :: "Server \<Rightarrow> Net \<Rightarrow> Server \<times> Net" where
  "stopHTTP s n =
     (let s = s\<lparr>srv_httpServer := stopServer (srv_httpServer s)\<rparr>;
          n = closeListener (srv_httpListener s) n;
          n = closeListener (srv_httpsListener s) n;
          n = closeListener (srv_httpsListener s) n;
          n = closeListener (srv_httpsListener s) n
      in (s, n))"

definition stopWS :: "Server \<Rightarrow> Net \<Rightarrow> Server \<times> Net" where
  "stopWS s n =
     (let s = s\<lparr>srv_wsServer := stopServer (srv_wsServer s)\<rparr>;
          n = closeListener (srv_wsListener s) n;
          n = closeListener (srv_wssListener s) n
      in (s, n))"

definition OnStop :: "Server \<Rightarrow> Net \<Rightarrow> Server \<times> Net" where
  "OnStop s n = (case stopHTTP s n of (s, n) \<Rightarrow> stopWS s n)"

definition StopHttpsListener :: "Server \<Rightarrow> Net \<Rightarrow> Net" where
  "StopHttpsListener s n = closeListener (srv_httpsListener s) n"

section \<open>The service around the server\<close>

text \<open>
  \<open>tmservice.BaseService\<close> of tendermint with the \<open>Server\<close> as its implementation: \<open>svc_Start\<close> and
  \<open>svc_Stop\<close> get the \<open>OnStart\<close> and \<open>OnStop\<close> to call.  The package documents that a service is
  running from a start whose \<open>OnStart\<close> gave no error until it is stopped, that \<open>Start\<close> returns the
  error of \<open>OnStart\<close>, and that \<open>Stop\<close> of a service that is not running is an error and does nothing.
\<close>

record 'b BaseService =
  svc_New :: 'b
  svc_IsRunning :: "'b \<Rightarrow> bool"
  svc_Start :: "(Server \<Rightarrow> Net \<Rightarrow> goerr option \<times> Server \<times> Net) \<Rightarrow> 'b \<Rightarrow> Server \<Rightarrow> Net \<Rightarrow> goerr option \<times> 'b \<times> Server \<times> Net"
  svc_Stop :: "(Server \<Rightarrow> Net \<Rightarrow> Server \<times> Net) \<Rightarrow> 'b \<Rightarrow> Server \<Rightarrow> Net \<Rightarrow> goerr option \<times> 'b \<times> Server \<times> Net"

locale base_service =
  fixes V :: "'b BaseService"
  assumes new_idle: "\<not> svc_IsRunning V (svc_New V)"
    and start_new: "onStart s n = (e, s', n') \<Longrightarrow>
      \<exists>b. svc_Start V onStart (svc_New V) s n = (e, b, s', n') \<and> svc_IsRunning V b = (e = None)"
    and stop_running: "svc_IsRunning V b \<Longrightarrow> onStop s n = (s', n') \<Longrightarrow>
      \<exists>b'. svc_Stop V onStop b s n = (None, b', s', n') \<and> \<not> svc_IsRunning V b'"
    and stop_idle: "\<not> svc_IsRunning V b \<Longrightarrow> \<exists>e b'. svc_Stop V onStop b s n = (Some e, b', s, n) \<and> \<not> svc_IsRunning V b'"

definition NewServer ::
  "'b BaseService \<Rightarrow> string \<Rightarrow> string \<Rightarrow> string \<Rightarrow> string \<Rightarrow> string \<Rightarrow> string \<Rightarrow> string \<Rightarrow> BackendService \<Rightarrow> string \<Rightarrow>
   string \<Rightarrow> 'b \<times> Server" where
  "NewServer V rpcAddr wsAddr rpcAddrSecure wsAddrSecure corsDomain certFile keyFile backend httpAPI wsAPI =
     (svc_New V, serverImpl rpcAddr wsAddr rpcAddrSecure wsAddrSecure corsDomain certFile keyFile backend httpAPI wsAPI)"

text \<open>\<open>filepath.Join\<close> is the parameter \<open>join\<close>.  The service is returned also with an error.\<close>

definition NewAndStartServer ::
  "'b BaseService \<Rightarrow> listen \<Rightarrow> register \<Rightarrow> (string \<Rightarrow> string \<Rightarrow> string) \<Rightarrow> int \<Rightarrow> BackendService \<Rightarrow> string \<Rightarrow>
   string \<Rightarrow> string \<Rightarrow> string \<Rightarrow> string \<Rightarrow> string \<Rightarrow> Net \<Rightarrow> goerr option \<times> 'b \<times> Server \<times> Net" where
  "NewAndStartServer V L R join now backend rootDir rpcAddr wsAddr rpcAddrSecure wsAddrSecure corsDomain n =
     (case NewServer V rpcAddr wsAddr rpcAddrSecure wsAddrSecure corsDomain (join rootDir ''nodeCfg/cert.pem'')
         (join rootDir ''nodeCfg/key.pem'') backend ''eth'' ''eth'' of
        (b, s) \<Rightarrow> svc_Start V (OnStart L R now) b s n)"

text \<open>The service as tendermint's BaseService has it, which can be started and stopped once.\<close>

datatype svcState = NotStarted | Started | Stopped

definition refService :: "svcState BaseService" where
  "refService =
     \<lparr>svc_New = NotStarted, svc_IsRunning = (\<lambda>b. b = Started),
      svc_Start = (\<lambda>onStart b s n. case b of
         NotStarted \<Rightarrow> (case onStart s n of (e, s, n) \<Rightarrow> (e, if e = None then Started else NotStarted, s, n))
       | Started \<Rightarrow> (Some (ErrorString ''already started''), b, s, n)
       | Stopped \<Rightarrow> (Some (ErrorString ''already stopped''), b, s, n)),
      svc_Stop = (\<lambda>onStop b s n. case b of
         NotStarted \<Rightarrow> (Some (ErrorString ''not started''), b, s, n)
       | Started \<Rightarrow> (case onStop s n of (s, n) \<Rightarrow> (None, Stopped, s, n))
       | Stopped \<Rightarrow> (Some (ErrorString ''already stopped''), b, s, n))\<rparr>"

interpretation refService: base_service refService
  by unfold_locales (auto simp: refService_def split: svcState.splits)

section \<open>Lemmas\<close>

lemma exists_member [simp]: "exists ss x \<longleftrightarrow> x \<in> set ss"
  by (induction ss) auto

lemma trimLoop_append: "trimLoop ret l = ret @ filter (\<lambda>r. r \<noteq> []) (map trimSpace l)"
  by (induction ret l rule: trimLoop.induct) (simp_all add: Let_def)

lemma splitAndTrim_eq: "splitAndTrim input = filter (\<lambda>r. r \<noteq> []) (map trimSpace (splitAt (CHR '','') input))"
  by (simp add: splitAndTrim_def trimLoop_append)

lemma splitAt_not_Nil: "splitAt c s \<noteq> []"
  by (induction s) (auto split: list.split)

text \<open>The listeners have distinct names below the next one.\<close>

definition netOk :: "Net \<Rightarrow> bool" where
  "netOk n \<longleftrightarrow> (\<forall>k \<in> fst ` set (net_open n) \<union> fst ` set (net_serving n). k < net_next n)"

text \<open>
  The server's listeners against the network before it started: \<open>opened s\<close> are the listeners it
  holds; whatever is open or served beyond the network \<open>n0\<close> is one of them.
\<close>

definition opened :: "Server \<Rightarrow> nat set" where
  "opened s = set_option (srv_httpListener s) \<union> set_option (srv_httpsListener s) \<union>
     set_option (srv_wsListener s) \<union> set_option (srv_wssListener s)"

definition owns :: "Net \<Rightarrow> nat set \<Rightarrow> Net \<Rightarrow> bool" where
  "owns n0 K n \<longleftrightarrow>
     net_next n0 \<le> net_next n \<and>
     (\<forall>k \<in> K. net_next n0 \<le> k) \<and>
     (\<exists>new. net_open n = net_open n0 @ new \<and> fst ` set new \<subseteq> K) \<and>
     (\<exists>new. net_serving n = net_serving n0 @ new \<and> fst ` set new \<subseteq> K)"

lemma owns_refl: "owns n {} n"
  by (simp add: owns_def)

lemma Listen_owns:
  assumes "Listen L a n = (l, e, n')" and "owns n0 K n"
  shows "owns n0 (K \<union> set_option l) n'"
proof (cases "L (net_open n) a")
  case None
  from assms(2) obtain new1 new2 where new: "net_open n = net_open n0 @ new1" "fst ` set new1 \<subseteq> K"
      "net_serving n = net_serving n0 @ new2" "fst ` set new2 \<subseteq> K" "net_next n0 \<le> net_next n" "\<forall>k \<in> K. net_next n0 \<le> k"
    by (auto simp: owns_def)
  from None assms(1) have "l = Some (net_next n)"
    "n' = n\<lparr>net_next := net_next n + 1, net_open := net_open n @ [(net_next n, a)]\<rparr>"
    by (auto simp: Listen_def)
  with new show ?thesis by (auto simp: owns_def)
next
  case Some
  with assms show ?thesis by (simp add: Listen_def)
qed

lemma serve_owns:
  assumes "owns n0 K n" and "set_option l \<subseteq> K"
  shows "owns n0 K (serve l t h n)"
proof (cases l)
  case (Some k)
  from assms(1) obtain new1 new2 where new: "net_open n = net_open n0 @ new1" "fst ` set new1 \<subseteq> K"
      "net_serving n = net_serving n0 @ new2" "fst ` set new2 \<subseteq> K" "net_next n0 \<le> net_next n" "\<forall>k \<in> K. net_next n0 \<le> k"
    by (auto simp: owns_def)
  with assms(2) Some show ?thesis by (auto simp: owns_def serve_def)
qed (use assms in \<open>simp add: serve_def\<close>)

lemma startHTTP_owns:
  assumes "startHTTPAndHTTPS L R apis s n = (e, s', n')" and "opened s = {}"
  shows "owns n (opened s') n' \<and> srv_wsListener s' = None \<and> srv_wssListener s' = None"
proof -
  from assms(2) have none: "srv_httpListener s = None" "srv_httpsListener s = None" "srv_wsListener s = None"
      "srv_wssListener s = None"
    by (auto simp: opened_def)
  obtain er rs where reg: "registerApis R \<lparr>rs_services = [], rs_running = True\<rparr> (srv_httpAPIs s) apis = (er, rs)" by fastforce
  obtain l1 e1 n1 where l1: "Listen L (srv_rpcAddr s) n = (l1, e1, n1)" by (metis prod_cases3)
  define h where "h = newCorsHandler (rs_services rs) (splitAt (CHR '','') (srv_corsDomain s))"
  obtain l2 e2 n2 where l2: "Listen L (srv_rpcHttpsAddr s) (serve l1 PlainTCP h n1) = (l2, e2, n2)" by (metis prod_cases3)
  from Listen_owns [OF l1 owns_refl] have o1: "owns n (set_option l1) n1" by simp
  then have o1s: "owns n (set_option l1) (serve l1 PlainTCP h n1)" by (rule serve_owns) simp
  from Listen_owns [OF l2 o1s] have o2: "owns n (set_option l1 \<union> set_option l2) n2" .
  then have o2s: "owns n (set_option l1 \<union> set_option l2) (serve l2 t h n2)" for t by (rule serve_owns) simp
  show ?thesis
    using assms(1) none reg l1 l2 o1 o1s o2 o2s owns_refl
    by (cases er; cases e1; cases "srv_rpcHttpsAddr s = ''off''"; cases e2)
      (auto simp: startHTTPAndHTTPS_def opened_def Let_def simp flip: h_def)
qed

lemma startWS_owns:
  assumes "startWSAndWSS L R apis s n = (e, s', n')" and "owns n0 (opened s) n"
    and "srv_wsListener s = None" and "srv_wssListener s = None"
  shows "owns n0 (opened s') n'"
proof -
  obtain er rs where reg: "registerApis R \<lparr>rs_services = [], rs_running = True\<rparr> (srv_wsAPIs s) apis = (er, rs)" by fastforce
  obtain l1 e1 n1 where l1: "Listen L (srv_wsAddr s) n = (l1, e1, n1)" by (metis prod_cases3)
  define h where "h = WebsocketHandler (splitAt (CHR '','') (srv_corsDomain s)) (rs_services rs)"
  obtain l2 e2 n2 where l2: "Listen L (srv_wssAddr s) (serve l1 PlainTCP h n1) = (l2, e2, n2)" by (metis prod_cases3)
  have o1: "owns n0 (opened s \<union> set_option l1) n1" by (rule Listen_owns [OF l1 assms(2)])
  then have o1s: "owns n0 (opened s \<union> set_option l1) (serve l1 PlainTCP h n1)" by (rule serve_owns) simp
  have o2: "owns n0 (opened s \<union> set_option l1 \<union> set_option l2) n2" by (rule Listen_owns [OF l2 o1s])
  then have o2s: "owns n0 (opened s \<union> set_option l1 \<union> set_option l2) (serve l2 t h n2)" for t by (rule serve_owns) simp
  show ?thesis
    using assms reg l1 l2 o1 o1s o2 o2s
    by (cases er; cases e1; cases "srv_wssAddr s = ''off''"; cases e2)
      (auto simp: startWSAndWSS_def opened_def Let_def simp flip: h_def)
qed

lemma OnStart_owns:
  assumes "OnStart L R now s n = (e, s', n')" and "opened s = {}"
  shows "owns n (opened s') n'"
proof -
  obtain e1 s1 n1 where h: "startHTTPAndHTTPS L R (GetAPIs now (srv_backend s)) s n = (e1, s1, n1)" by (metis prod_cases3)
  from startHTTP_owns [OF h assms(2)] have "owns n (opened s1) n1" "srv_wsListener s1 = None" "srv_wssListener s1 = None"
    by simp_all
  with startWS_owns [of L R _ s1 n1 e s' n' n] assms(1) h show ?thesis
    by (cases e1) (auto simp: OnStart_def Let_def)
qed

lemma closeListener_fields [simp]:
  "net_open (closeListener l n) = filter (\<lambda>p. fst p \<notin> set_option l) (net_open n)"
  "net_serving (closeListener l n) = filter (\<lambda>p. fst p \<notin> set_option l) (net_serving n)"
  by (cases l; simp add: closeListener_def case_prod_unfold eq_commute)+

lemma OnStop_closes:
  assumes "OnStop s n = (s', n')"
  shows "net_open n' = filter (\<lambda>p. fst p \<notin> opened s) (net_open n)"
    and "net_serving n' = filter (\<lambda>p. fst p \<notin> opened s) (net_serving n)"
    and "srv_httpServer s' = stopServer (srv_httpServer s)" and "srv_wsServer s' = stopServer (srv_wsServer s)"
  using assms by (auto simp: OnStop_def stopHTTP_def stopWS_def opened_def Let_def intro!: filter_cong)

text \<open>A successful \<open>Listen\<close> opens one more listener, on its address.\<close>

lemma Listen_Ok: "Listen L a n = (l, None, n') \<Longrightarrow>
    l = Some (net_next n) \<and> n' = n\<lparr>net_next := net_next n + 1, net_open := net_open n @ [(net_next n, a)]\<rparr>"
  by (auto simp: Listen_def split: option.splits)

lemma registerApis_eth:
  assumes "registerApis R \<lparr>rs_services = [], rs_running = True\<rparr> [''eth''] (GetAPIs now B) = (None, rs)"
  shows "rs_services rs = [(''eth'', EthService B), (''eth'', FilterService B (NewAPI now))]"
  using assms by (auto simp: GetAPIs_def split: option.splits)

lemma startHTTP_serves:
  assumes "startHTTPAndHTTPS L R (GetAPIs now B) s n = (None, s', n')" and "srv_httpAPIs s = [''eth'']"
  defines "h \<equiv> newCorsHandler [(''eth'', EthService B), (''eth'', FilterService B (NewAPI now))] (splitAt (CHR '','') (srv_corsDomain s))"
  shows "map snd (net_open n') = map snd (net_open n) @ [srv_rpcAddr s] @
      (if srv_rpcHttpsAddr s \<noteq> ''off'' then [srv_rpcHttpsAddr s] else []) \<and>
    map snd (net_serving n') = map snd (net_serving n) @ [(PlainTCP, h)] @
      (if srv_rpcHttpsAddr s \<noteq> ''off''
       then [(if srv_certFile s = [] then SelfSignedTLS else CertTLS (srv_certFile s) (srv_keyFile s), h)] else []) \<and>
    srv_wsAPIs s' = srv_wsAPIs s \<and> srv_corsDomain s' = srv_corsDomain s \<and> srv_wsAddr s' = srv_wsAddr s \<and>
    srv_wssAddr s' = srv_wssAddr s \<and> srv_certFile s' = srv_certFile s \<and> srv_keyFile s' = srv_keyFile s"
proof -
  obtain rs l1 n1 where reg: "registerApis R \<lparr>rs_services = [], rs_running = True\<rparr> [''eth''] (GetAPIs now B) = (None, rs)"
    and l1: "Listen L (srv_rpcAddr s) n = (l1, None, n1)"
    using assms(1,2) by (auto simp: startHTTPAndHTTPS_def Let_def split: prod.splits option.splits)
  note facts = Listen_Ok [OF l1] registerApis_eth [OF reg]
  obtain l2 e2 n2 where l2: "Listen L (srv_rpcHttpsAddr s) (serve l1 PlainTCP h n1) = (l2, e2, n2)" by (metis prod_cases3)
  show ?thesis
  proof (cases "srv_rpcHttpsAddr s = ''off''")
    case True
    with assms(1,2) reg l1 facts show ?thesis by (auto simp: startHTTPAndHTTPS_def serve_def h_def Let_def)
  next
    case False
    with assms(1,2) reg l1 l2 facts(2) have "e2 = None"
      by (auto simp: startHTTPAndHTTPS_def Let_def h_def split: option.splits)
    with l2 have l2': "Listen L (srv_rpcHttpsAddr s) (serve l1 PlainTCP h n1) = (l2, None, n2)" by simp
    from Listen_Ok [OF l2'] False assms(1,2) reg l1 l2' facts show ?thesis
      by (auto simp: startHTTPAndHTTPS_def serve_def h_def Let_def)
  qed
qed

lemma startWS_serves:
  assumes "startWSAndWSS L R (GetAPIs now B) s n = (None, s', n')" and "srv_wsAPIs s = [''eth'']"
  defines "h \<equiv> WebsocketHandler (splitAt (CHR '','') (srv_corsDomain s)) [(''eth'', EthService B), (''eth'', FilterService B (NewAPI now))]"
  shows "map snd (net_open n') = map snd (net_open n) @ [srv_wsAddr s] @
      (if srv_wssAddr s \<noteq> ''off'' then [srv_wssAddr s] else []) \<and>
    map snd (net_serving n') = map snd (net_serving n) @ [(PlainTCP, h)] @
      (if srv_wssAddr s \<noteq> ''off'' then [(CertTLS (srv_certFile s) (srv_keyFile s), h)] else [])"
proof -
  obtain rs l1 n1 where reg: "registerApis R \<lparr>rs_services = [], rs_running = True\<rparr> [''eth''] (GetAPIs now B) = (None, rs)"
    and l1: "Listen L (srv_wsAddr s) n = (l1, None, n1)"
    using assms(1,2) by (auto simp: startWSAndWSS_def Let_def split: prod.splits option.splits)
  note facts = Listen_Ok [OF l1] registerApis_eth [OF reg]
  obtain l2 e2 n2 where l2: "Listen L (srv_wssAddr s) (serve l1 PlainTCP h n1) = (l2, e2, n2)" by (metis prod_cases3)
  show ?thesis
  proof (cases "srv_wssAddr s = ''off''")
    case True
    with assms(1,2) reg l1 facts show ?thesis by (auto simp: startWSAndWSS_def serve_def h_def Let_def)
  next
    case False
    with assms(1,2) reg l1 l2 facts(2) have "e2 = None"
      by (auto simp: startWSAndWSS_def Let_def h_def split: option.splits)
    with l2 have l2': "Listen L (srv_wssAddr s) (serve l1 PlainTCP h n1) = (l2, None, n2)" by simp
    from Listen_Ok [OF l2'] False assms(1,2) reg l1 l2' facts show ?thesis
      by (auto simp: startWSAndWSS_def serve_def h_def Let_def)
  qed
qed

section \<open>Properties\<close>

text \<open>
  What a started server offers.  With the APIs \<open>eth\<close>, as the program starts it, a successful start
  listens on the HTTP and the websocket address, and on each secure address that is not \<open>off\<close>; on all
  of them both services answer, under the name \<open>eth\<close>, for the origins of the configuration.
\<close>

lemma server_serves:
  assumes "OnStart L R now (serverImpl rpcAddr wsAddr rpcS wsS corsDomain cert key B ''eth'' ''eth'') n = (None, s', n')"
  shows "map snd (net_open n') = map snd (net_open n) @ [rpcAddr] @ (if rpcS \<noteq> ''off'' then [rpcS] else []) @
      [wsAddr] @ (if wsS \<noteq> ''off'' then [wsS] else []) \<and>
    map snd (net_serving n') =
      (let services = [(''eth'', EthService B), (''eth'', FilterService B (NewAPI now))];
           origins = splitAt (CHR '','') corsDomain
       in map snd (net_serving n) @ [(PlainTCP, CorsHandler origins services)] @
          (if rpcS \<noteq> ''off'' then [(if cert = [] then SelfSignedTLS else CertTLS cert key, CorsHandler origins services)] else []) @
          [(PlainTCP, WebsocketHandler origins services)] @
          (if wsS \<noteq> ''off'' then [(CertTLS cert key, WebsocketHandler origins services)] else []))"
proof -
  let ?s = "serverImpl rpcAddr wsAddr rpcS wsS corsDomain cert key B ''eth'' ''eth''"
  obtain s1 n1 where h: "startHTTPAndHTTPS L R (GetAPIs now B) ?s n = (None, s1, n1)"
    and w: "startWSAndWSS L R (GetAPIs now B) s1 n1 = (None, s', n')"
    using assms by (auto simp: OnStart_def serverImpl_def Let_def split: prod.splits option.splits)
  have "srv_httpAPIs ?s = [''eth'']" "srv_wsAPIs ?s = [''eth'']" by code_simp+
  with startHTTP_serves [OF h] startWS_serves [OF w] show ?thesis
    by (simp add: serverImpl_def Let_def newCorsHandler_def splitAt_not_Nil)
qed

text \<open>What \<open>OnStart\<close> takes, as far as it comes, \<open>OnStop\<close> gives back.\<close>

lemma OnStart_OnStop:
  assumes "OnStart L R now s n = (e, s', n')" and "opened s = {}" and "OnStop s' n' = (s'', n'')" and "netOk n"
  shows "net_open n'' = net_open n \<and> net_serving n'' = net_serving n"
proof -
  have "owns n (opened s') n'" by (rule OnStart_owns [OF assms(1,2)])
  then obtain new1 new2 where new: "net_open n' = net_open n @ new1" "fst ` set new1 \<subseteq> opened s'"
      "net_serving n' = net_serving n @ new2" "fst ` set new2 \<subseteq> opened s'"
    and range: "\<forall>k \<in> opened s'. net_next n \<le> k"
    by (auto simp: owns_def)
  have old: "k \<notin> opened s'" if "k \<in> fst ` set (net_open n) \<union> fst ` set (net_serving n)" for k
    using that range assms(4) by (meson netOk_def not_le)
  have "filter (\<lambda>p. fst p \<notin> opened s') (net_open n) = net_open n"
    "filter (\<lambda>p. fst p \<notin> opened s') (net_serving n) = net_serving n"
    using old by simp_all
  moreover have "filter (\<lambda>p. fst p \<notin> opened s') new1 = []" "filter (\<lambda>p. fst p \<notin> opened s') new2 = []"
    using new by (auto simp: filter_empty_conv)
  ultimately show ?thesis using OnStop_closes [OF assms(3)] new by simp
qed

lemma NewAndStartServer_parts:
  assumes "base_service V"
    and "NewAndStartServer V L R join now backend rootDir rpcAddr wsAddr rpcS wsS cors n = (e, b, s', n')"
  shows "svc_IsRunning V b = (e = None)" and "OnStart L R now (serverImpl rpcAddr wsAddr rpcS wsS cors
    (join rootDir ''nodeCfg/cert.pem'') (join rootDir ''nodeCfg/key.pem'') backend ''eth'' ''eth'') n = (e, s', n')"
proof -
  let ?s = "serverImpl rpcAddr wsAddr rpcS wsS cors (join rootDir ''nodeCfg/cert.pem'') (join rootDir ''nodeCfg/key.pem'')
    backend ''eth'' ''eth''"
  obtain e1 s1 n1 where o: "OnStart L R now ?s n = (e1, s1, n1)" by (metis prod_cases3)
  from base_service.start_new [where onStart = "OnStart L R now", OF assms(1) o] assms(2) o
  show "svc_IsRunning V b = (e = None)" "OnStart L R now ?s n = (e, s', n')"
    by (auto simp: NewAndStartServer_def NewServer_def)
qed

lemma opened_new: "opened (serverImpl a1 a2 a3 a4 a5 a6 a7 B h w) = {}"
  by (simp add: serverImpl_def opened_def)

text \<open>
  C24: Stopping the server releases what starting it took.  The server is started with
  \<open>NewAndStartServer\<close> and stopped with \<open>Stop\<close> of the service around it.  If the start has
  succeeded, the stop succeeds, closes every listener the start has opened, ends what is served on
  them and stops both RPC servers, while listeners of others stay as they are.  If the start has
  failed, \<open>OnStop\<close> does not run: the stop is an error, and what the start had opened until
  then stays open.
\<close>

theorem server_stop_releases:
  assumes "base_service V"
    and "NewAndStartServer V L R join now backend rootDir rpcAddr wsAddr rpcS wsS cors n = (e, b, s', n')"
    and "svc_Stop V OnStop b s' n' = (e', b', s'', n'')" and "netOk n"
  shows "if e = None
    then e' = None \<and> net_open n'' = net_open n \<and> net_serving n'' = net_serving n \<and>
      (\<forall>rs. srv_httpServer s'' = Some rs \<or> srv_wsServer s'' = Some rs \<longrightarrow> \<not> rs_running rs)
    else e' \<noteq> None \<and> s'' = s' \<and> net_open n'' = net_open n' \<and> net_serving n'' = net_serving n'"
proof (cases "e = None")
  case True
  note run = NewAndStartServer_parts [OF assms(1,2)]
  obtain s1 n1 where o: "OnStop s' n' = (s1, n1)" by fastforce
  from base_service.stop_running [where onStop = OnStop and b = b, OF assms(1) _ o] run(1) True assms(3)
  have "e' = None" "s'' = s1" "n'' = n1" by auto
  with OnStart_OnStop [OF run(2) opened_new o assms(4)] OnStop_closes(3,4) [OF o] True show ?thesis
    by (auto simp: stopServer_def)
next
  case False
  with base_service.stop_idle [OF assms(1), of b OnStop s' n'] NewAndStartServer_parts(1) [OF assms(1,2)] assms(3)
  show ?thesis by auto
qed

section \<open>An example\<close>

definition exBackend :: BackendService where
  "exBackend = NewBackend ref_deps exSc exS exChain0"

definition exServer :: Server where
  "exServer = serverImpl '':8545'' '':8546'' '':9545'' ''off'' ''*'' ''nodeCfg/cert.pem'' ''nodeCfg/key.pem'' exBackend ''eth'' ''eth''"

text \<open>The server with these addresses, where the address \<open>a\<close> cannot be used.\<close>

definition inUse :: "string \<Rightarrow> listen" where
  "inUse a taken addr = (if addr = a then Some (ErrorString ''address already in use'') else None)"

abbreviation exStart :: "string \<Rightarrow> Net \<Rightarrow> goerr option \<times> svcState \<times> Server \<times> Net" where
  "exStart a \<equiv> NewAndStartServer refService (inUse a) (\<lambda>n s. None) (@) 0 exBackend [] '':8545'' '':8546'' '':9545'' ''off'' ''*''"

definition exNet :: Net where
  "exNet = \<lparr>net_next = 1, net_open = [(0, '':22'')], net_serving = []\<rparr>"

lemma exServer_apis: "srv_httpAPIs exServer = [''eth'']" "srv_wsAPIs exServer = [''eth'']"
  by code_simp+

lemma exServer_addrs:
  "srv_rpcAddr exServer = '':8545''" "srv_wsAddr exServer = '':8546''" "srv_rpcHttpsAddr exServer = '':9545''"
  "srv_wssAddr exServer = ''off''"
  by (simp_all add: exServer_def serverImpl_def)

lemma exStart_eq: "exStart a n = (case OnStart (inUse a) (\<lambda>n s. None) 0 exServer n of
    (e, s, n) \<Rightarrow> (e, if e = None then Started else NotStarted, s, n))"
  by (simp add: NewAndStartServer_def NewServer_def refService_def exServer_def split: prod.split)

lemma exServer_starts: "fst (exStart a exNet) =
    (if a \<in> {'':8545'', '':8546'', '':9545''} then Some (ErrorString ''address already in use'') else None)"
  by (auto simp: exStart_eq OnStart_def startHTTPAndHTTPS_def startWSAndWSS_def GetAPIs_def exServer_apis exServer_addrs Listen_def
      inUse_def serve_def Let_def)

lemma exNet_ok: "netOk exNet"
  by (simp add: netOk_def exNet_def)

lemma stop_not_started: "svc_Stop refService onStop NotStarted s n = (Some (ErrorString ''not started''), NotStarted, s, n)"
  by (simp add: refService_def)

text \<open>
  The listeners of a failed start: with the websocket address in use, the two HTTP listeners are open
  and served after the start has failed, and also after \<open>Stop\<close>.
\<close>

lemma failed_start_keeps_listeners:
  "\<exists>b s n e' b' s' n'. exStart '':8546'' exNet = (Some (ErrorString ''address already in use''), b, s, n) \<and>
     svc_Stop refService OnStop b s n = (Some e', b', s', n') \<and> map snd (net_open n') = ['':22'', '':8545'', '':9545'']"
  by (simp add: exStart_eq OnStart_def startHTTPAndHTTPS_def startWSAndWSS_def GetAPIs_def exServer_apis exServer_addrs Listen_def
      inUse_def serve_def Let_def stop_not_started exNet_def)

theorem server_stop_releases_witness:
  "\<exists>b s n e' b' s' n'. exStart '':1'' exNet = (None, b, s, n) \<and> svc_Stop refService OnStop b s n = (e', b', s', n') \<and>
     e' = None \<and> net_open n' = [(0, '':22'')]"
proof -
  obtain b s n where r: "exStart '':1'' exNet = (None, b, s, n)"
    using exServer_starts [of "'':1''"] by (cases "exStart '':1'' exNet") auto
  obtain e' b' s' n' where o: "svc_Stop refService OnStop b s n = (e', b', s', n')" by (metis prod_cases4)
  from server_stop_releases [OF refService.base_service_axioms r o exNet_ok] r o show ?thesis by (auto simp: exNet_def)
qed

end
