(* ===== verification/Program.thy ===== *)
theory Program
  imports Chain_Complete Rpc_Server "HOL-Library.AList"
begin

text \<open>
  cmd/chainlogs/main.go and the registry \<open>ChainLogs\<close> of chains/adapter.go: how the program is put
  together.  The theorems connect what the program runs, \<open>Start\<close> with its ticker loop, to the
  reachable states of \<open>Chain_Props\<close>, over any number of runs on the same database.  Logging and the
  parsing of the flags are not modelled.
\<close>

section \<open>The registry of chains\<close>

record 'c ChainLogs =
  cl_Config :: Config
  cl_Chains :: "(string \<times> 'c) list"

definition NewChainLogs :: "Config \<Rightarrow> 'c ChainLogs" where
  "NewChainLogs config = \<lparr>cl_Config = config, cl_Chains = []\<rparr>"

definition RegisterChain :: "string \<Rightarrow> 'c \<Rightarrow> 'c ChainLogs \<Rightarrow> 'c ChainLogs" where
  "RegisterChain chainName chain a = a\<lparr>cl_Chains := AList.update chainName chain (cl_Chains a)\<rparr>"

text \<open>How \<open>Run\<close> starts each chain: a single chain in the caller, several in goroutines of their own.\<close>

datatype 'c launch = Inline 'c | Goroutine 'c

definition Run :: "'c ChainLogs \<Rightarrow> 'c launch list" where
  "Run a = map (\<lambda>(name, c). if length (cl_Chains a) = 1 then Inline c else Goroutine c) (cl_Chains a)"

section \<open>Signals\<close>

datatype signal = SIGINT | SIGTERM

definition signalNumber :: "signal \<Rightarrow> int" where
  "signalNumber sig = (case sig of SIGINT \<Rightarrow> 2 | SIGTERM \<Rightarrow> 15)"

definition exitCode :: "signal \<Rightarrow> int" where
  "exitCode sig = 128 + signalNumber sig"

datatype shutdownStep = CloseStore string | StopServer | Exit int

text \<open>
  The cleanup function \<open>main\<close> passes to \<open>TrapSignal\<close>, and the exit; \<open>StopServer\<close> is \<open>svc_Stop\<close> of
  the service that holds the server.
\<close>

definition shutdown :: "'c ChainLogs \<Rightarrow> signal \<Rightarrow> shutdownStep list" where
  "shutdown a sig = map (\<lambda>(name, c). CloseStore name) (cl_Chains a) @ [StopServer, Exit (exitCode sig)]"

section \<open>Putting the program together\<close>

record mainFlags =
  m_bchClientInfo :: string
  m_dbPath :: string
  m_genesis :: int
  m_rpcAddr :: string
  m_wsAddr :: string
  m_rpcAddrSecure :: string
  m_wsAddrSecure :: string
  m_corsDomain :: string

definition bchConfig :: "mainFlags \<Rightarrow> ChainConfig" where
  "bchConfig f = NewBchChainConfig DefaultConfig [m_bchClientInfo f] (m_genesis f)"

text \<open>
  \<open>main\<close> up to \<open>a.Run()\<close>.  \<open>RC\<close> is \<open>rpcclient.New\<close>; \<open>B v\<close> is the backend that reads the chain \<open>v\<close>.
\<close>

definition setupProgram ::
  "(ConnConfig \<Rightarrow> goerr option) \<Rightarrow> 'b BaseService \<Rightarrow> listen \<Rightarrow> register \<Rightarrow> (string \<Rightarrow> string \<Rightarrow> string) \<Rightarrow> int \<Rightarrow>
   ((BchScanner, 'db) VirtualChain \<Rightarrow> BackendService) \<Rightarrow> mainFlags \<Rightarrow> 'db \<Rightarrow> Net \<Rightarrow>
   ((BchScanner, 'db) VirtualChain ChainLogs \<times> 'b \<times> Server \<times> Net) outcome" where
  "setupProgram RC V L R join now B f store n =
     (let cfg = DefaultConfig;
          bchChainConfig = NewBchChainConfig cfg [m_bchClientInfo f] (m_genesis f);
          cfg = RegisterChainConfig (cc_ChainName bchChainConfig) bchChainConfig cfg;
          a = NewChainLogs cfg
      in case NewRetryableClient RC (cc_ClientUrls bchChainConfig ! 0) 10 999 of
           Err e \<Rightarrow> Err e
         | Panic e \<Rightarrow> Panic e
         | Ok client \<Rightarrow>
           (case NewBchVirtualChain bchChainConfig store of
              None \<Rightarrow> Panic NilDereference
            | Some bchVirtualChain \<Rightarrow>
              (let a = RegisterChain (cc_ChainName bchChainConfig) bchVirtualChain a in
               case NewAndStartServer V L R join now (B bchVirtualChain) (m_dbPath f) (m_rpcAddr f) (m_wsAddr f)
                      (m_rpcAddrSecure f) (m_wsAddrSecure f) (m_corsDomain f) n of
                 (Some err, b, s, n) \<Rightarrow> Panic err
               | (None, b, s, n) \<Rightarrow> Ok (a, b, s, n))))"

text \<open>
  One run of the program on a database: the times and nodes of the rounds until it is stopped.
  \<open>run_wake\<close> gives the time of the first round after the initial sleep.
\<close>

record run =
  run_recovery :: int
  run_now :: int
  run_wake :: "int \<Rightarrow> int"
  run_first :: "BchScanner IScanner"
  run_ticks :: "(int \<times> BchScanner IScanner) list"

text \<open>What \<open>Run\<close> does with the chain of the program.\<close>

definition runProgram ::
  "deps \<Rightarrow> (ModbBlock \<Rightarrow> ChainEvent) \<Rightarrow> 'db IStore \<Rightarrow> mainFlags \<Rightarrow> run \<Rightarrow> 'db \<Rightarrow> (BchScanner, 'db) VirtualChain outcome" where
  "runProgram D E S f r store =
     (case NewBchVirtualChain (bchConfig f) store of
        None \<Rightarrow> Panic NilDereference
      | Some v \<Rightarrow> Start D E S (run_recovery r) (run_now r) (run_wake r) (run_first r) (run_ticks r) v)"

text \<open>Several runs, each on the database the one before has left.\<close>

fun runPrograms ::
  "deps \<Rightarrow> (ModbBlock \<Rightarrow> ChainEvent) \<Rightarrow> 'db IStore \<Rightarrow> mainFlags \<Rightarrow> run list \<Rightarrow> (BchScanner, 'db) VirtualChain \<Rightarrow>
   (BchScanner, 'db) VirtualChain outcome" where
  "runPrograms D E S f [] v = Ok v"
| "runPrograms D E S f (r # rs) v =
     (case runProgram D E S f r (vc_Store v) of
        Ok v' \<Rightarrow> runPrograms D E S f rs v'
      | Err e \<Rightarrow> Err e
      | Panic e \<Rightarrow> Panic e)"

section \<open>Lemmas\<close>

text \<open>What generating a block keeps, the ticker loop keeps.\<close>

lemma tickLoop_closed:
  assumes "tickLoop D E S k ticks v = Ok v'" and "P v" and "snd ` set ticks \<subseteq> Is"
    and gen: "\<And>I now scanBlock v v'. P v \<Longrightarrow> I \<in> Is \<Longrightarrow> GenerateNewBlock D E I S now scanBlock v = Ok v' \<Longrightarrow> P v'"
  shows "P v'"
  using assms(1-3)
proof (induction ticks arbitrary: k v)
  case (Cons tick ticks)
  obtain now I where tick: "tick = (now, I)" by fastforce
  obtain v1 where g: "GenerateNewBlock D E I S now ((k + 1) mod 12 = 0) v = Ok v1" and t: "tickLoop D E S (k + 1) ticks v1 = Ok v'"
    using Cons.prems(1) by (auto simp: tick Let_def split: outcome.splits)
  have "P v1" by (rule gen [OF Cons.prems(2) _ g]) (use Cons.prems(3) in \<open>simp add: tick\<close>)
  with Cons.IH [OF t] Cons.prems(3) show ?case by simp
qed simp

text \<open>A started chain has recovered, generated its first block with a scan, and then ticked.\<close>

lemma Start_parts:
  assumes "Start D E S rt now wake I ticks v = Ok v'"
  obtains v1 v2 where "RecoveryFromDB I S rt v = Ok v1" "GenerateNewBlock D E I S (wake (startSleep now v1)) True v1 = Ok v2"
    "tickLoop D E S 0 ticks v2 = Ok v'"
proof -
  from assms obtain v1 where v1: "RecoveryFromDB I S rt v = Ok v1"
    by (cases "RecoveryFromDB I S rt v") (simp_all add: Start_def)
  with assms have t: "\<not> now < vc_CurrentBlockTimestamp v1" by (auto simp: Start_def)
  with assms v1 obtain v2 where v2: "GenerateNewBlock D E I S (wake (startSleep now v1)) True v1 = Ok v2"
    by (cases "GenerateNewBlock D E I S (wake (startSleep now v1)) True v1") (simp_all add: Start_def)
  with assms v1 t have "tickLoop D E S 0 ticks v2 = Ok v'" by (simp add: Start_def)
  then show ?thesis by (rule that [OF v1 v2])
qed

lemma Start_closed:
  assumes "Start D E S rt now wake I ticks v = Ok v'" and "I \<in> Is" and "snd ` set ticks \<subseteq> Is"
    and recovered: "\<And>v1. RecoveryFromDB I S rt v = Ok v1 \<Longrightarrow> P v1"
    and gen: "\<And>I now scanBlock v v'. P v \<Longrightarrow> I \<in> Is \<Longrightarrow> GenerateNewBlock D E I S now scanBlock v = Ok v' \<Longrightarrow> P v'"
  shows "P v'"
proof (rule Start_parts [OF assms(1)])
  fix v1 v2
  assume r: "RecoveryFromDB I S rt v = Ok v1" and g: "GenerateNewBlock D E I S (wake (startSleep now v1)) True v1 = Ok v2"
    and t: "tickLoop D E S 0 ticks v2 = Ok v'"
  have "P v2" by (rule gen [OF recovered [OF r] assms(2) g])
  from t this assms(3) show ?thesis by (rule tickLoop_closed [where P = P]) (rule gen)
qed

lemma Start_reachable:
  assumes "Start D E S rt now wake I ticks v = Ok v'" and "I \<in> Is" and "snd ` set ticks \<subseteq> Is"
    and "\<And>v1. RecoveryFromDB I S rt v = Ok v1 \<Longrightarrow> reachable D E Is S v0 v1"
  shows "reachable D E Is S v0 v'"
  using assms(1-3) by (rule Start_closed [where P = "reachable D E Is S v0"]) (rule assms(4) reachable.generate, assumption+)+

text \<open>The configuration of a chain never changes.\<close>

definition sameConfig :: "('s, 'db) VirtualChain \<Rightarrow> ('s, 'db) VirtualChain \<Rightarrow> bool" where
  "sameConfig v w \<longleftrightarrow> vc_BlockInterval w = vc_BlockInterval v \<and> vc_ChainName w = vc_ChainName v \<and> vc_ChainID w = vc_ChainID v \<and>
     vc_GenesisMainChainBlockHeight w = vc_GenesisMainChainBlockHeight v"

lemma RecoveryFromDB_config: "RecoveryFromDB I S now v = Ok v' \<Longrightarrow> sameConfig v v'"
  by (auto simp: RecoveryFromDB_def sameConfig_def Let_def split: outcome.splits)

lemma GenerateNewBlock_config: "GenerateNewBlock D E I S now scanBlock v = Ok v' \<Longrightarrow> sameConfig v v'"
  by (erule GenerateNewBlock_cases) (simp_all add: sameConfig_def)

lemma reachable_config: "reachable D E Is S v0 v \<Longrightarrow> sameConfig v0 v"
proof (induction rule: reachable.induct)
  case (generate v I now scanBlock v')
  then show ?case using GenerateNewBlock_config [OF generate.hyps(3)] by (simp add: sameConfig_def)
next
  case (restart v I now s v')
  then show ?case using RecoveryFromDB_config [OF restart.hyps(3)] by (simp add: sameConfig_def forget_def)
qed (rule RecoveryFromDB_config)

text \<open>A new chain on the database of an old one is the old one with its memory lost.\<close>

lemma NewBchVirtualChain_forget:
  assumes "NewBchVirtualChain cfg db = Some v0" and "sameConfig v0 v"
  shows "NewBchVirtualChain cfg (vc_Store v) = Some (forget (NewBchScanner (cc_MaxTxsInBlock cfg)) v)"
  using assms by (auto simp: NewBchVirtualChain_def sameConfig_def forget_def split: if_splits)

lemma bchConfig_chain:
  obtains v0 where "NewBchVirtualChain (bchConfig f) db = Some v0" "vc_Store v0 = db"
    "vc_GenesisMainChainBlockHeight v0 = m_genesis f" "vc_ChainName v0 = ''virtual Bitcoin Cash''"
    "vc_ChainID v0 = convertChainNameToChainId ''virtual Bitcoin Cash''"
proof -
  have "cc_ClientUrls (bchConfig f) \<noteq> []" by (simp add: bchConfig_def NewBchChainConfig_def Let_def)
  then obtain v0 where "NewBchVirtualChain (bchConfig f) db = Some v0" by (simp add: NewBchVirtualChain_def)
  moreover from this have "vc_Store v0 = db" "vc_GenesisMainChainBlockHeight v0 = m_genesis f"
      "vc_ChainName v0 = ''virtual Bitcoin Cash''" "vc_ChainID v0 = convertChainNameToChainId ''virtual Bitcoin Cash''"
    by (auto simp: NewBchVirtualChain_def bchConfig_def NewBchChainConfig_def DefaultConfig_def Let_def)
  ultimately show ?thesis by (rule that)
qed

definition runOk :: "deps \<Rightarrow> run \<Rightarrow> bool" where
  "runOk D r \<longleftrightarrow> insert (run_first r) (snd ` set (run_ticks r)) \<subseteq> bchScanners D"

lemma runPrograms_reachable:
  assumes "runPrograms D E S f rs v = Ok v'" and "NewBchVirtualChain (bchConfig f) db = Some v0"
    and "list_all (runOk D) rs" and "reachable D E (bchScanners D) S v0 v"
  shows "reachable D E (bchScanners D) S v0 v'"
  using assms
proof (induction rs arbitrary: v)
  case (Cons r rs)
  then obtain v1 where v1: "runProgram D E S f r (vc_Store v) = Ok v1" and rest: "runPrograms D E S f rs v1 = Ok v'"
    by (auto split: outcome.splits)
  note v = NewBchVirtualChain_forget [OF Cons.prems(2) reachable_config [OF Cons.prems(4)]]
  have r: "run_first r \<in> bchScanners D" "snd ` set (run_ticks r) \<subseteq> bchScanners D" using Cons.prems(3) by (simp_all add: runOk_def)
  from v1 v have start: "Start D E S (run_recovery r) (run_now r) (run_wake r) (run_first r) (run_ticks r)
      (forget (NewBchScanner (cc_MaxTxsInBlock (bchConfig f))) v) = Ok v1"
    by (simp add: runProgram_def)
  have "reachable D E (bchScanners D) S v0 v1"
    by (rule Start_reachable [OF start r]) (rule reachable.restart [OF Cons.prems(4) r(1)])
  with Cons.IH [OF rest Cons.prems(2)] Cons.prems(3) show ?case by simp
qed simp

lemma runProgram_reachable:
  assumes "runProgram D E S f r db = Ok v" and "NewBchVirtualChain (bchConfig f) db = Some v0" and "runOk D r"
  shows "reachable D E (bchScanners D) S v0 v"
proof -
  have r: "run_first r \<in> bchScanners D" "snd ` set (run_ticks r) \<subseteq> bchScanners D" using assms(3) by (simp_all add: runOk_def)
  from assms(1,2) have start: "Start D E S (run_recovery r) (run_now r) (run_wake r) (run_first r) (run_ticks r) v0 = Ok v"
    by (simp add: runProgram_def)
  show ?thesis by (rule Start_reachable [OF start r]) (rule reachable.boot [OF r(1)])
qed

text \<open>
  The program makes a new scanner at every start, so that its runs are runs from an empty cache:
  what \<open>Chain_Complete\<close> shows of these holds of the program.
\<close>

definition runOn :: "deps \<Rightarrow> BchClient set \<Rightarrow> run \<Rightarrow> bool" where
  "runOn D Ns r \<longleftrightarrow> insert (run_first r) (snd ` set (run_ticks r)) \<subseteq> scannersOf D Ns"

lemma runProgram_Start:
  "NewBchVirtualChain (bchConfig f) db = Some v \<Longrightarrow> runProgram D E S f r db =
   Start D E S (run_recovery r) (run_now r) (run_wake r) (run_first r) (run_ticks r) v"
  by (simp add: runProgram_def)

lemma runProgram_fresh:
  assumes "runProgram D E S f r db = Ok v" and "NewBchVirtualChain (bchConfig f) db = Some v0" and "runOn D Ns r"
  shows "freshRun D E Ns S v0 v"
proof -
  have r: "run_first r \<in> scannersOf D Ns" "snd ` set (run_ticks r) \<subseteq> scannersOf D Ns" using assms(3) by (simp_all add: runOn_def)
  have "bs_knownTxCache (vc_Scanner v0) = {}" using assms(2) by (auto simp: NewBchVirtualChain_def split: if_splits)
  note boot = freshRun.boot [OF r(1) this]
  show ?thesis
    by (rule Start_closed [OF assms(1) [unfolded runProgram_Start [OF assms(2)]] r, where P = "freshRun D E Ns S v0"])
      (rule boot freshRun.generate, assumption+)+
qed

lemma runPrograms_fresh:
  assumes "runPrograms D E S f rs v = Ok v'" and "NewBchVirtualChain (bchConfig f) db = Some v0"
    and "list_all (runOn D Ns) rs" and "freshRun D E Ns S v0 v" and "\<forall>C \<in> Ns. nodeOk D C"
  shows "freshRun D E Ns S v0 v'"
  using assms
proof (induction rs arbitrary: v)
  case (Cons r rs)
  then obtain v1 where v1: "runProgram D E S f r (vc_Store v) = Ok v1" and rest: "runPrograms D E S f rs v1 = Ok v'"
    by (auto split: outcome.splits)
  note w = NewBchVirtualChain_forget [OF Cons.prems(2) reachable_config [OF freshRun_reachable [OF Cons.prems(4,5)]]]
  have r: "run_first r \<in> scannersOf D Ns" "snd ` set (run_ticks r) \<subseteq> scannersOf D Ns" using Cons.prems(3) by (simp_all add: runOn_def)
  have "freshRun D E Ns S v0 v1"
    by (rule Start_closed [OF v1 [unfolded runProgram_Start [OF w]] r, where P = "freshRun D E Ns S v0"])
      (rule freshRun.restart [OF Cons.prems(4) r(1)] freshRun.generate, assumption+)+
  with Cons.IH [OF rest Cons.prems(2)] Cons.prems(3,5) show ?case by simp
qed simp

text \<open>A started chain has at least one block.\<close>

lemma GenerateNewBlock_grows:
  assumes "GenerateNewBlock D E I (ChainLogDB D M) now scanBlock v = Ok v'" and "modb_lib M blocks"
  shows "length (blocks (vc_Store v)) \<le> length (blocks (vc_Store v'))" and "scanBlock \<Longrightarrow> blocks (vc_Store v') \<noteq> []"
proof -
  have add: "blocks (AddBlock M (Some b) db) = blocks db @ [b]" for b db
    using istore.add_block [OF chainlogdb_istore [OF assms(2)], of D] by simp
  from assms(1) show "length (blocks (vc_Store v)) \<le> length (blocks (vc_Store v'))"
    by (rule GenerateNewBlock_cases) (simp_all add: add)
  from assms(1) show "blocks (vc_Store v') \<noteq> []" if scanBlock
    by (rule GenerateNewBlock_cases) (use that in \<open>simp_all add: add\<close>)
qed

lemma tickLoop_grows:
  assumes "tickLoop D E (ChainLogDB D M) k ticks v = Ok v'" and "modb_lib M blocks"
  shows "length (blocks (vc_Store v)) \<le> length (blocks (vc_Store v'))"
  using assms(1)
proof (induction ticks arbitrary: k v)
  case (Cons tick ticks)
  obtain now I where tick: "tick = (now, I)" by fastforce
  obtain v1 where g: "GenerateNewBlock D E I (ChainLogDB D M) now ((k + 1) mod 12 = 0) v = Ok v1"
    using Cons.prems by (cases "GenerateNewBlock D E I (ChainLogDB D M) now ((k + 1) mod 12 = 0) v") (simp_all add: tick Let_def)
  with Cons.prems have "tickLoop D E (ChainLogDB D M) (k + 1) ticks v1 = Ok v'" by (simp add: tick Let_def)
  from Cons.IH [OF this] GenerateNewBlock_grows(1) [OF g assms(2)] show ?case by simp
qed simp

lemma Start_has_block:
  assumes "Start D E (ChainLogDB D M) rt now wake I ticks v = Ok v'" and "modb_lib M blocks"
  shows "blocks (vc_Store v') \<noteq> []"
proof (rule Start_parts [OF assms(1)])
  fix v1 v2
  assume g: "GenerateNewBlock D E I (ChainLogDB D M) (wake (startSleep now v1)) True v1 = Ok v2"
    and t: "tickLoop D E (ChainLogDB D M) 0 ticks v2 = Ok v'"
  from GenerateNewBlock_grows(2) [OF g assms(2)] tickLoop_grows [OF t assms(2)] show ?thesis by auto
qed

lemma runProgram_has_block:
  assumes "runProgram D E (ChainLogDB D M) f r db = Ok v" and "modb_lib M blocks"
  shows "blocks (vc_Store v) \<noteq> []"
proof -
  obtain w where "NewBchVirtualChain (bchConfig f) db = Some w" by (rule bchConfig_chain)
  with assms(1) have "Start D E (ChainLogDB D M) (run_recovery r) (run_now r) (run_wake r) (run_first r) (run_ticks r) w = Ok v"
    by (simp add: runProgram_def)
  then show ?thesis by (rule Start_has_block [OF _ assms(2)])
qed

lemma runPrograms_has_block:
  assumes "runPrograms D E (ChainLogDB D M) f rs v = Ok v'" and "modb_lib M blocks" and "blocks (vc_Store v) \<noteq> []"
  shows "blocks (vc_Store v') \<noteq> []"
  using assms(1,3)
proof (induction rs arbitrary: v)
  case (Cons r rs)
  then obtain v1 where v1: "runProgram D E (ChainLogDB D M) f r (vc_Store v) = Ok v1"
    and rest: "runPrograms D E (ChainLogDB D M) f rs v1 = Ok v'"
    by (auto split: outcome.splits)
  from Cons.IH [OF rest runProgram_has_block [OF v1 assms(2)]] show ?case .
qed simp

text \<open>
  After the setup, the registry holds the one chain the flags describe, which \<open>Run\<close> starts in the
  caller, and the server has started; the connection string must have three parts.
\<close>

lemma setupProgram_Ok:
  assumes "setupProgram RC V L R join now B f store n = Ok (a, b, s, n')"
  obtains v0 where "NewBchVirtualChain (bchConfig f) store = Some v0" "Run a = [Inline v0]"
    "NewAndStartServer V L R join now (B v0) (m_dbPath f) (m_rpcAddr f) (m_wsAddr f) (m_rpcAddrSecure f) (m_wsAddrSecure f)
       (m_corsDomain f) n = (None, b, s, n')"
    "length (splitAt (CHR '','') (m_bchClientInfo f)) = 3"
proof -
  obtain v0 where v0: "NewBchVirtualChain (bchConfig f) store = Some v0" by (rule bchConfig_chain)
  let ?server = "NewAndStartServer V L R join now (B v0) (m_dbPath f) (m_rpcAddr f) (m_wsAddr f) (m_rpcAddrSecure f) (m_wsAddrSecure f)
       (m_corsDomain f) n"
  have url: "cc_ClientUrls (bchConfig f) ! 0 = m_bchClientInfo f" by (simp add: bchConfig_def NewBchChainConfig_def Let_def)
  obtain client where client: "NewRetryableClient RC (m_bchClientInfo f) 10 999 = Ok client"
    using assms by (cases "NewRetryableClient RC (m_bchClientInfo f) 10 999")
      (simp_all add: setupProgram_def Let_def url flip: bchConfig_def)
  then have three: "length (splitAt (CHR '','') (m_bchClientInfo f)) = 3"
    by (auto simp: NewRetryableClient_def MakeMainChainClient_def Let_def split: outcome.splits if_splits)
  obtain e b1 s1 n1 where server: "?server = (e, b1, s1, n1)" by (metis prod_cases4)
  with assms client v0 show ?thesis
    by (cases e)
      (auto simp: setupProgram_def Let_def url RegisterChain_def NewChainLogs_def Run_def three simp flip: bchConfig_def intro!: that)
qed

lemma malformed_client_panics:
  "length (splitAt (CHR '','') (m_bchClientInfo f)) \<noteq> 3 \<Longrightarrow>
   setupProgram RC V L R join now B f store n = Panic (ErrorString ''invalid main chain client param'')"
  by (simp add: setupProgram_def NewBchChainConfig_def NewRetryableClient_def MakeMainChainClient_def Let_def)

lemma exitCode_values: "exitCode SIGINT = 130" "exitCode SIGTERM = 143"
  by (simp_all add: exitCode_def signalNumber_def)

section \<open>Properties\<close>

text \<open>
  C2: What the program does is what the state machine describes, from the first start on.  Run the
  program on an empty database and any number of times again on the database it has left, with
  nodes that answer consistently: every state it comes to is a reachable state of the chain
  configured by the flags, so that all theorems on reachable chains hold of it; its blocks are
  numbered from 1 to its height, and there is at least one.
\<close>

theorem program_runs_reachable:
  assumes "modb_lib M blocks" and "codec_lib D" and "blocks db = []" and "0 \<le> m_genesis f" and "is_i64 (m_genesis f)"
    and "list_all (runOk D) (r # rs)" and "runProgram D E (ChainLogDB D M) f r db = Ok v"
    and "runPrograms D E (ChainLogDB D M) f rs v = Ok v'"
  shows "\<exists>v0. NewBchVirtualChain (bchConfig f) db = Some v0 \<and> reachable D E (bchScanners D) (ChainLogDB D M) v0 v' \<and>
    vc_ChainName v' = ''virtual Bitcoin Cash'' \<and>
    map mblk_Height (blocks (vc_Store v')) = [1..vc_CurrentBlockHeight v'] \<and> 1 \<le> vc_CurrentBlockHeight v'"
proof -
  obtain v0 where v0: "NewBchVirtualChain (bchConfig f) db = Some v0" "vc_Store v0 = db"
      "vc_GenesisMainChainBlockHeight v0 = m_genesis f" "vc_ChainName v0 = ''virtual Bitcoin Cash''"
    by (rule bchConfig_chain)
  have first: "reachable D E (bchScanners D) (ChainLogDB D M) v0 v"
    by (rule runProgram_reachable [OF assms(7) v0(1)]) (use assms(6) in simp)
  then have reach: "reachable D E (bchScanners D) (ChainLogDB D M) v0 v'"
    by (rule runPrograms_reachable [OF assms(8) v0(1), rotated]) (use assms(6) in simp)
  have "blocks (vc_Store v') \<noteq> []"
    by (rule runPrograms_has_block [OF assms(8,1) runProgram_has_block [OF assms(7,1)]])
  moreover have "chainInv D blocks bs_LatestScanBlockHeight v'"
    using bch_reachable_chainInv [OF assms(1,2) reach] v0 assms(3-5) by simp
  ultimately show ?thesis
    using v0 reach reachable_config [OF reach]
    by (auto simp: chainInv_def blocksOk_def headOk_def sameConfig_def Suc_le_eq)
qed

section \<open>An example\<close>

text \<open>A node without blocks and transactions; every scan adds an empty block.\<close>

definition idleNode :: BchClient where
  "idleNode = \<lparr>GetRawMempool = Ok [], GetRawTransactionVerbose = (\<lambda>h. Err ErrTxNotFound), GetBlockCount = Ok 0,
     GetBlockHash = (\<lambda>n. Err ErrBlockNotFound), GetBlockVerboseTx = (\<lambda>h. Err ErrBlockNotFound)\<rparr>"

abbreviation idleSc :: "BchScanner IScanner" where
  "idleSc \<equiv> bchScanner ref_deps exPick idleNode"

lemma idleSc_in: "idleSc \<in> bchScanners ref_deps"
  by (rule bchScanner_in) (simp add: nodeOk_def idleNode_def is_i64_def)

lemma idle_GetNewTxs:
  "bs_LatestScanBlockHeight b = 0 \<Longrightarrow> sc_GetNewTxs idleSc isMined h hash scanBlock b = Ok ([], b)"
  by (cases b) (simp add: bchScanner_def GetNewTxs_def collectMainChainBlockTxs_def idleNode_def heightLoop.simps)

lemma idle_GenerateNewBlock:
  assumes "bs_LatestScanBlockHeight (vc_Scanner v) = 0"
  obtains v' where "GenerateNewBlock ref_deps exEvent idleSc exS now scanBlock v = Ok v'" "vc_Scanner v' = vc_Scanner v"
proof -
  have "d_MarshalBlock ref_deps e = Ok (enc_block e)" for e by (simp add: ref_deps_def)
  with idle_GetNewTxs [OF assms] that show ?thesis by (cases scanBlock) (simp_all add: GenerateNewBlock_def Let_def)
qed

definition exFlags :: mainFlags where
  "exFlags = \<lparr>m_bchClientInfo = ''node:8332,user,pass'', m_dbPath = ''db'', m_genesis = 0, m_rpcAddr = ''tcp://:8545'',
     m_wsAddr = ''tcp://:8546'', m_rpcAddrSecure = ''off'', m_wsAddrSecure = ''off'', m_corsDomain = ''*''\<rparr>"

definition exRun :: run where
  "exRun = \<lparr>run_recovery = 100, run_now = 100, run_wake = (\<lambda>s. 100 + s), run_first = idleSc, run_ticks = [(110, idleSc)]\<rparr>"

lemma exRun_ok: "runOk ref_deps exRun"
  using idleSc_in by (simp add: runOk_def exRun_def)

lemma exRun_runs: "\<exists>v. runProgram ref_deps exEvent exS exFlags exRun [] = Ok v"
proof -
  obtain v0 where v0: "NewBchVirtualChain (bchConfig exFlags) ([] :: ModbBlock list) = Some v0" "vc_Store v0 = []"
      "vc_GenesisMainChainBlockHeight v0 = m_genesis exFlags"
    by (rule bchConfig_chain)
  have "GetLatestBlockInfo ref_deps listModb 100 [] = Ok (0, 100, zeros 32, 0)"
    using istore.latest_none [OF chainlogdb_istore [OF listModb.modb_lib_axioms], of "[]"] by simp
  then obtain v1 where v1: "RecoveryFromDB idleSc exS 100 v0 = Ok v1" "bs_LatestScanBlockHeight (vc_Scanner v1) = 0"
      "vc_CurrentBlockTimestamp v1 = 100"
    using v0(2,3) by (simp add: RecoveryFromDB_def bchScanner_def SetLatestScanHeight_def exFlags_def)
  obtain v2 where v2: "GenerateNewBlock ref_deps exEvent idleSc exS (100 + startSleep 100 v1) True v1 = Ok v2"
      "vc_Scanner v2 = vc_Scanner v1"
    by (rule idle_GenerateNewBlock [OF v1(2)])
  obtain v3 where "GenerateNewBlock ref_deps exEvent idleSc exS 110 (Suc 0 mod 12 = 0) v2 = Ok v3"
    by (rule idle_GenerateNewBlock [of v2 110 "Suc 0 mod 12 = 0"]) (simp_all add: v1 v2)
  with v0(1) v1 v2 show ?thesis
    by (simp add: runProgram_def Start_def exRun_def)
qed

theorem program_runs_reachable_witness:
  "\<exists>v. runProgram ref_deps exEvent exS exFlags exRun [] = Ok v \<and> map mblk_Height (vc_Store v) = [1..vc_CurrentBlockHeight v] \<and>
     1 \<le> vc_CurrentBlockHeight v"
proof -
  obtain v where v: "runProgram ref_deps exEvent exS exFlags exRun [] = Ok v" using exRun_runs by blast
  have "0 \<le> m_genesis exFlags" "is_i64 (m_genesis exFlags)" by (simp_all add: exFlags_def is_i64_def)
  from program_runs_reachable [OF listModb.modb_lib_axioms ref_codec.codec_lib_axioms _ this, of "[]" exRun "[]" exEvent v v] v exRun_ok
  show ?thesis by auto
qed

end
