(* ===== verification/Lifecycle.thy ===== *)
theory Lifecycle
  imports Program
begin

text \<open>
  Opening and closing: the database of \<open>store/store.go\<close>, the subscriptions and \<open>Stop\<close> of
  \<open>chains/adapter.go\<close>, the subscriptions of \<open>api/backend.go\<close>, and the end of the event loop of
  \<open>geth_filter_system.go\<close>.  Files, feeds, scopes and tickers belong to libraries: they are parameters,
  and the locale \<open>event_lib\<close> states what the documentation of \<open>go-ethereum/event\<close> promises.  The lemmas
  show that \<open>Stop\<close> ends the loop of every event system that is subscribed to the chain, leaves the chain
  as it is, and lets no further event system start.
\<close>

section \<open>The database\<close>

text \<open>The functions of \<open>moeingdb\<close> and \<open>os\<close> that open and close; \<open>'fs\<close> is the file system.\<close>

record ('fs, 'db) modb_files =
  mf_Exists :: "'fs \<Rightarrow> string \<Rightarrow> bool"
  mf_MkdirAll :: "string \<Rightarrow> 'fs \<Rightarrow> 'fs"
  mf_CreateEmptyMoDB :: "string \<Rightarrow> bytes \<Rightarrow> 'fs \<Rightarrow> 'db \<times> 'fs"
  mf_NewMoDB :: "string \<Rightarrow> 'fs \<Rightarrow> 'db \<times> 'fs"
  mf_SetMaxEntryCount :: "int \<Rightarrow> 'db \<Rightarrow> 'db"
  mf_Close :: "'db \<Rightarrow> 'db"

text \<open>\<open>binary.LittleEndian.PutUint64\<close>.\<close>

definition le_bytes8 :: "int \<Rightarrow> bytes" where
  "le_bytes8 n = rev (be_bytes 8 (as_u64 n))"

definition NewChainLogDB :: "('fs, 'db) modb_files \<Rightarrow> (string \<Rightarrow> string \<Rightarrow> string) \<Rightarrow> int \<Rightarrow> string \<Rightarrow> int \<Rightarrow> 'fs \<Rightarrow> 'db \<times> 'fs" where
  "NewChainLogDB F join nowNano dataPath maxLogResults fs =
     (let (db, fs) =
        (if \<not> mf_Exists F fs dataPath then
           (let fs = mf_MkdirAll F (join dataPath ''data'') fs;
                seed = le_bytes8 nowNano
            in mf_CreateEmptyMoDB F dataPath seed fs)
         else mf_NewMoDB F dataPath fs)
      in (mf_SetMaxEntryCount F maxLogResults db, fs))"

definition Close :: "('fs, 'db) modb_files \<Rightarrow> 'db \<Rightarrow> 'db" where
  "Close F db = mf_Close F db"

lemma length_le_bytes8: "length (le_bytes8 n) = 8"
  by (simp add: le_bytes8_def)

text \<open>
  The first run creates the database, every later run opens it: a directory that \<open>MkdirAll\<close> and
  \<open>CreateEmptyMoDB\<close> made is found by the next start.
\<close>

lemma NewChainLogDB_reopens:
  assumes made: "\<And>seed fs. mf_Exists F (snd (mf_CreateEmptyMoDB F p seed (mf_MkdirAll F (join p ''data'') fs))) p"
    and kept: "\<And>fs. mf_Exists F fs p \<Longrightarrow> mf_Exists F (snd (mf_NewMoDB F p fs)) p"
  shows "NewChainLogDB F join t' p m' (snd (NewChainLogDB F join t p m fs)) =
    (let (db, fs') = mf_NewMoDB F p (snd (NewChainLogDB F join t p m fs)) in (mf_SetMaxEntryCount F m' db, fs'))"
proof -
  have "mf_Exists F (snd (NewChainLogDB F join t p m fs)) p"
    using made [of "le_bytes8 t" fs] kept [of fs] by (auto simp: NewChainLogDB_def Let_def split: prod.splits)
  then show ?thesis by (simp add: NewChainLogDB_def [of F join t'])
qed

section \<open>Subscriptions\<close>

text \<open>
  Feeds, subscriptions, scopes and tickers.  They are objects of a library that the program reaches
  through pointers: \<open>'w\<close> is the state of all of them and the other types are the pointers.  \<open>Track\<close> may
  return nil; \<open>sub_Ended\<close> tells whether the error channel of a subscription is closed.
\<close>

record ('w, 'f, 'sub, 'scope, 'tick, 'ch) event_ops =
  feed_Subscribe :: "'f \<Rightarrow> 'ch \<Rightarrow> 'w \<Rightarrow> 'sub \<times> 'w"
  scope_Track :: "'scope \<Rightarrow> 'sub \<Rightarrow> 'w \<Rightarrow> 'sub option \<times> 'w"
  scope_Close :: "'scope \<Rightarrow> 'w \<Rightarrow> 'w"
  sub_Unsubscribe :: "'sub \<Rightarrow> 'w \<Rightarrow> 'w"
  sub_Ended :: "'w \<Rightarrow> 'sub \<Rightarrow> bool"
  ticker_Stop :: "'tick \<Rightarrow> 'w \<Rightarrow> 'w"

text \<open>
  A chain with the feeds, the scope and the ticker of the running program; the ticker is nil until
  \<open>Start\<close> has made it.
\<close>

record ('s, 'db, 'f, 'scope, 'tick) LiveChain = "('s, 'db) VirtualChain" +
  lc_chainFeed :: 'f
  lc_logsFeed :: 'f
  lc_scope :: 'scope
  lc_ticker :: "'tick option"

definition SubscribeChainEvent ::
  "('w, 'f, 'sub, 'scope, 'tick, 'ch) event_ops \<Rightarrow> ('s, 'db, 'f, 'scope, 'tick) LiveChain \<Rightarrow> 'ch \<Rightarrow> 'w \<Rightarrow> 'sub option \<times> 'w" where
  "SubscribeChainEvent L v ch w =
     (let (sub, w) = feed_Subscribe L (lc_chainFeed v) ch w in scope_Track L (lc_scope v) sub w)"

definition SubscribeLogsEvent ::
  "('w, 'f, 'sub, 'scope, 'tick, 'ch) event_ops \<Rightarrow> ('s, 'db, 'f, 'scope, 'tick) LiveChain \<Rightarrow> 'ch \<Rightarrow> 'w \<Rightarrow> 'sub option \<times> 'w" where
  "SubscribeLogsEvent L v ch w =
     (let (sub, w) = feed_Subscribe L (lc_logsFeed v) ch w in scope_Track L (lc_scope v) sub w)"

text \<open>\<open>Stop\<close> closes the scope first; a chain that was never started has no ticker to stop.\<close>

definition Stop ::
  "('w, 'f, 'sub, 'scope, 'tick, 'ch) event_ops \<Rightarrow> ('s, 'db, 'f, 'scope, 'tick) LiveChain \<Rightarrow> 'w \<Rightarrow> 'w outcome" where
  "Stop L v w =
     (let w = scope_Close L (lc_scope v) w
      in case lc_ticker v of
           None \<Rightarrow> Panic NilDereference
         | Some t \<Rightarrow> Ok (ticker_Stop L t w))"

text \<open>The backend with its own two feeds, which nothing sends to and no scope tracks.\<close>

record ('s, 'db, 'f, 'scope, 'tick) apiBackend =
  ab_vc :: "('s, 'db, 'f, 'scope, 'tick) LiveChain"
  ab_txFeed :: 'f
  ab_rmLogsFeed :: 'f

definition backendSubscribeChainEvent ::
  "('w, 'f, 'sub, 'scope, 'tick, 'ch) event_ops \<Rightarrow> ('s, 'db, 'f, 'scope, 'tick) apiBackend \<Rightarrow> 'ch \<Rightarrow> 'w \<Rightarrow> 'sub option \<times> 'w" where
  "backendSubscribeChainEvent L b ch w = SubscribeChainEvent L (ab_vc b) ch w"

definition backendSubscribeLogsEvent ::
  "('w, 'f, 'sub, 'scope, 'tick, 'ch) event_ops \<Rightarrow> ('s, 'db, 'f, 'scope, 'tick) apiBackend \<Rightarrow> 'ch \<Rightarrow> 'w \<Rightarrow> 'sub option \<times> 'w" where
  "backendSubscribeLogsEvent L b ch w = SubscribeLogsEvent L (ab_vc b) ch w"

definition SubscribeNewTxsEvent ::
  "('w, 'f, 'sub, 'scope, 'tick, 'ch) event_ops \<Rightarrow> ('s, 'db, 'f, 'scope, 'tick) apiBackend \<Rightarrow> 'ch \<Rightarrow> 'w \<Rightarrow> 'sub option \<times> 'w" where
  "SubscribeNewTxsEvent L b ch w = (let (sub, w) = feed_Subscribe L (ab_txFeed b) ch w in (Some sub, w))"

definition SubscribeRemovedLogsEvent ::
  "('w, 'f, 'sub, 'scope, 'tick, 'ch) event_ops \<Rightarrow> ('s, 'db, 'f, 'scope, 'tick) apiBackend \<Rightarrow> 'ch \<Rightarrow> 'w \<Rightarrow> 'sub option \<times> 'w" where
  "SubscribeRemovedLogsEvent L b ch w = (let (sub, w) = feed_Subscribe L (ab_rmLogsFeed b) ch w in (Some sub, w))"

text \<open>
  The four subscriptions of \<open>NewEventSystem\<close>, in its order, and the check that none is nil, which ends
  the process (\<open>None\<close>) when it fails.
\<close>

record 'sub eventSubs =
  es_txsSub :: 'sub
  es_logsSub :: 'sub
  es_rmLogsSub :: 'sub
  es_chainSub :: 'sub

record 'ch eventChans =
  ec_txsCh :: 'ch
  ec_logsCh :: 'ch
  ec_rmLogsCh :: 'ch
  ec_chainCh :: 'ch

definition subscribeEvents ::
  "('w, 'f, 'sub, 'scope, 'tick, 'ch) event_ops \<Rightarrow> ('s, 'db, 'f, 'scope, 'tick) apiBackend \<Rightarrow> 'ch eventChans \<Rightarrow> 'w \<Rightarrow>
   'sub eventSubs option \<times> 'w" where
  "subscribeEvents L b m w =
     (let (txsSub, w) = SubscribeNewTxsEvent L b (ec_txsCh m) w;
          (logsSub, w) = backendSubscribeLogsEvent L b (ec_logsCh m) w;
          (rmLogsSub, w) = SubscribeRemovedLogsEvent L b (ec_rmLogsCh m) w;
          (chainSub, w) = backendSubscribeChainEvent L b (ec_chainCh m) w
      in (Option.bind txsSub (\<lambda>t. Option.bind logsSub (\<lambda>l. Option.bind rmLogsSub (\<lambda>u. Option.bind chainSub (\<lambda>c.
            Some \<lparr>es_txsSub = t, es_logsSub = l, es_rmLogsSub = u, es_chainSub = c\<rparr>)))), w))"

text \<open>The event loop can return when one of its subscriptions has ended; then it unsubscribes all four.\<close>

definition loopReturns :: "('w, 'f, 'sub, 'scope, 'tick, 'ch) event_ops \<Rightarrow> 'sub eventSubs \<Rightarrow> 'w \<Rightarrow> bool" where
  "loopReturns L es w \<longleftrightarrow>
     sub_Ended L w (es_txsSub es) \<or> sub_Ended L w (es_logsSub es) \<or>
     sub_Ended L w (es_rmLogsSub es) \<or> sub_Ended L w (es_chainSub es)"

definition loopCleanup :: "('w, 'f, 'sub, 'scope, 'tick, 'ch) event_ops \<Rightarrow> 'sub eventSubs \<Rightarrow> 'w \<Rightarrow> 'w" where
  "loopCleanup L es w =
     sub_Unsubscribe L (es_chainSub es) (sub_Unsubscribe L (es_rmLogsSub es)
       (sub_Unsubscribe L (es_logsSub es) (sub_Unsubscribe L (es_txsSub es) w)))"

section \<open>What the library promises\<close>

text \<open>
  \<open>go-ethereum/event\<close>: \<open>Track\<close> adds to an open scope and returns nil on a closed one; \<open>Close\<close> calls
  \<open>Unsubscribe\<close> on all tracked subscriptions and prevents further additions; \<open>Unsubscribe\<close> closes the
  error channel, which is never opened again.
\<close>

locale event_lib =
  fixes L :: "('w, 'f, 'sub, 'scope, 'tick, 'ch) event_ops"
    and isOpen :: "'w \<Rightarrow> 'scope \<Rightarrow> bool"
    and tracked :: "'w \<Rightarrow> 'scope \<Rightarrow> 'sub \<Rightarrow> bool"
  assumes subscribe: "feed_Subscribe L f ch w = (s, w') \<Longrightarrow>
      isOpen w' = isOpen w \<and> tracked w' = tracked w"
    and track_open: "isOpen w sc \<Longrightarrow> \<exists>x w'. scope_Track L sc s w = (Some x, w') \<and> tracked w' sc x"
    and track_closed: "\<not> isOpen w sc \<Longrightarrow> fst (scope_Track L sc s w) = None"
    and track_keeps: "scope_Track L sc s w = (r, w') \<Longrightarrow> isOpen w' = isOpen w"
      "scope_Track L sc s w = (r, w') \<Longrightarrow> tracked w sc' y \<Longrightarrow> tracked w' sc' y"
    and close: "\<not> isOpen (scope_Close L sc w) sc"
      "tracked w sc x \<Longrightarrow> sub_Ended L (scope_Close L sc w) x"
    and unsubscribe: "sub_Ended L (sub_Unsubscribe L x w) x"
      "sub_Ended L w y \<Longrightarrow> sub_Ended L (sub_Unsubscribe L x w) y"
    and ended_kept: "feed_Subscribe L f ch w = (s, w') \<Longrightarrow> sub_Ended L w y \<Longrightarrow> sub_Ended L w' y"
      "scope_Track L sc s w = (r, w') \<Longrightarrow> sub_Ended L w y \<Longrightarrow> sub_Ended L w' y"
      "sub_Ended L w y \<Longrightarrow> sub_Ended L (scope_Close L sc w) y"
    and ticker: "isOpen (ticker_Stop L t w) = isOpen w"
      "sub_Ended L (ticker_Stop L t w) = sub_Ended L w"
begin

lemma subscribe_tracked:
  assumes "(let (s, w) = feed_Subscribe L f ch w in scope_Track L sc0 s w) = (r, w')"
  shows "isOpen w' = isOpen w" "tracked w sc y \<Longrightarrow> tracked w' sc y"
    "if isOpen w sc0 then \<exists>x. r = Some x \<and> tracked w' sc0 x else r = None"
proof -
  obtain s w1 where s: "feed_Subscribe L f ch w = (s, w1)" by (meson surj_pair)
  with assms have t: "scope_Track L sc0 s w1 = (r, w')" by simp
  note same = subscribe [OF s]
  show "isOpen w' = isOpen w" using track_keeps(1) [OF t] same by simp
  show "tracked w' sc y" if "tracked w sc y" using track_keeps(2) [OF t] same that by simp
  show "if isOpen w sc0 then \<exists>x. r = Some x \<and> tracked w' sc0 x else r = None"
    using track_open [of w1 sc0 s] track_closed [of w1 sc0 s] t same by auto
qed

lemmas subscribe_logs = subscribe_tracked [OF trans [OF SubscribeLogsEvent_def [symmetric]]]
lemmas subscribe_chain = subscribe_tracked [OF trans [OF SubscribeChainEvent_def [symmetric]]]

lemma subscribe_own:
  assumes "SubscribeNewTxsEvent L b ch w = (r, w') \<or> SubscribeRemovedLogsEvent L b ch w = (r, w')"
  shows "isOpen w' = isOpen w" "tracked w' = tracked w" "r \<noteq> None"
  using assms by (auto simp: SubscribeNewTxsEvent_def SubscribeRemovedLogsEvent_def split: prod.splits dest: subscribe)

text \<open>An event system starts exactly when the scope is open, and then its chain subscriptions are tracked.\<close>

lemma subscribeEvents_outcome:
  assumes "subscribeEvents L b m w = (r, w')"
  shows "isOpen w' = isOpen w" "tracked w sc y \<Longrightarrow> tracked w' sc y"
    "if isOpen w (lc_scope (ab_vc b)) then
       \<exists>es. r = Some es \<and> tracked w' (lc_scope (ab_vc b)) (es_logsSub es) \<and> tracked w' (lc_scope (ab_vc b)) (es_chainSub es)
     else r = None"
proof -
  obtain t w1 where 1: "SubscribeNewTxsEvent L b (ec_txsCh m) w = (t, w1)" by (meson surj_pair)
  obtain l w2 where 2: "SubscribeLogsEvent L (ab_vc b) (ec_logsCh m) w1 = (l, w2)" by (meson surj_pair)
  obtain u w3 where 3: "SubscribeRemovedLogsEvent L b (ec_rmLogsCh m) w2 = (u, w3)" by (meson surj_pair)
  obtain c w4 where 4: "SubscribeChainEvent L (ab_vc b) (ec_chainCh m) w3 = (c, w4)" by (meson surj_pair)
  note own1 = subscribe_own [OF disjI1, OF 1] and own3 = subscribe_own [OF disjI2, OF 3]
  note two = subscribe_logs [OF 2] and four = subscribe_chain [OF 4]
  have r: "w' = w4" "r = Option.bind t (\<lambda>t. Option.bind l (\<lambda>l. Option.bind u (\<lambda>u. Option.bind c (\<lambda>c.
        Some \<lparr>es_txsSub = t, es_logsSub = l, es_rmLogsSub = u, es_chainSub = c\<rparr>))))"
    using assms 1 2 3 4
    by (simp_all add: subscribeEvents_def backendSubscribeLogsEvent_def backendSubscribeChainEvent_def)
  show "isOpen w' = isOpen w" using own1(1) own3(1) two(1) four(1) r(1) by simp
  show "tracked w' sc y" if "tracked w sc y"
    using that own1(2) own3(2) two(2) four(2) r(1) by simp
  show "if isOpen w (lc_scope (ab_vc b)) then
       \<exists>es. r = Some es \<and> tracked w' (lc_scope (ab_vc b)) (es_logsSub es) \<and> tracked w' (lc_scope (ab_vc b)) (es_chainSub es)
     else r = None"
    using own1 own3 two four r by (auto split: if_splits)
qed

text \<open>Later event systems leave the subscriptions of the earlier ones tracked.\<close>

lemma tracked_kept:
  "tracked w sc y \<Longrightarrow> tracked (fold (\<lambda>(b, m) w. snd (subscribeEvents L b m w)) later w) sc y"
proof (induction later arbitrary: w)
  case (Cons bm later)
  obtain b m where bm: "bm = (b, m)" by (cases bm)
  have "tracked (snd (subscribeEvents L b m w)) sc y"
    using subscribeEvents_outcome(2) [OF prod.collapse [symmetric] Cons.prems] .
  then show ?case using Cons.IH bm by simp
qed simp

theorem stop_ends_loops:
  assumes started: "subscribeEvents L b m w = (Some es, w1)"
    and later: "w2 = fold (\<lambda>(b, m) w. snd (subscribeEvents L b m w)) later w1"
    and stop: "Stop L (ab_vc b) w2 = Ok w3"
  shows "loopReturns L es w3" "fst (subscribeEvents L b m' w3) = None"
    "list_all (sub_Ended L (loopCleanup L es w3)) [es_txsSub es, es_logsSub es, es_rmLogsSub es, es_chainSub es]"
proof -
  from stop obtain t where t: "w3 = ticker_Stop L t (scope_Close L (lc_scope (ab_vc b)) w2)"
    by (auto simp: Stop_def split: option.splits)
  have "tracked w1 (lc_scope (ab_vc b)) (es_logsSub es)"
    using subscribeEvents_outcome(3) [OF started] by (auto split: if_splits)
  then have "sub_Ended L w3 (es_logsSub es)" using tracked_kept close(2) ticker(2) later t by metis
  then show "loopReturns L es w3" by (simp add: loopReturns_def)
  have "\<not> isOpen w3 (lc_scope (ab_vc b))" using close(1) ticker(1) t by simp
  then show "fst (subscribeEvents L b m' w3) = None"
    using subscribeEvents_outcome(3) [OF prod.collapse [symmetric], where w = w3 and b = b] by simp
  show "list_all (sub_Ended L (loopCleanup L es w3)) [es_txsSub es, es_logsSub es, es_rmLogsSub es, es_chainSub es]"
    by (simp add: loopCleanup_def unsubscribe)
qed

end

section \<open>An event library\<close>

text \<open>
  A library that keeps the laws: pointers are numbers, and the state is the number of the next
  subscription with the lists of ended subscriptions, closed scopes and tracked pairs.
\<close>

record eventWorld =
  ew_next :: nat
  ew_ended :: "nat list"
  ew_closed :: "nat list"
  ew_tracked :: "(nat \<times> nat) list"

definition listEvents :: "(eventWorld, nat, nat, nat, nat, nat) event_ops" where
  "listEvents = \<lparr>
     feed_Subscribe = (\<lambda>f ch w. (ew_next w, w\<lparr>ew_next := Suc (ew_next w)\<rparr>)),
     scope_Track = (\<lambda>sc s w. if sc \<in> set (ew_closed w) then (None, w) else (Some s, w\<lparr>ew_tracked := (sc, s) # ew_tracked w\<rparr>)),
     scope_Close = (\<lambda>sc w. w\<lparr>ew_closed := sc # ew_closed w,
       ew_ended := map snd (filter (\<lambda>p. fst p = sc) (ew_tracked w)) @ ew_ended w,
       ew_tracked := filter (\<lambda>(sc', s). sc' \<noteq> sc) (ew_tracked w)\<rparr>),
     sub_Unsubscribe = (\<lambda>s w. w\<lparr>ew_ended := s # ew_ended w, ew_tracked := filter (\<lambda>(sc, s'). s' \<noteq> s) (ew_tracked w)\<rparr>),
     sub_Ended = (\<lambda>w s. s \<in> set (ew_ended w)),
     ticker_Stop = (\<lambda>t w. w)\<rparr>"

interpretation list_events: event_lib listEvents "\<lambda>w sc. sc \<notin> set (ew_closed w)" "\<lambda>w sc s. (sc, s) \<in> set (ew_tracked w)"
  by unfold_locales (auto simp: listEvents_def image_iff Bex_def split: if_splits)

text \<open>Two event systems on one chain: before \<open>Stop\<close> both loops run, after it both return and a third cannot start.\<close>

definition exBackend :: "nat option \<Rightarrow> (unit, unit, nat, nat, nat) apiBackend" where
  "exBackend ticker = \<lparr>ab_vc = \<lparr>vc_Scanner = (), vc_Store = (), vc_BlockInterval = 6, vc_ChainName = ''bch'', vc_ChainID = [],
       vc_GenesisMainChainBlockHeight = 0, vc_PrevBlockHash = [], vc_CurrentBlockHeight = 0, vc_CurrentBlockTimestamp = 0,
       vc_CurrentBlockHash = [], vc_chainFeed = [], vc_logsFeed = [], lc_chainFeed = 0, lc_logsFeed = 1, lc_scope = 0, lc_ticker = ticker\<rparr>,
     ab_txFeed = 2, ab_rmLogsFeed = 3\<rparr>"

definition exChans :: "nat eventChans" where
  "exChans = \<lparr>ec_txsCh = 0, ec_logsCh = 1, ec_rmLogsCh = 2, ec_chainCh = 3\<rparr>"

definition exWorld :: eventWorld where
  "exWorld = \<lparr>ew_next = 0, ew_ended = [], ew_closed = [], ew_tracked = []\<rparr>"

lemma two_systems_stop:
  obtains es1 w1 es2 w2 w3 where "subscribeEvents listEvents (exBackend (Some 0)) exChans exWorld = (Some es1, w1)"
    "subscribeEvents listEvents (exBackend (Some 0)) exChans w1 = (Some es2, w2)"
    "Stop listEvents (ab_vc (exBackend (Some 0))) w2 = Ok w3"
    "\<not> loopReturns listEvents es1 w2" "\<not> loopReturns listEvents es2 w2"
    "loopReturns listEvents es1 w3" "loopReturns listEvents es2 w3"
proof -
  note ops = listEvents_def exBackend_def exChans_def exWorld_def subscribeEvents_def SubscribeNewTxsEvent_def
    SubscribeRemovedLogsEvent_def backendSubscribeLogsEvent_def backendSubscribeChainEvent_def SubscribeLogsEvent_def
    SubscribeChainEvent_def
  let ?b = "exBackend (Some 0)"
  obtain es1 w1 where 1: "subscribeEvents listEvents ?b exChans exWorld = (Some es1, w1)" "ew_ended w1 = []" "ew_closed w1 = []"
    by (simp add: ops)
  obtain es2 w2 where 2: "subscribeEvents listEvents ?b exChans w1 = (Some es2, w2)" "ew_ended w2 = []"
    using 1(2,3) by (simp add: ops)
  obtain w3 where 3: "Stop listEvents (ab_vc ?b) w2 = Ok w3" by (simp add: Stop_def exBackend_def)
  have "\<not> loopReturns listEvents es w2" for es using 2(2) by (simp add: loopReturns_def listEvents_def)
  moreover have "loopReturns listEvents es1 w3"
    using list_events.stop_ends_loops(1) [OF 1(1), of w2 "[(?b, exChans)]"] 2(1) 3 by simp
  moreover have "loopReturns listEvents es2 w3"
    using list_events.stop_ends_loops(1) [OF 2(1), of w2 "[]"] 3 by simp
  ultimately show ?thesis using that 1(1) 2(1) 3 by blast
qed

lemma stop_before_start_panics: "Stop L v w = Panic NilDereference \<longleftrightarrow> lc_ticker v = None"
  by (simp add: Stop_def split: option.splits)

end
