(* ===== verification/Filter_Stop.thy ===== *)
theory Filter_Stop
  imports Lifecycle Filter_Safety
begin

text \<open>
  The filter system of a chain that is stopped: the state machine of \<open>Filter_System\<close> together with the
  subscriptions of \<open>Lifecycle\<close>.  The event loop runs until it is at its \<open>select\<close> and one of its four
  subscriptions has ended; then it returns, and the goroutines, the calls and the timeout loop go on
  without it.  Every run of the stopped system is a run of the plain one, so that what is shown of
  those holds here too.
\<close>

section \<open>Runs\<close>

definition restStep :: "int \<Rightarrow> (Header \<Rightarrow> bytes) \<Rightarrow> fsys \<Rightarrow> label \<Rightarrow> fsys \<Rightarrow> bool" where
  "restStep latest H s l s' \<longleftrightarrow>
     readerStep H s l s' \<or> notifierStep s l s' \<or> callStep latest s l s' \<or> timeoutStep s l s' \<or> envStep s l s'"

lemma fstep_parts: "fstep latest H s l s' \<longleftrightarrow> loopStep s l s' \<or> restStep latest H s l s'"
  by (auto simp: fstep_def restStep_def)

text \<open>
  \<open>w\<close> is the state of the event library; the flag tells that the loop has returned.  Other event
  systems may subscribe at any time, as every server has its own.  The environment may fill the channels also
  when the subscriptions have ended, which allows more runs than there are.
\<close>

inductive stopRun ::
  "('w, 'f, 'sub, 'scope, 'tick, 'ch) event_ops \<Rightarrow> ('s, 'db, 'f, 'scope, 'tick) apiBackend \<Rightarrow> 'sub eventSubs \<Rightarrow>
   int \<Rightarrow> (Header \<Rightarrow> bytes) \<Rightarrow> label list \<Rightarrow> 'w \<Rightarrow> bool \<Rightarrow> fsys \<Rightarrow> bool"
  for L b es latest H where
  start: "subscribeEvents L b m w = (Some es, w') \<Longrightarrow> stopRun L b es latest H [] w' False (NewAPI now)"
| subscribe: "stopRun L b es latest H tr w ended s \<Longrightarrow> subscribeEvents L b m w = (r, w') \<Longrightarrow>
    stopRun L b es latest H tr w' ended s"
| stop: "stopRun L b es latest H tr w ended s \<Longrightarrow> Stop L (ab_vc b) w = Ok w' \<Longrightarrow> stopRun L b es latest H tr w' ended s"
| run: "stopRun L b es latest H tr w False s \<Longrightarrow> fstep latest H s l s' \<Longrightarrow> stopRun L b es latest H (tr @ [l]) w False s'"
| returns: "stopRun L b es latest H tr w False s \<Longrightarrow> fs_sends s = [] \<Longrightarrow> loopReturns L es w \<Longrightarrow>
    stopRun L b es latest H tr (loopCleanup L es w) True s"
| rest: "stopRun L b es latest H tr w True s \<Longrightarrow> restStep latest H s l s' \<Longrightarrow> stopRun L b es latest H (tr @ [l]) w True s'"

lemma stopRun_run: "stopRun L b es latest H tr w ended s \<Longrightarrow> run latest H tr s"
  by (induction rule: stopRun.induct) (auto intro: run.intros simp: fstep_parts)

lemma stopRun_sysOk: "stopRun L b es latest H tr w ended s \<Longrightarrow> sysOk s"
  by (rule run_sysOk [OF stopRun_run])

section \<open>The loop returns\<close>

context event_lib
begin

lemma ended_tracked:
  assumes "(let (s, w) = feed_Subscribe L f ch w in scope_Track L sc s w) = (r, w')" and "sub_Ended L w y"
  shows "sub_Ended L w' y"
  using assms by (auto split: prod.splits dest: ended_kept)

lemma ended_subscribeEvents:
  assumes "subscribeEvents L b m w = (r, w')" and "sub_Ended L w y"
  shows "sub_Ended L w' y"
proof -
  obtain t w1 where 1: "SubscribeNewTxsEvent L b (ec_txsCh m) w = (t, w1)" by (meson surj_pair)
  obtain l w2 where 2: "SubscribeLogsEvent L (ab_vc b) (ec_logsCh m) w1 = (l, w2)" by (meson surj_pair)
  obtain u w3 where 3: "SubscribeRemovedLogsEvent L b (ec_rmLogsCh m) w2 = (u, w3)" by (meson surj_pair)
  obtain c w4 where 4: "SubscribeChainEvent L (ab_vc b) (ec_chainCh m) w3 = (c, w4)" by (meson surj_pair)
  have "sub_Ended L w1 y"
    using 1 assms(2) by (auto simp: SubscribeNewTxsEvent_def split: prod.splits dest: ended_kept)
  then have "sub_Ended L w2 y" using ended_tracked 2 unfolding SubscribeLogsEvent_def by blast
  then have "sub_Ended L w3 y"
    using 3 by (auto simp: SubscribeRemovedLogsEvent_def split: prod.splits dest: ended_kept)
  then have "sub_Ended L w4 y" using ended_tracked 4 unfolding SubscribeChainEvent_def by blast
  moreover have "w' = w4"
    using assms(1) 1 2 3 4 by (simp add: subscribeEvents_def backendSubscribeLogsEvent_def backendSubscribeChainEvent_def)
  ultimately show ?thesis by simp
qed

lemma Stop_effect:
  assumes "Stop L v w = Ok w'"
  shows "\<not> isOpen w' (lc_scope v)" "tracked w (lc_scope v) x \<Longrightarrow> sub_Ended L w' x" "sub_Ended L w x \<Longrightarrow> sub_Ended L w' x"
  using assms close ended_kept(3) ticker by (auto simp: Stop_def split: option.splits)

text \<open>The log subscription has ended, or the scope is open and still tracks it.\<close>

lemma stopRun_subscribed:
  "stopRun L b es latest H tr w ended s \<Longrightarrow>
   sub_Ended L w (es_logsSub es) \<or> isOpen w (lc_scope (ab_vc b)) \<and> tracked w (lc_scope (ab_vc b)) (es_logsSub es)"
proof (induction rule: stopRun.induct)
  case (start m w w' now)
  then show ?case using subscribeEvents_outcome(1,3) [OF start] by (auto split: if_splits)
next
  case (subscribe tr w ended s m r w')
  then show ?case using subscribeEvents_outcome(1,2) [OF subscribe.hyps(2)] ended_subscribeEvents [OF subscribe.hyps(2)] by auto
next
  case (stop tr w ended s w')
  then show ?case using Stop_effect [OF stop.hyps(2)] by blast
next
  case (returns tr w s)
  then show ?case by (simp add: loopCleanup_def unsubscribe)
qed simp_all

lemma stop_returns:
  assumes "stopRun L b es latest H tr w ended s" and "\<not> isOpen w (lc_scope (ab_vc b))"
  shows "loopReturns L es w"
  using stopRun_subscribed [OF assms(1)] assms(2) by (simp add: loopReturns_def)

end

section \<open>What happens to the calls\<close>

lemma restStep_index: "restStep latest H s l s' \<Longrightarrow> fs_index s' = fs_index s \<and> fs_err s' = fs_err s"
  by (auto simp: restStep_def elim!: readerStep.cases notifierStep.cases callStep.cases timeoutStep.cases envStep.cases)

lemma restStep_installing:
  assumes "sysOk s" and "restStep latest H s l s'" and "fs_calls s sid = Some (c, Installing, f)"
  shows "fs_calls s' sid = Some (c, Installing, f)"
proof -
  have "sid \<in> fs_ids s" using assms(1,3) by (auto elim: idOk_elim [where sid = sid])
  with assms(2,3) show ?thesis
    by (auto simp: restStep_def elim!: readerStep.cases notifierStep.cases callStep.cases timeoutStep.cases envStep.cases)
qed

lemma restStep_requesting:
  assumes "restStep latest H s l s'" and "fs_unsubs s sid = Some (Requesting, f)"
  shows "\<exists>f'. fs_unsubs s' sid = Some (Requesting, f')"
  using assms
  by (auto simp: restStep_def elim!: readerStep.cases notifierStep.cases callStep.cases timeoutStep.cases envStep.cases)

lemma restStep_mutex:
  assumes "restStep latest H s l s'" and "fs_mutex s = WaitingFor sid order" and "fs_unsubs s sid \<noteq> None"
  shows "fs_mutex s' = WaitingFor sid order"
  using assms
  by (auto simp: restStep_def elim!: readerStep.cases notifierStep.cases callStep.cases timeoutStep.cases envStep.cases)

text \<open>Any number of steps without the loop.\<close>

abbreviation restSteps :: "int \<Rightarrow> (Header \<Rightarrow> bytes) \<Rightarrow> fsys \<Rightarrow> fsys \<Rightarrow> bool" where
  "restSteps latest H \<equiv> (\<lambda>s s'. \<exists>l. restStep latest H s l s')\<^sup>*\<^sup>*"

lemma restSteps_sysOk: "restSteps latest H s s' \<Longrightarrow> sysOk s \<Longrightarrow> sysOk s'"
proof (induction rule: rtranclp_induct)
  case (step y z)
  then obtain l where "fstep latest H y l z" by (auto simp: fstep_parts)
  with step show ?case using fstep_sysOk by blast
qed

lemma restSteps_index: "restSteps latest H s s' \<Longrightarrow> fs_index s' = fs_index s"
  by (induction rule: rtranclp_induct) (auto dest: restStep_index)

lemma restSteps_installing:
  "restSteps latest H s s' \<Longrightarrow> sysOk s \<Longrightarrow> fs_calls s sid = Some (c, Installing, f) \<Longrightarrow> fs_calls s' sid = Some (c, Installing, f)"
proof (induction rule: rtranclp_induct)
  case (step y z)
  then show ?case using restStep_installing restSteps_sysOk by blast
qed

lemma restSteps_requesting:
  "restSteps latest H s s' \<Longrightarrow> fs_unsubs s sid = Some (Requesting, f) \<Longrightarrow> \<exists>f'. fs_unsubs s' sid = Some (Requesting, f')"
proof (induction rule: rtranclp_induct)
  case (step y z)
  then show ?case using restStep_requesting by blast
qed simp

lemma restSteps_mutex:
  assumes "restSteps latest H s s'" and "fs_mutex s = WaitingFor sid order" and "fs_unsubs s sid = Some (Requesting, f)"
  shows "fs_mutex s' = WaitingFor sid order"
  using assms(1)
proof (induction rule: rtranclp_induct)
  case (step y z)
  then show ?case using restStep_mutex restSteps_requesting [OF step.hyps(1) assms(3)] by auto
qed (rule assms(2))

section \<open>Properties\<close>

text \<open>
  C25: Stopping the chain ends the event loop.  In every state of the filter system, after \<open>Stop\<close> the loop
  returns as soon as it has delivered what it is sending; on the way out it ends all four
  subscriptions, and no new event system can start.
\<close>

theorem stop_ends_event_loop:
  assumes lib: "event_lib L isOpen tracked" and r: "stopRun L b es latest H tr w False s" and st: "Stop L (ab_vc b) w = Ok w'"
  shows "loopReturns L es w' \<and> fst (subscribeEvents L b m w') = None \<and>
    (fs_sends s = [] \<longrightarrow> stopRun L b es latest H tr (loopCleanup L es w') True s) \<and>
    list_all (sub_Ended L (loopCleanup L es w')) [es_txsSub es, es_logsSub es, es_rmLogsSub es, es_chainSub es]"
proof -
  note r' = stopRun.stop [OF r st]
  have closed: "\<not> isOpen w' (lc_scope (ab_vc b))" by (rule event_lib.Stop_effect(1) [OF lib st])
  then have ret: "loopReturns L es w'" by (rule event_lib.stop_returns [OF lib r'])
  moreover have "fst (subscribeEvents L b m w') = None"
    using event_lib.subscribeEvents_outcome(3) [OF lib prod.collapse [symmetric], where w = w' and b = b] closed by simp
  moreover have "fs_sends s = [] \<longrightarrow> stopRun L b es latest H tr (loopCleanup L es w') True s"
    using stopRun.returns [OF r' _ ret] by blast
  moreover have "list_all (sub_Ended L (loopCleanup L es w')) [es_txsSub es, es_logsSub es, es_rmLogsSub es, es_chainSub es]"
    using event_lib.unsubscribe [OF lib] by (simp add: loopCleanup_def)
  ultimately show ?thesis by blast
qed

text \<open>
  C26: Calls hang when the loop has returned.  Nobody receives from \<open>install\<close> and \<open>uninstall\<close> any more: a call
  that is subscribing never returns, an \<open>Unsubscribe\<close> that asks to be uninstalled never returns, and
  if it is the one of the timeout loop, the mutex is never free again.
\<close>

theorem stopped_calls_hang:
  assumes r: "stopRun L b es latest H tr w True s" and steps: "restSteps latest H s s'"
  shows "fs_index s' = fs_index s \<and>
    (fs_calls s sid = Some (c, Installing, f) \<longrightarrow> fs_calls s' sid = Some (c, Installing, f)) \<and>
    (fs_unsubs s sid = Some (Requesting, g) \<longrightarrow> (\<exists>g'. fs_unsubs s' sid = Some (Requesting, g'))) \<and>
    (fs_unsubs s sid = Some (Requesting, g) \<and> fs_mutex s = WaitingFor sid order \<longrightarrow> fs_mutex s' = WaitingFor sid order)"
  using restSteps_index [OF steps] restSteps_installing [OF steps stopRun_sysOk [OF r]]
    restSteps_requesting [OF steps] restSteps_mutex [OF steps] by blast

section \<open>An example\<close>

text \<open>A subscribed event system, stopped, whose loop returns, and then a call of \<open>NewBlockFilter\<close>.\<close>

lemma exStop:
  obtains es w w' where "stopRun listEvents (exBackend (Some 0)) es latest H [] w False (NewAPI 0)"
    "Stop listEvents (ab_vc (exBackend (Some 0))) w = Ok w'"
proof (rule two_systems_stop)
  fix es1 w1
  assume "subscribeEvents listEvents (exBackend (Some 0)) exChans exWorld = (Some es1, w1)"
  note start = stopRun.start [OF this, of latest H 0]
  obtain w' where "Stop listEvents (ab_vc (exBackend (Some 0))) w1 = Ok w'" by (simp add: Stop_def exBackend_def)
  with start show thesis by (rule that)
qed

theorem stop_ends_event_loop_witness:
  "\<exists>es w. stopRun listEvents (exBackend (Some 0)) es 0 (\<lambda>h. []) [] w True (NewAPI 0)"
proof (rule exStop)
  fix es w w'
  assume r: "stopRun listEvents (exBackend (Some 0)) es 0 (\<lambda>h. []) [] w False (NewAPI 0)"
    and st: "Stop listEvents (ab_vc (exBackend (Some 0))) w = Ok w'"
  from stop_ends_event_loop [OF list_events.event_lib_axioms r st] show ?thesis
    by (auto simp: NewAPI_def NewEventSystem_def)
qed

theorem stopped_calls_hang_witness:
  "\<exists>s s' f. fs_calls s ''a'' = Some (PollCaller, Installing, f) \<and> fs_now s' = 600 \<and>
     restSteps 0 (\<lambda>h. []) s s' \<and> fs_calls s' ''a'' = Some (PollCaller, Installing, f)"
proof (rule exStop)
  fix es w w'
  assume r: "stopRun listEvents (exBackend (Some 0)) es 0 (\<lambda>h. []) [] w False (NewAPI 0)"
    and st: "Stop listEvents (ab_vc (exBackend (Some 0))) w = Ok w'"
  have ret: "loopReturns listEvents es w'"
    using list_events.stop_returns [OF stopRun.stop [OF r st]] list_events.Stop_effect(1) [OF st] by simp
  have sends: "fs_sends (NewAPI 0) = []" by (simp add: NewAPI_def NewEventSystem_def)
  define f where "f = SubscribeNewHeads ''a'' 0"
  define s where "s = (NewAPI 0)\<lparr>fs_ids := {''a''}, fs_calls := [''a'' \<mapsto> (PollCaller, Installing, f)]\<rparr>"
  define s' where "s' = s\<lparr>fs_now := fs_now s + 600, fs_filters := map_option (fireTimer (fs_now s + 600)) \<circ> fs_filters s\<rparr>"
  have "callStep 0 (NewAPI 0) Tau s"
    using callStep.subscribe_heads [of "''a''" "NewAPI 0" 0 PollCaller]
    by (simp add: s_def f_def NewAPI_def NewEventSystem_def)
  then have "stopRun listEvents (exBackend (Some 0)) es 0 (\<lambda>h. []) ([] @ [Tau]) (loopCleanup listEvents es w') True s"
    by (intro stopRun.rest [OF stopRun.returns [OF stopRun.stop [OF r st] sends ret]]) (simp add: restStep_def)
  moreover have steps: "restSteps 0 (\<lambda>h. []) s s'"
    using envStep.tick [of 600 s] by (intro r_into_rtranclp) (auto simp: restStep_def s'_def)
  ultimately have "fs_calls s' ''a'' = Some (PollCaller, Installing, f)"
    using stopped_calls_hang [of listEvents "exBackend (Some 0)" es 0 "\<lambda>h. []" "[] @ [Tau]" "loopCleanup listEvents es w'" s s' "''a''" PollCaller f]
    by (simp add: s_def)
  with steps show ?thesis by (intro exI [of _ s] exI [of _ s'] exI [of _ f]) (simp add: s'_def s_def NewAPI_def NewEventSystem_def)
qed

end
