(* ===== verification/Txbuilder.thy ===== *)
theory Txbuilder
  imports Egtx "HOL-Library.Sublist"
begin

text \<open>
  cmd/txbuilder/main.go: the command that builds an EGTX from an unspent output and sends it.  The
  wallet functions (addresses, keys, signatures) and the node are the parameter \<open>tx_ops\<close>; \<open>'a\<close> stands
  for \<open>bchutil.Address\<close> and \<open>'w\<close> for \<open>bchutil.WIF\<close>.  What is printed is not modelled, except that the
  loop of \<open>main\<close> returns the errors it prints.
\<close>

section \<open>Transactions and the third-party functions\<close>

record TxIn =
  in_Hash :: bytes
  in_Index :: int
  in_SignatureScript :: bytes
  in_Sequence :: int

record TxOut =
  out_Value :: int
  out_PkScript :: bytes

record MsgTx =
  msg_Version :: int
  msg_TxIn :: "TxIn list"
  msg_TxOut :: "TxOut list"
  msg_LockTime :: int

text \<open>The fields of \<open>btcjson.ListUnspentResult\<close> the command uses.\<close>

record ListUnspentResult =
  lu_TxID :: string
  lu_Vout :: int
  lu_Amount :: f64
  lu_ScriptPubKey :: string

text \<open>
  \<open>t_SignECDSA\<close> is \<open>PrivKey.SignECDSA(hash)\<close> with \<open>Serialize()\<close>; \<open>t_CalcSignatureHash\<close> gets the output
  script, the transaction, the hash type and the amount, for the input 0; \<open>t_ListUnspent\<close> is what the
  node answers to attempt \<open>i\<close>; \<open>t_SendRawTransaction\<close> is the reply to a transaction after the given
  ones have been submitted.  A reply that is an error does not say that the node has refused the
  transaction: the reply may have been lost.
\<close>

record ('a, 'w) tx_ops =
  t_FromHex :: "string \<Rightarrow> bytes"
  t_DecodeAddress :: "string \<Rightarrow> 'a outcome"
  t_PayToAddrScript :: "'a option \<Rightarrow> bytes outcome"
  t_NewAddressPubKeyHash :: "bytes \<Rightarrow> 'a outcome"
  t_Hash160 :: "bytes \<Rightarrow> bytes"
  t_DecodeWIF :: "string \<Rightarrow> 'w outcome"
  t_SerializePubKey :: "'w \<Rightarrow> bytes"
  t_SignECDSA :: "'w \<Rightarrow> bytes \<Rightarrow> bytes outcome"
  t_CalcSignatureHash :: "bytes \<Rightarrow> MsgTx \<Rightarrow> int \<Rightarrow> int \<Rightarrow> bytes outcome"
  t_ListUnspent :: "'a \<Rightarrow> nat \<Rightarrow> ListUnspentResult list outcome"
  t_SendRawTransaction :: "MsgTx list \<Rightarrow> MsgTx \<Rightarrow> bytes outcome"

section \<open>Go library\<close>

text \<open>\<open>math.Round\<close>: the nearest integer, half away from zero.\<close>

fun mathRound :: "f64 \<Rightarrow> int" where
  "mathRound (F64 m e) =
     (if 0 \<le> e then m * 2 ^ nat e
      else sgn m * ((2 * \<bar>m\<bar> + 2 ^ nat (- e)) div (2 * 2 ^ nat (- e))))"

text \<open>\<open>hex.DecodeString\<close> with the error ignored: the bytes before the first invalid digit.\<close>

fun hexDecodePrefix :: "string \<Rightarrow> bytes" where
  "hexDecodePrefix (a # b # s) =
     (case (fromHexChar a, fromHexChar b) of
        (Some h, Some l) \<Rightarrow> word_of_int (h * 16 + l) # hexDecodePrefix s
      | _ \<Rightarrow> [])"
| "hexDecodePrefix _ = []"

section \<open>The sender\<close>

record ('a, 'w) Sender =
  s_from :: "'a option"
  s_wif :: "'w option"
  s_fee :: int
  s_contractAddress :: bytes
  s_payer :: bytes
  s_payee :: bytes
  s_fileID :: bytes
  s_otherData :: bytes
  s_payTo :: "'a option"
  s_payAmt :: f64

definition initMainChainFields :: "('a, 'w) tx_ops \<Rightarrow> string \<Rightarrow> ('a, 'w) Sender \<Rightarrow> ('a, 'w) Sender outcome" where
  "initMainChainFields T wif s =
     (case t_DecodeWIF T wif of
        Err e \<Rightarrow> Panic e
      | Panic e \<Rightarrow> Panic e
      | Ok w \<Rightarrow>
        (case t_NewAddressPubKeyHash T (t_Hash160 T (t_SerializePubKey T w)) of
           Err e \<Rightarrow> Panic e
         | Panic e \<Rightarrow> Panic e
         | Ok from \<Rightarrow> Ok (s\<lparr>s_wif := Some w, s_from := Some from\<rparr>)))"

text \<open>\<open>conn\<close> is what \<open>bch.MakeMainChainClient\<close> does with the connection string.\<close>

definition newSender :: "('a, 'w) tx_ops \<Rightarrow> unit outcome \<Rightarrow> string \<Rightarrow> ('a, 'w) Sender outcome" where
  "newSender T conn wif =
     (let s = \<lparr>s_from = None, s_wif = None, s_fee = 400, s_contractAddress = zeros 20, s_payer = zeros 20,
               s_payee = zeros 20, s_fileID = zeros 32, s_otherData = zeros 32, s_payTo = None, s_payAmt = F64 0 0\<rparr>
      in case conn of
           Err e \<Rightarrow> Err e
         | Panic e \<Rightarrow> Panic e
         | Ok _ \<Rightarrow> initMainChainFields T wif s)"

definition buildNullDataScript :: "script_ops \<Rightarrow> ('a, 'w) Sender \<Rightarrow> bytes" where
  "buildNullDataScript S s =
     (let b = [];
          b = AddOp S b 0x6a;
          b = AddData S b (bytes_of ''EGTX'');
          b = AddData S b (s_contractAddress s);
          b = AddData S b (s_payer s);
          b = AddData S b (s_payee s);
          b = AddData S b (s_fileID s);
          b = AddOp S b 0x00
      in b)"

definition NewTxOut :: "int \<Rightarrow> bytes \<Rightarrow> TxOut" where
  "NewTxOut v script = \<lparr>out_Value = v, out_PkScript = script\<rparr>"

text \<open>\<open>SigHashAll | SigHashForkID\<close>.\<close>

definition hashType :: int where
  "hashType = 0x41"

text \<open>The amount in satoshi of a \<open>float64\<close>, as the command computes it.\<close>

definition satoshiAmt :: "f64 \<Rightarrow> int" where
  "satoshiAmt v = as_i64 (f64_trunc (f64_mul v (F64 100000000 0)))"

text \<open>The last part of \<open>buildEGTX\<close>: the signature of the input.\<close>

definition signEGTX :: "('a, 'w) tx_ops \<Rightarrow> script_ops \<Rightarrow> ('a, 'w) Sender \<Rightarrow> ListUnspentResult \<Rightarrow> MsgTx \<Rightarrow> MsgTx outcome" where
  "signEGTX T S s unspent tx =
     (let scriptPubkey = hexDecodePrefix (lu_ScriptPubKey unspent);
          amt = as_i64 (mathRound (f64_mul (lu_Amount unspent) (F64 100000000 0)))
      in case t_CalcSignatureHash T scriptPubkey tx hashType amt of
           Err e \<Rightarrow> Err e
         | Panic e \<Rightarrow> Panic e
         | Ok sigHash \<Rightarrow>
           (case s_wif s of
              None \<Rightarrow> Panic NilDereference
            | Some w \<Rightarrow>
              (case t_SignECDSA T w sigHash of
                 Err e \<Rightarrow> Panic e
               | Panic e \<Rightarrow> Panic e
               | Ok sig \<Rightarrow>
                 let sigScript = AddData S (AddData S [] (sig @ [word_of_int hashType])) (t_SerializePubKey T w)
                 in Ok (tx\<lparr>msg_TxIn := (msg_TxIn tx)[0 := (msg_TxIn tx ! 0)\<lparr>in_SignatureScript := sigScript\<rparr>]\<rparr>))))"

text \<open>The pay-to output and the change: an output is added only for a positive amount.\<close>

definition addOutput :: "('a, 'w) tx_ops \<Rightarrow> 'a option \<Rightarrow> int \<Rightarrow> TxOut list \<Rightarrow> TxOut list outcome" where
  "addOutput T address amt outs =
     (if 0 < amt
      then (case t_PayToAddrScript T address of
              Err e \<Rightarrow> Err e
            | Panic e \<Rightarrow> Panic e
            | Ok script \<Rightarrow> Ok (outs @ [NewTxOut amt script]))
      else Ok outs)"

definition buildEGTX :: "deps \<Rightarrow> ('a, 'w) tx_ops \<Rightarrow> ('a, 'w) Sender \<Rightarrow> ListUnspentResult \<Rightarrow> MsgTx outcome" where
  "buildEGTX D T s unspent =
     (let inAmt = satoshiAmt (lu_Amount unspent);
          payAmt = satoshiAmt (s_payAmt s);
          changeAmt = as_i64 (as_i64 (inAmt - payAmt) - s_fee s);
          nullDataScript = buildNullDataScript (d_script D) s;
          outs = (if length nullDataScript \<noteq> 0 then [NewTxOut 0 nullDataScript] else [])
      in if inAmt \<le> as_i64 (payAmt + s_fee s) then Err (ErrorString ''unspent amount not enough'')
         else
           (case d_NewHashFromStr D (lu_TxID unspent) of
              Err _ \<Rightarrow> Panic NilDereference
            | Panic e \<Rightarrow> Panic e
            | Ok hash \<Rightarrow>
              (case addOutput T (s_payTo s) payAmt outs of
                 Err e \<Rightarrow> Err e
               | Panic e \<Rightarrow> Panic e
               | Ok outs \<Rightarrow>
                 (case addOutput T (s_from s) changeAmt outs of
                    Err e \<Rightarrow> Err e
                  | Panic e \<Rightarrow> Panic e
                  | Ok outs \<Rightarrow>
                    signEGTX T (d_script D) s unspent
                      \<lparr>msg_Version = 2,
                       msg_TxIn = [\<lparr>in_Hash = hash, in_Index = lu_Vout unspent, in_SignatureScript = [], in_Sequence = 0xffffffff\<rparr>],
                       msg_TxOut = outs, msg_LockTime = 0\<rparr>))))"

section \<open>Sending\<close>

text \<open>\<open>submitted\<close> are the transactions handed to the node in this run, whatever it replied.\<close>

definition sendEGTX :: "('a, 'w) tx_ops \<Rightarrow> MsgTx list \<Rightarrow> MsgTx \<Rightarrow> bytes option outcome \<times> MsgTx list" where
  "sendEGTX T submitted tx =
     (let submitted' = submitted @ [tx] in
      case t_SendRawTransaction T submitted tx of
        Err e \<Rightarrow> (Err e, submitted')
      | Panic e \<Rightarrow> (Panic e, submitted')
      | Ok txHash \<Rightarrow> (Ok (Some txHash), submitted'))"

definition buildAndSendEGTX ::
  "deps \<Rightarrow> ('a, 'w) tx_ops \<Rightarrow> ('a, 'w) Sender \<Rightarrow> bool \<Rightarrow> MsgTx list \<Rightarrow> ListUnspentResult \<Rightarrow> bytes option outcome \<times> MsgTx list" where
  "buildAndSendEGTX D T s dryRun submitted unspent =
     (case buildEGTX D T s unspent of
        Err e \<Rightarrow> (Err e, submitted)
      | Panic e \<Rightarrow> (Panic e, submitted)
      | Ok tx \<Rightarrow> if dryRun then (Ok None, submitted) else sendEGTX T submitted tx)"

text \<open>The retry loop of \<open>listUnspentUtxo\<close>, from attempt \<open>i\<close>; it may run forever.\<close>

partial_function (option) listUnspentUtxo :: "('a, 'w) tx_ops \<Rightarrow> 'a \<Rightarrow> nat \<Rightarrow> ListUnspentResult list outcome option" where
  "listUnspentUtxo T address i =
     (case t_ListUnspent T address i of
        Err e \<Rightarrow> listUnspentUtxo T address (Suc i)
      | Panic e \<Rightarrow> Some (Panic e)
      | Ok unspentList \<Rightarrow> Some (Ok unspentList))"

text \<open>The loop at the end of \<open>main\<close>: the errors printed and the result of the last call.\<close>

fun sendLoop ::
  "deps \<Rightarrow> ('a, 'w) tx_ops \<Rightarrow> ('a, 'w) Sender \<Rightarrow> bool \<Rightarrow> MsgTx list \<Rightarrow> ListUnspentResult list \<Rightarrow> goerr list outcome \<times> MsgTx list" where
  "sendLoop D T s dryRun submitted [] = (Ok [], submitted)"
| "sendLoop D T s dryRun submitted (unspent # us) =
     (case buildAndSendEGTX D T s dryRun submitted unspent of
        (Ok _, submitted') \<Rightarrow> (Ok [], submitted')
      | (Panic e, submitted') \<Rightarrow> (Panic e, submitted')
      | (Err e, submitted') \<Rightarrow>
          (case sendLoop D T s dryRun submitted' us of
             (Ok es, submitted'') \<Rightarrow> (Ok (e # es), submitted'')
           | (r, submitted'') \<Rightarrow> (r, submitted'')))"

record flags =
  f_keyGen :: bool
  f_listUtxo :: bool
  f_dryRun :: bool
  f_wif :: string
  f_contract :: string
  f_payer :: string
  f_payee :: string
  f_fileId :: string
  f_payTo :: string
  f_payAmt :: f64
  f_minerFee :: int

text \<open>The sender as \<open>main\<close> sets it up; an error is a pay-to address it cannot decode.\<close>

definition setupSender :: "('a, 'w) tx_ops \<Rightarrow> unit outcome \<Rightarrow> flags \<Rightarrow> ('a, 'w) Sender outcome" where
  "setupSender T conn f =
     (case newSender T conn (f_wif f) of
        Err e \<Rightarrow> Err e
      | Panic e \<Rightarrow> Panic e
      | Ok s0 \<Rightarrow>
        let s = s0\<lparr>s_contractAddress := copy_into (s_contractAddress s0) 0 20 (t_FromHex T (f_contract f)),
                   s_payer := copy_into (s_payer s0) 0 20 (t_FromHex T (f_payer f)),
                   s_payee := copy_into (s_payee s0) 0 20 (t_FromHex T (f_payee f)),
                   s_fileID := copy_into (s_fileID s0) 0 32 (t_FromHex T (f_fileId f)),
                   s_fee := f_minerFee f\<rparr>
        in if f_payTo f \<noteq> []
           then (case t_DecodeAddress T (f_payTo f) of
                   Err e \<Rightarrow> Err e
                 | Panic e \<Rightarrow> Panic e
                 | Ok a \<Rightarrow> Ok (s\<lparr>s_payTo := Some a, s_payAmt := f_payAmt f\<rparr>))
           else Ok s)"

text \<open>
  \<open>main\<close>: None if it never ends, else the errors it printed and the transactions it submitted.
  With \<open>-key-gen\<close> it only prints a new key.  A missing WIF is reported, but the command goes on.
\<close>

definition txbuilder_main :: "deps \<Rightarrow> ('a, 'w) tx_ops \<Rightarrow> unit outcome \<Rightarrow> flags \<Rightarrow> (goerr list outcome \<times> MsgTx list) option" where
  "txbuilder_main D T conn f =
     (if f_keyGen f then Some (Ok [], [])
      else case setupSender T conn f of
        Err e \<Rightarrow> Some (Ok [e], [])
      | Panic e \<Rightarrow> Some (Panic e, [])
      | Ok s \<Rightarrow>
        (case s_from s of
           None \<Rightarrow> Some (Panic NilDereference, [])
         | Some from \<Rightarrow>
           (case listUnspentUtxo T from 0 of
              None \<Rightarrow> None
            | Some (Err e) \<Rightarrow> Some (Err e, [])
            | Some (Panic e) \<Rightarrow> Some (Panic e, [])
            | Some (Ok utxos) \<Rightarrow>
                if f_listUtxo f then Some (Ok [], [])
                else Some (sendLoop D T s (f_dryRun f) [] utxos))))"

section \<open>Lemmas\<close>

text \<open>What \<open>main\<close> makes of the flags has the lengths of the arrays of \<open>Sender\<close>.\<close>

definition senderOk :: "('a, 'w) Sender \<Rightarrow> bool" where
  "senderOk s \<longleftrightarrow> length (s_contractAddress s) = 20 \<and> length (s_payer s) = 20 \<and> length (s_payee s) = 20 \<and>
     length (s_fileID s) = 32"

lemma newSender_fields:
  assumes "newSender T conn wif = Ok s"
  shows "s_contractAddress s = zeros 20 \<and> s_payer s = zeros 20 \<and> s_payee s = zeros 20 \<and> s_fileID s = zeros 32 \<and>
    s_from s \<noteq> None \<and> s_wif s \<noteq> None"
  using assms by (auto simp: newSender_def initMainChainFields_def split: outcome.splits)

lemma setupSender_ok:
  assumes "setupSender T conn f = Ok s"
  shows "senderOk s \<and> s_from s \<noteq> None \<and> s_wif s \<noteq> None"
  using assms newSender_fields [of T conn "f_wif f"]
  by (auto simp: setupSender_def senderOk_def Let_def split: outcome.splits if_splits)

lemma addOutput_Ok:
  assumes "addOutput T a amt outs = Ok outs'"
  obtains script where "0 < amt \<longrightarrow> t_PayToAddrScript T a = Ok script"
    and "outs' = outs @ (if 0 < amt then [NewTxOut amt script] else [])"
  using assms by (auto simp: addOutput_def split: outcome.splits if_splits)

lemma signEGTX_outputs: "signEGTX T S s u tx = Ok tx' \<Longrightarrow> msg_TxOut tx' = msg_TxOut tx"
  by (auto simp: signEGTX_def Let_def split: outcome.splits option.splits)

lemma push_elem_eq: "push_elem d = push d"
  by (cases "d = []") (simp_all add: push_def)

lemma buildNullDataScript_eq:
  assumes "script_lib S" and "senderOk s"
  shows "buildNullDataScript S s = egtx_script [s_contractAddress s, s_payer s, s_payee s, s_fileID s, []]"
  using assms(2)
  by (simp add: buildNullDataScript_def egtx_script_def senderOk_def Let_def script_lib.add_op [OF assms(1)]
      script_lib.add_data_push [OF assms(1)] push_elem_eq push_def [of "[]"])

text \<open>The elements the scanner reads out of the script.\<close>

lemma parse_buildNullDataScript:
  assumes "script_lib (d_script D)" and "senderOk s"
  shows "ParseEGTXNullData D (hexEncodeToString (buildNullDataScript (d_script D) s)) =
    Ok (s_contractAddress s, [zeros 12 @ s_payer s, zeros 12 @ s_payee s, s_fileID s], [])"
proof -
  have "s_payer s \<noteq> [] \<and> s_payee s \<noteq> [] \<and> s_fileID s \<noteq> []" using assms(2) by (auto simp: senderOk_def)
  then show ?thesis
    using assms(2)
    by (subst buildNullDataScript_eq [OF assms], subst parse_egtx_script [OF assms(1)])
      (auto simp: senderOk_def fit_def numeral_eq_Suc)
qed


lemma listUnspentUtxo_first:
  assumes "\<And>e. t_ListUnspent T a (i + k) \<noteq> Err e" and "\<And>j. j < k \<Longrightarrow> \<exists>e. t_ListUnspent T a (i + j) = Err e"
  shows "listUnspentUtxo T a i = Some (t_ListUnspent T a (i + k))"
  using assms
proof (induction k arbitrary: i)
  case 0
  then show ?case by (subst listUnspentUtxo.simps) (auto split: outcome.split)
next
  case (Suc k)
  from Suc.prems(2) [of 0] obtain e where "t_ListUnspent T a i = Err e" by auto
  moreover have "\<exists>e. t_ListUnspent T a (Suc i + j) = Err e" if "j < k" for j
    using Suc.prems(2) [of "Suc j"] that by simp
  moreover have "t_ListUnspent T a (Suc i + k) \<noteq> Err e" for e using Suc.prems(1) by simp
  ultimately show ?case using Suc.IH [of "Suc i"] by (subst listUnspentUtxo.simps) simp
qed

lemma listUnspentUtxo_Some:
  assumes "listUnspentUtxo T a i = Some r"
  shows "\<exists>k. t_ListUnspent T a (i + k) = r \<and> (\<forall>e. r \<noteq> Err e) \<and> (\<forall>j < k. \<exists>e. t_ListUnspent T a (i + j) = Err e)"
proof (rule listUnspentUtxo.raw_induct [OF _ assms])
  fix f :: "('a, 'b) tx_ops \<Rightarrow> 'a \<Rightarrow> nat \<Rightarrow> ListUnspentResult list outcome option" and T a i r
  assume IH: "\<And>T a i r. f T a i = Some r \<Longrightarrow>
      \<exists>k. t_ListUnspent T a (i + k) = r \<and> (\<forall>e. r \<noteq> Err e) \<and> (\<forall>j < k. \<exists>e. t_ListUnspent T a (i + j) = Err e)"
    and r: "(case t_ListUnspent T a i of Ok us \<Rightarrow> Some (Ok us) | Err e \<Rightarrow> f T a (Suc i) | Panic e \<Rightarrow> Some (Panic e)) = Some r"
  show "\<exists>k. t_ListUnspent T a (i + k) = r \<and> (\<forall>e. r \<noteq> Err e) \<and> (\<forall>j < k. \<exists>e. t_ListUnspent T a (i + j) = Err e)"
  proof (cases "t_ListUnspent T a i")
    case (Err e)
    with IH [of T a "Suc i" r] r obtain k where k: "t_ListUnspent T a (Suc i + k) = r" "\<forall>e. r \<noteq> Err e"
        "\<forall>j < k. \<exists>e. t_ListUnspent T a (Suc i + j) = Err e"
      by auto
    with Err have "\<forall>j < Suc k. \<exists>e. t_ListUnspent T a (i + j) = Err e"
      by (auto simp: less_Suc_eq_0_disj)
    with k show ?thesis by (intro exI [of _ "Suc k"]) simp
  qed (use r in \<open>auto intro: exI [of _ 0]\<close>)
qed

lemma buildEGTX_first:
  assumes "buildEGTX D T s u = Ok tx" and "script_lib (d_script D)" and "senderOk s"
  shows "\<exists>outs. msg_TxOut tx = NewTxOut 0 (buildNullDataScript (d_script D) s) # outs"
proof -
  have "buildNullDataScript (d_script D) s \<noteq> []"
    by (simp add: buildNullDataScript_eq [OF assms(2,3)] egtx_script_def)
  then obtain pay change outs1 outs2 where
    "addOutput T (s_payTo s) pay [NewTxOut 0 (buildNullDataScript (d_script D) s)] = Ok outs1"
    "addOutput T (s_from s) change outs1 = Ok outs2" "msg_TxOut tx = outs2"
    using assms(1) by (auto simp: buildEGTX_def Let_def split: outcome.splits if_splits dest: signEGTX_outputs)
  then show ?thesis by (elim addOutput_Ok) simp
qed

text \<open>
  What the loop over the outputs \<open>us\<close> submits, after \<open>before\<close>: transactions built from some of the
  outputs, in order; every reply but the last was an error, and the loop ends with a reply that is
  none or when all outputs have been tried.
\<close>

definition attempts ::
  "deps \<Rightarrow> ('a, 'w) tx_ops \<Rightarrow> ('a, 'w) Sender \<Rightarrow> bool \<Rightarrow> MsgTx list \<Rightarrow> ListUnspentResult list \<Rightarrow> goerr list outcome \<Rightarrow>
   MsgTx list \<Rightarrow> bool" where
  "attempts D T s dryRun before us r new \<longleftrightarrow> (dryRun \<longrightarrow> new = []) \<and>
     (\<exists>us'. subseq us' us \<and> list_all2 (\<lambda>u tx. buildEGTX D T s u = Ok tx) us' new) \<and>
     (\<forall>i. Suc i < length new \<longrightarrow> (\<exists>e. t_SendRawTransaction T (before @ take i new) (new ! i) = Err e)) \<and>
     (\<forall>es. r = Ok es \<longrightarrow> dryRun \<or> length es = length us \<or>
        new \<noteq> [] \<and> (\<exists>h. t_SendRawTransaction T (before @ butlast new) (last new) = Ok h))"

lemma attempts_none: "(\<forall>es. r = Ok es \<longrightarrow> dryRun \<or> length es = length us) \<Longrightarrow> attempts D T s dryRun before us r []"
  by (auto simp: attempts_def intro: exI [of _ "[]"])

lemma attempts_last:
  assumes "\<not> dryRun" and "buildEGTX D T s u = Ok tx" and "\<forall>es. r = Ok es \<longrightarrow> (\<exists>h. t_SendRawTransaction T before tx = Ok h)"
  shows "attempts D T s dryRun before (u # us) r [tx]"
proof -
  have "subseq [u] (u # us) \<and> list_all2 (\<lambda>u tx. buildEGTX D T s u = Ok tx) [u] [tx]" using assms(2) by (simp add: subseq_singleton_left)
  then show ?thesis using assms(1,3) unfolding attempts_def by (intro conjI exI [of _ "[u]"]) simp_all
qed

lemma attempts_skip:
  assumes "attempts D T s dryRun before us r1 new" and "\<forall>es. r = Ok es \<longrightarrow> (\<exists>es'. r1 = Ok es' \<and> length es = Suc (length es'))"
  shows "attempts D T s dryRun before (u # us) r new"
  using assms unfolding attempts_def by auto

lemma attempts_retry:
  assumes "attempts D T s dryRun (before @ [tx]) us r1 new" and "\<forall>es. r = Ok es \<longrightarrow> (\<exists>es'. r1 = Ok es' \<and> length es = Suc (length es'))"
    and "\<not> dryRun" and "buildEGTX D T s u = Ok tx" and "t_SendRawTransaction T before tx = Err e"
  shows "attempts D T s dryRun before (u # us) r (tx # new)"
proof -
  obtain us' where us': "subseq us' us" "list_all2 (\<lambda>u tx. buildEGTX D T s u = Ok tx) us' new"
    using assms(1) by (auto simp: attempts_def)
  have "\<exists>e. t_SendRawTransaction T (before @ take i (tx # new)) ((tx # new) ! i) = Err e" if "Suc i < length (tx # new)" for i
    using that assms(1,5) by (cases i) (auto simp: attempts_def)
  moreover have "length es = length (u # us) \<or>
      (\<exists>h. t_SendRawTransaction T (before @ butlast (tx # new)) (last (tx # new)) = Ok h)" if "r = Ok es" for es
    using that assms(1-3) by (cases "new = []") (fastforce simp: attempts_def)+
  ultimately show ?thesis
    using us' assms(3,4) unfolding attempts_def by (intro conjI exI [of _ "u # us'"]) simp_all
qed

lemma buildAndSendEGTX_cases:
  assumes "buildAndSendEGTX D T s dryRun submitted u = (q, submitted')"
  obtains (kept) "submitted' = submitted" "\<forall>h. q = Ok h \<longrightarrow> dryRun"
  | (sent) tx where "submitted' = submitted @ [tx]" "\<not> dryRun" "buildEGTX D T s u = Ok tx"
      "\<forall>e. q = Err e \<longrightarrow> t_SendRawTransaction T submitted tx = Err e"
      "\<forall>h. q = Ok h \<longrightarrow> (\<exists>h'. t_SendRawTransaction T submitted tx = Ok h')"
proof (cases "\<exists>tx. buildEGTX D T s u = Ok tx \<and> \<not> dryRun")
  case True
  then obtain tx where tx: "buildEGTX D T s u = Ok tx" "\<not> dryRun" by blast
  with assms show ?thesis
    by (intro sent [OF _ tx(2,1)]; cases "t_SendRawTransaction T submitted tx") (auto simp: buildAndSendEGTX_def sendEGTX_def)
next
  case False
  with assms show ?thesis by (intro kept; cases "buildEGTX D T s u") (auto simp: buildAndSendEGTX_def)
qed

lemma sendLoop_submits:
  assumes "sendLoop D T s dryRun submitted us = (r, submitted')"
  shows "\<exists>new. submitted' = submitted @ new \<and> attempts D T s dryRun submitted us r new"
  using assms
proof (induction us arbitrary: submitted r)
  case Nil
  have "attempts D T s dryRun submitted [] (Ok []) []" by (rule attempts_none) simp
  with Nil show ?case by simp
next
  case (Cons u us)
  obtain q subm1 where q: "buildAndSendEGTX D T s dryRun submitted u = (q, subm1)" by fastforce
  show ?case
  proof (cases "\<exists>e. q = Err e")
    case True
    then obtain e where e: "q = Err e" by blast
    obtain r1 where r1: "sendLoop D T s dryRun subm1 us = (r1, submitted')"
        "\<forall>es. r = Ok es \<longrightarrow> (\<exists>es'. r1 = Ok es' \<and> length es = Suc (length es'))"
      using Cons.prems q e by (auto split: prod.splits outcome.splits)
    obtain new where new: "submitted' = subm1 @ new" "attempts D T s dryRun subm1 us r1 new" using Cons.IH [OF r1(1)] by blast
    from q show ?thesis
    proof (cases rule: buildAndSendEGTX_cases)
      case kept
      with new attempts_skip [OF _ r1(2)] show ?thesis by auto
    next
      case (sent tx)
      with new e attempts_retry [OF _ r1(2)] show ?thesis by (intro exI [of _ "tx # new"]) simp
    qed
  next
    case False
    then have r: "submitted' = subm1" "\<forall>es. r = Ok es \<longrightarrow> (\<exists>h. q = Ok h)"
      using Cons.prems q by (auto split: outcome.splits)
    from q show ?thesis
    proof (cases rule: buildAndSendEGTX_cases)
      case kept
      with r have "attempts D T s dryRun submitted (u # us) r []" by (intro attempts_none) blast
      with kept r(1) show ?thesis by simp
    next
      case (sent tx)
      with r have "attempts D T s dryRun submitted (u # us) r [tx]" by (intro attempts_last) blast+
      with sent(1) r(1) show ?thesis by simp
    qed
  qed
qed

lemma setupSender_fields:
  assumes "setupSender T conn f = Ok s"
  shows "s_contractAddress s = copy_into (zeros 20) 0 20 (t_FromHex T (f_contract f))"
    and "s_payer s = copy_into (zeros 20) 0 20 (t_FromHex T (f_payer f))"
    and "s_payee s = copy_into (zeros 20) 0 20 (t_FromHex T (f_payee f))"
    and "s_fileID s = copy_into (zeros 32) 0 32 (t_FromHex T (f_fileId f))"
  using assms newSender_fields [of T conn "f_wif f"]
  by (auto simp: setupSender_def Let_def split: outcome.splits if_splits)

section \<open>Properties\<close>

text \<open>
  C15: What the command submits.  If the command ends and has submitted anything, it is not in a dry run,
  and the transactions it has submitted are built from some of the unspent outputs the node
  had listed, each used once and in their order; the scanner derives from the first output of each
  the contract address and the topics payer, payee and file given on the command line (copied
  into arrays of 20, 20, 20 and 32 bytes).  A further transaction is submitted only after an error in
  reply to the one before, which does not mean that the node has refused it; and unless the
  command panics it ends with a reply that is no error, or with an error for each of the outputs.
\<close>

theorem txbuilder_submits_egtxs:
  assumes "script_lib (d_script D)" and "txbuilder_main D T conn f = Some (r, submitted)" and "submitted \<noteq> []"
  shows "\<exists>s sender utxos us'. \<not> f_dryRun f \<and> \<not> f_listUtxo f \<and> setupSender T conn f = Ok s \<and>
    s_from s = Some sender \<and> listUnspentUtxo T sender 0 = Some (Ok utxos) \<and> subseq us' utxos \<and>
    list_all2 (\<lambda>u tx. buildEGTX D T s u = Ok tx) us' submitted \<and>
    list_all (\<lambda>tx. ParseEGTXNullData D (hexEncodeToString (out_PkScript (hd (msg_TxOut tx)))) =
      Ok (copy_into (zeros 20) 0 20 (t_FromHex T (f_contract f)),
          [zeros 12 @ copy_into (zeros 20) 0 20 (t_FromHex T (f_payer f)),
           zeros 12 @ copy_into (zeros 20) 0 20 (t_FromHex T (f_payee f)),
           copy_into (zeros 32) 0 32 (t_FromHex T (f_fileId f))], [])) submitted \<and>
    (\<forall>i. Suc i < length submitted \<longrightarrow> (\<exists>e. t_SendRawTransaction T (take i submitted) (submitted ! i) = Err e)) \<and>
    (\<forall>es. r = Ok es \<longrightarrow> length es = length utxos \<or>
       (\<exists>h. t_SendRawTransaction T (butlast submitted) (last submitted) = Ok h))"
proof -
  from assms(2,3) obtain s sender utxos where s: "setupSender T conn f = Ok s" "s_from s = Some sender"
      "listUnspentUtxo T sender 0 = Some (Ok utxos)" "\<not> f_listUtxo f" "sendLoop D T s (f_dryRun f) [] utxos = (r, submitted)"
    by (auto simp: txbuilder_main_def split: outcome.splits option.splits if_splits)
  from sendLoop_submits [OF s(5)] assms(3) obtain us' where u: "\<not> f_dryRun f" "subseq us' utxos"
      "list_all2 (\<lambda>u tx. buildEGTX D T s u = Ok tx) us' submitted"
      "\<forall>i. Suc i < length submitted \<longrightarrow> (\<exists>e. t_SendRawTransaction T (take i submitted) (submitted ! i) = Err e)"
      "\<forall>es. r = Ok es \<longrightarrow> length es = length utxos \<or> (\<exists>h. t_SendRawTransaction T (butlast submitted) (last submitted) = Ok h)"
    by (auto simp: attempts_def)
  from s(1) have ok: "senderOk s" using setupSender_ok by blast
  have first: "out_PkScript (hd (msg_TxOut tx)) = buildNullDataScript (d_script D) s" if "tx \<in> set submitted" for tx
  proof -
    obtain u where "buildEGTX D T s u = Ok tx" using u(3) \<open>tx \<in> set submitted\<close> by (auto simp: list_all2_conv_all_nth in_set_conv_nth)
    from buildEGTX_first [OF this assms(1) ok] show ?thesis by (auto simp: NewTxOut_def)
  qed
  show ?thesis
    using s u first parse_buildNullDataScript [OF assms(1) ok] setupSender_fields [OF s(1)]
    by (intro exI [of _ s] exI [of _ sender] exI [of _ utxos] exI [of _ us']) (simp add: list_all_iff)
qed


text \<open>
  C40: Listing the unspent outputs ends exactly if the node answers at some time, with its first
  answer.
\<close>

theorem listUnspentUtxo_returns:
  "listUnspentUtxo T a 0 = Some r \<longleftrightarrow>
     (\<exists>k. t_ListUnspent T a k = r \<and> (\<forall>e. r \<noteq> Err e) \<and> (\<forall>j < k. \<exists>e. t_ListUnspent T a j = Err e))"
proof
  assume "listUnspentUtxo T a 0 = Some r"
  from listUnspentUtxo_Some [OF this]
  show "\<exists>k. t_ListUnspent T a k = r \<and> (\<forall>e. r \<noteq> Err e) \<and> (\<forall>j < k. \<exists>e. t_ListUnspent T a j = Err e)" by simp
next
  assume "\<exists>k. t_ListUnspent T a k = r \<and> (\<forall>e. r \<noteq> Err e) \<and> (\<forall>j < k. \<exists>e. t_ListUnspent T a j = Err e)"
  then obtain k where "t_ListUnspent T a k = r" "\<forall>e. r \<noteq> Err e" "\<forall>j < k. \<exists>e. t_ListUnspent T a j = Err e" by blast
  then show "listUnspentUtxo T a 0 = Some r" using listUnspentUtxo_first [of T a 0 k] by simp
qed

section \<open>An example\<close>

definition smallUtxo :: ListUnspentResult where
  "smallUtxo = \<lparr>lu_TxID = hexEncodeToString (zeros 32), lu_Vout = 0, lu_Amount = F64 1 (- 20), lu_ScriptPubKey = ''76a9''\<rparr>"

definition exampleUtxo :: ListUnspentResult where
  "exampleUtxo = \<lparr>lu_TxID = hexEncodeToString (zeros 31 @ [7]), lu_Vout = 1, lu_Amount = F64 1 0, lu_ScriptPubKey = ''76a9''\<rparr>"

definition exampleOps :: "(unit, unit) tx_ops" where
  "exampleOps =
     \<lparr>t_FromHex = (\<lambda>x. hexDecodePrefix (drop 2 x)), t_DecodeAddress = (\<lambda>x. Ok ()),
      t_PayToAddrScript = (\<lambda>a. Ok [0x76, 0xa9]), t_NewAddressPubKeyHash = (\<lambda>h. Ok ()),
      t_Hash160 = (\<lambda>k. take 20 k), t_DecodeWIF = (\<lambda>w. Ok ()), t_SerializePubKey = (\<lambda>w. [2, 3]),
      t_SignECDSA = (\<lambda>w h. Ok h), t_CalcSignatureHash = (\<lambda>sc tx ty amt. Ok (be_bytes 8 amt)),
      t_ListUnspent = (\<lambda>a i. if i < 2 then Err (ErrorString ''timeout'')
         else Ok [smallUtxo, exampleUtxo]),
      t_SendRawTransaction = (\<lambda>sent tx. Ok (zeros 32))\<rparr>"

definition exampleFlags :: flags where
  "exampleFlags =
     \<lparr>f_keyGen = False, f_listUtxo = False, f_dryRun = False, f_wif = ''wif'', f_contract = ''0xc0'', f_payer = ''0xa1'',
      f_payee = ''0xa2'', f_fileId = ''0xf1'', f_payTo = ''payee'', f_payAmt = F64 1 (- 1), f_minerFee = 400\<rparr>"

definition exampleSender :: "(unit, unit) Sender" where
  "exampleSender =
     \<lparr>s_from = Some (), s_wif = Some (), s_fee = 400, s_contractAddress = 0xc0 # zeros 19, s_payer = 0xa1 # zeros 19,
      s_payee = 0xa2 # zeros 19, s_fileID = 0xf1 # zeros 31, s_otherData = zeros 32, s_payTo = Some (), s_payAmt = F64 1 (- 1)\<rparr>"

definition exampleScript :: bytes where
  "exampleScript = egtx_script [0xc0 # zeros 19, 0xa1 # zeros 19, 0xa2 # zeros 19, 0xf1 # zeros 31, []]"

definition exampleTx :: MsgTx where
  "exampleTx =
     \<lparr>msg_Version = 2,
      msg_TxIn = [\<lparr>in_Hash = 7 # zeros 31, in_Index = 1,
        in_SignatureScript = [9, 0, 0, 0, 0, 5, 245, 225, 0, 65, 2, 2, 3], in_Sequence = 4294967295\<rparr>],
      msg_TxOut = [\<lparr>out_Value = 0, out_PkScript = exampleScript\<rparr>,
        \<lparr>out_Value = 50000000, out_PkScript = [118, 169]\<rparr>, \<lparr>out_Value = 49999600, out_PkScript = [118, 169]\<rparr>],
      msg_LockTime = 0\<rparr>"



text \<open>
  A lost reply makes the command submit twice: the first transaction may have reached the node, the
  command gets an error, and goes on with the next output.
\<close>

definition otherUtxo :: ListUnspentResult where
  "otherUtxo = exampleUtxo\<lparr>lu_Vout := 2\<rparr>"

definition lossyOps :: "(unit, unit) tx_ops" where
  "lossyOps = exampleOps
     \<lparr>t_ListUnspent := (\<lambda>a i. Ok [exampleUtxo, smallUtxo, otherUtxo]),
      t_SendRawTransaction := (\<lambda>submitted tx. if submitted = [] then Err (ErrorString ''timeout'') else Ok (zeros 32))\<rparr>"

definition otherTx :: MsgTx where
  "otherTx = exampleTx\<lparr>msg_TxIn := [(hd (msg_TxIn exampleTx))\<lparr>in_Index := 2\<rparr>]\<rparr>"

lemma lossy_run:
  "txbuilder_main ref_deps lossyOps (Ok ()) exampleFlags =
   Some (Ok [ErrorString ''timeout'', ErrorString ''unspent amount not enough''], [exampleTx, otherTx])"
proof -
  have "listUnspentUtxo lossyOps () 0 = Some (Ok [exampleUtxo, smallUtxo, otherUtxo])"
    using listUnspentUtxo_first [of lossyOps "()" 0 0] by (simp add: lossyOps_def)
  moreover have "setupSender lossyOps (Ok ()) exampleFlags = Ok exampleSender" by code_simp
  moreover have "sendLoop ref_deps lossyOps exampleSender False [] [exampleUtxo, smallUtxo, otherUtxo] =
      (Ok [ErrorString ''timeout'', ErrorString ''unspent amount not enough''], [exampleTx, otherTx])"
    by code_simp
  ultimately show ?thesis by (simp add: txbuilder_main_def exampleSender_def exampleFlags_def)
qed

theorem txbuilder_submits_egtxs_witness:
  "txbuilder_main ref_deps lossyOps (Ok ()) exampleFlags =
     Some (Ok [ErrorString ''timeout'', ErrorString ''unspent amount not enough''], [exampleTx, otherTx]) \<and>
   list_all (\<lambda>tx. ParseEGTXNullData ref_deps (hexEncodeToString (out_PkScript (hd (msg_TxOut tx)))) =
     Ok (copy_into (zeros 20) 0 20 [0xc0], [zeros 12 @ copy_into (zeros 20) 0 20 [0xa1], zeros 12 @ copy_into (zeros 20) 0 20 [0xa2],
         copy_into (zeros 32) 0 32 [0xf1]], [])) [exampleTx, otherTx] \<and>
   (\<exists>h. t_SendRawTransaction lossyOps [exampleTx] otherTx = Ok h)"
proof -
  have hex: "t_FromHex lossyOps (f_contract exampleFlags) = [0xc0]" "t_FromHex lossyOps (f_payer exampleFlags) = [0xa1]"
      "t_FromHex lossyOps (f_payee exampleFlags) = [0xa2]" "t_FromHex lossyOps (f_fileId exampleFlags) = [0xf1]"
    by code_simp+
  from txbuilder_submits_egtxs [OF script_lib_ref lossy_run] hex
  have "list_all (\<lambda>tx. ParseEGTXNullData ref_deps (hexEncodeToString (out_PkScript (hd (msg_TxOut tx)))) =
     Ok (copy_into (zeros 20) 0 20 [0xc0], [zeros 12 @ copy_into (zeros 20) 0 20 [0xa1], zeros 12 @ copy_into (zeros 20) 0 20 [0xa2],
         copy_into (zeros 32) 0 32 [0xf1]], [])) [exampleTx, otherTx]"
    by auto
  with lossy_run show ?thesis by (simp add: lossyOps_def)
qed


theorem listUnspentUtxo_returns_witness:
  "listUnspentUtxo exampleOps () 0 = Some (t_ListUnspent exampleOps () 2)"
  by (subst listUnspentUtxo_returns, rule exI [of _ 2]) (auto simp: exampleOps_def)

end
