(* ===== verification/Abi.thy ===== *)
theory Abi
  imports Backend
begin

text \<open>
  bch/abi.go: the two ABI descriptions of the log data, the one that packs it (\<open>a\<close>, a function) and
  the one that clients unpack it with (\<open>b\<close>, an event), and \<open>UnPackEGTXLog\<close>.  The encoder and the
  decoder of go-ethereum are parameters; the locale \<open>abi_codec\<close> states what the Solidity ABI promises
  of them.  What the source contributes is that both descriptions have the same argument types.
\<close>

section \<open>The descriptions\<close>

text \<open>An argument of the JSON description: name, type, components, internal type, indexed.\<close>

datatype abiArg = AbiArg (arg_name: string) (arg_type: string) (arg_components: "abiArg list")
  (arg_internalType: "string option") (arg_indexed: "bool option")

record abiEntry =
  abi_anonymous :: bool
  abi_inputs :: "abiArg list"
  abi_name :: string
  abi_kind :: string

definition uint256Component :: "string \<Rightarrow> abiArg" where
  "uint256Component name = AbiArg name ''uint256'' [] (Some ''uint256'') None"

definition tokenComponents :: "abiArg list" where
  "tokenComponents =
     [uint256Component ''addressAndTokenAmount'', uint256Component ''tokenCategory'',
      uint256Component ''nftCommitmentLengthAndHead'', uint256Component ''nftCommitmentTail'']"

definition abi_a :: abiEntry where
  "abi_a =
     \<lparr>abi_anonymous = True,
      abi_inputs =
        [AbiArg ''confirmations'' ''uint256'' [] (Some ''uint256'') (Some False),
         AbiArg ''outputs'' ''uint256[]'' [] (Some ''uint256[]'') (Some False),
         AbiArg ''inputs'' ''uint256[]'' [] (Some ''uint256[]'') (Some False),
         AbiArg ''outputTokenInfos'' ''tuple[]'' tokenComponents (Some ''struct TokenInfo[]'') None,
         AbiArg ''inputTokenInfos'' ''tuple[]'' tokenComponents (Some ''struct TokenInfo[]'') None,
         AbiArg ''otherData'' ''bytes[]'' [] (Some ''uint8[][]'') (Some False)],
      abi_name = ''EGTXLogData'', abi_kind = ''function''\<rparr>"

definition abi_b :: abiEntry where
  "abi_b =
     \<lparr>abi_anonymous = True,
      abi_inputs =
        [AbiArg ''confirmations'' ''uint256'' [] None None,
         AbiArg ''outputs'' ''uint256[]'' [] None None,
         AbiArg ''inputs'' ''uint256[]'' [] None None,
         AbiArg ''outputTokenInfos'' ''tuple[]'' tokenComponents (Some ''struct TokenInfo[]'') (Some False),
         AbiArg ''inputTokenInfos'' ''tuple[]'' tokenComponents (Some ''struct TokenInfo[]'') (Some False),
         AbiArg ''otherData'' ''bytes[]'' [] None None],
      abi_name = ''EGTXLogData'', abi_kind = ''event''\<rparr>"

section \<open>Types and values\<close>

datatype abiType = TUint256 | TBytes | TArray abiType | TTuple "abiType list"

datatype abiVal = VUint int | VBytes bytes | VArray "abiVal list" | VTuple "abiVal list"

text \<open>Number of array suffixes, and the type without them, of a reversed type name.\<close>

fun suffixes :: "string \<Rightarrow> nat \<times> string" where
  "suffixes (CHR '']'' # CHR ''['' # s) = (case suffixes s of (n, b) \<Rightarrow> (Suc n, b))"
| "suffixes s = (0, rev s)"

definition collect :: "'a option list \<Rightarrow> 'a list option" where
  "collect xs = (if None \<in> set xs then None else Some (map the xs))"

text \<open>The type of an argument, as far as the descriptions use the types of Solidity.\<close>

fun argType :: "abiArg \<Rightarrow> abiType option" where
  "argType (AbiArg name ty comps it ind) =
     (case suffixes (rev ty) of
        (n, b) \<Rightarrow>
          map_option (TArray ^^ n)
            (if b = ''uint256'' then Some TUint256
             else if b = ''bytes'' then Some TBytes
             else if b = ''tuple'' then map_option TTuple (collect (map argType comps))
             else None))"

definition entryTypes :: "abiEntry \<Rightarrow> abiType list option" where
  "entryTypes e = collect (map argType (abi_inputs e))"

fun hasType :: "abiType \<Rightarrow> abiVal \<Rightarrow> bool" where
  "hasType TUint256 (VUint n) = is_u256 n"
| "hasType TBytes (VBytes b) = True"
| "hasType (TArray t) (VArray vs) = list_all (hasType t) vs"
| "hasType (TTuple ts) (VTuple vs) = list_all2 hasType ts vs"
| "hasType _ _ = False"

lemma hasType_VUint [simp]: "hasType t (VUint c) \<longleftrightarrow> t = TUint256 \<and> is_u256 c"
  by (cases t) auto

section \<open>Packing and unpacking\<close>

definition tokenVal :: "TokenInfo \<Rightarrow> abiVal" where
  "tokenVal t = VTuple [VUint (AddressAndTokenAmount t), VUint (TokenCategory t), VUint (NftCommitmentLengthAndHead t),
     VUint (NftCommitmentTail t)]"

definition logArgs :: "int \<Rightarrow> int list \<Rightarrow> int list \<Rightarrow> TokenInfo list \<Rightarrow> TokenInfo list \<Rightarrow> bytes list \<Rightarrow> abiVal list" where
  "logArgs confirmations outputs inputs outputTokenInfos inputTokenInfos otherData =
     [VUint confirmations, VArray (map VUint outputs), VArray (map VUint inputs), VArray (map tokenVal outputTokenInfos),
      VArray (map tokenVal inputTokenInfos), VArray (map VBytes otherData)]"

definition UnPackEGTXLog :: "(abiEntry \<Rightarrow> bytes \<Rightarrow> abiVal list outcome) \<Rightarrow> bytes \<Rightarrow> abiVal list outcome" where
  "UnPackEGTXLog Unpack data = Unpack abi_b data"

text \<open>
  The ABI: a call of a function is a selector of 4 bytes and the encoding of the arguments, the data of
  an event is the encoding of its arguments that are not indexed, and decoding inverts encoding.
\<close>

locale abi_codec = abi_lib D for D :: deps +
  fixes Pack :: "abiEntry \<Rightarrow> abiVal list \<Rightarrow> bytes outcome"
    and Unpack :: "abiEntry \<Rightarrow> bytes \<Rightarrow> abiVal list outcome"
  assumes pack_a: "d_AbiPack D c outs ins otoks itoks other = Pack abi_a (logArgs c outs ins otoks itoks other)"
    and codec: "abi_kind e = ''function'' \<Longrightarrow> abi_kind e' = ''event'' \<Longrightarrow>
      list_all (\<lambda>a. arg_indexed a \<noteq> Some True) (abi_inputs e') \<Longrightarrow>
      entryTypes e = Some ts \<Longrightarrow> entryTypes e' = Some ts \<Longrightarrow> list_all2 hasType ts vs \<Longrightarrow>
      \<exists>sel bs. length sel = 4 \<and> Pack e vs = Ok (sel @ bs) \<and> Unpack e' bs = Ok vs"

lemma types_a: "entryTypes abi_a = Some [TUint256, TArray TUint256, TArray TUint256,
    TArray (TTuple [TUint256, TUint256, TUint256, TUint256]), TArray (TTuple [TUint256, TUint256, TUint256, TUint256]), TArray TBytes]"
  by code_simp

lemma types_b: "entryTypes abi_b = entryTypes abi_a"
  by code_simp

lemma kinds: "abi_kind abi_a = ''function''" "abi_kind abi_b = ''event''"
  "list_all (\<lambda>a. arg_indexed a \<noteq> Some True) (abi_inputs abi_b)"
  by (simp_all add: abi_a_def abi_b_def)

lemma logArgs_typed:
  assumes "entryTypes abi_a = Some ts" and "is_u256 c" and "args_ok outs ins otoks itoks"
  shows "list_all2 hasType ts (logArgs c outs ins otoks itoks other)"
  using assms by (auto simp: types_a logArgs_def args_ok_def list_all_length tokenVal_def token_ok_def)

context abi_codec
begin

lemma unpack_pack:
  assumes "is_u256 c" and "args_ok outs ins otoks itoks"
  obtains data where "PackEGTXLogDataEvent D c outs ins otoks itoks other = Ok data"
    "UnPackEGTXLog Unpack data = Ok (logArgs c outs ins otoks itoks other)"
proof -
  obtain ts where ts: "entryTypes abi_a = Some ts" using types_a by blast
  then have tb: "entryTypes abi_b = Some ts" using types_b by simp
  from codec [OF kinds ts tb logArgs_typed [OF ts assms, of other]]
  obtain sel bs where "length sel = 4" "Pack abi_a (logArgs c outs ins otoks itoks other) = Ok (sel @ bs)"
      "Unpack abi_b bs = Ok (logArgs c outs ins otoks itoks other)"
    by blast
  then show ?thesis by (intro that [of bs]) (simp_all add: PackEGTXLogDataEvent_def pack_a UnPackEGTXLog_def)
qed

end

section \<open>What a client reads\<close>

lemma built_log_unpacks:
  assumes "abi_codec D Pack Unpack" and u: "uint256_lib (d_u256 D)"
    and "list_all (\<lambda>x. length x = 32) outs" and "list_all (\<lambda>x. length x = 32) ins"
    and "list_all token_ok otoks" and "list_all token_ok itoks"
  obtains data where "BuildLogData D c outs ins otoks itoks other = Ok data"
    "UnPackEGTXLog Unpack data = Ok (logArgs (uint c) (map be_val outs) (map be_val ins) otoks itoks other)"
proof -
  have n: "map (\<lambda>x. uint (u_SetBytes32 (d_u256 D) x)) xs = map be_val xs" if "list_all (\<lambda>x. length x = 32) xs" for xs
    using that by (auto simp: list_all_iff uint256_lib.SetBytes32_law [OF u])
  have "args_ok (map be_val outs) (map be_val ins) otoks itoks"
    using assms(3-6) by (auto simp: args_ok_def list_all_iff be_val_u256)
  moreover have "is_u256 (uint c)" using uint_lt2p [of c] by (simp add: is_u256_def)
  ultimately obtain data where "PackEGTXLogDataEvent D (uint c) (map be_val outs) (map be_val ins) otoks itoks other = Ok data"
      "UnPackEGTXLog Unpack data = Ok (logArgs (uint c) (map be_val outs) (map be_val ins) otoks itoks other)"
    using abi_codec.unpack_pack [OF assms(1)] by metis
  then show ?thesis
    by (intro that) (simp_all add: BuildLogData_def Let_def uint256_lib.ToBig_law [OF u] n [OF assms(3)] n [OF assms(4)])
qed

text \<open>
  C16: A client that unpacks a delivered log gets what the scanner packed, with the confirmations of
  today.  For a log whose data the scanner built from the receivers \<open>outs\<close>, the senders \<open>ins\<close>, the
  tokens and the other data, \<open>UnPackEGTXLog\<close> on the refreshed log gives the confirmations the node
  reports now (the largest number if it does not know the transaction) and these values, in order.
\<close>

theorem client_unpacks_log:
  assumes codec: "abi_codec D Pack Unpack" and u: "uint256_lib (d_u256 D)" and "txid_lib D" and "length h = 32"
    and "\<And>e. GetRawTransactionVerbose C (rev h) \<noteq> Panic e"
    and "list_all (\<lambda>x. length x = 32) outs" and "list_all (\<lambda>x. length x = 32) ins"
    and "list_all token_ok otoks" and "list_all token_ok itoks"
    and "BuildLogData D c0 outs ins otoks itoks other = Ok (log_Data l)"
  shows "\<exists>l'. refreshLog D (bchScanner D pick C) v h l = Ok l' \<and>
    UnPackEGTXLog Unpack (log_Data l') =
      Ok (logArgs (confirmationsValue (reported C (rev h))) (map be_val outs) (map be_val ins) otoks itoks other)"
proof -
  have abi: "abi_lib D" using codec by (simp add: abi_codec_def)
  obtain rest where rest: "\<And>c. BuildLogData D c outs ins otoks itoks other = Ok (be_bytes 32 (uint c) @ rest)"
    using BuildLogData_head [OF u abi assms(6-9)] by metis
  let ?c = "confirmationsValue (reported C (rev h))"
  obtain data where "BuildLogData D (word_of_int ?c) outs ins otoks itoks other = Ok data"
      "UnPackEGTXLog Unpack data = Ok (logArgs (uint (word_of_int ?c :: uint256)) (map be_val outs) (map be_val ins) otoks itoks other)"
    by (rule built_log_unpacks [OF codec u assms(6-9)])
  then have "UnPackEGTXLog Unpack (be_bytes 32 ?c @ rest) = Ok (logArgs ?c (map be_val outs) (map be_val ins) otoks itoks other)"
    using rest [of "word_of_int ?c"] confirmationsValue_uint by simp
  moreover have "log_Data (currentLog C h l) = be_bytes 32 ?c @ rest"
    using rest [of c0] assms(10) by (simp add: currentLog_def)
  ultimately show ?thesis using refreshLog_current [OF u assms(3-5), of pick v l] by auto
qed

section \<open>A typed codec\<close>

text \<open>A decoder reads the elements of a list one by one.\<close>

fun dec_seq :: "'a dec list \<Rightarrow> 'a list dec" where
  "dec_seq [] = ret_dec []"
| "dec_seq (d # ds) = bind_dec d (\<lambda>x. bind_dec (dec_seq ds) (\<lambda>xs. ret_dec (x # xs)))"

fun enc_val :: "abiVal \<Rightarrow> bytes" where
  "enc_val (VUint n) = enc_int n"
| "enc_val (VBytes b) = enc_bytes b"
| "enc_val (VArray vs) = enc_nat (length vs) @ concat (map enc_val vs)"
| "enc_val (VTuple vs) = concat (map enc_val vs)"

fun dec_val :: "abiType \<Rightarrow> abiVal dec" where
  "dec_val TUint256 = bind_dec dec_int (\<lambda>n. ret_dec (VUint n))"
| "dec_val TBytes = bind_dec dec_bytes (\<lambda>b. ret_dec (VBytes b))"
| "dec_val (TArray t) = bind_dec dec_nat (\<lambda>n. bind_dec (dec_seq (replicate n (dec_val t))) (\<lambda>vs. ret_dec (VArray vs)))"
| "dec_val (TTuple ts) = bind_dec (dec_seq (map dec_val ts)) (\<lambda>vs. ret_dec (VTuple vs))"

lemma dec_seq_concat:
  "list_all2 (\<lambda>d x. \<forall>rest. d (enc x @ rest) = Some (x, rest)) ds xs \<Longrightarrow>
   dec_seq ds (concat (map enc xs) @ rest) = Some (xs, rest)"
  by (induction ds xs arbitrary: rest rule: list_all2_induct) (simp_all add: ret_dec_def bind_dec_def)

lemma dec_val_enc: "hasType t v \<Longrightarrow> dec_val t (enc_val v @ rest) = Some (v, rest)"
proof (induction t v arbitrary: rest rule: hasType.induct)
  case (1 n)
  then show ?case by (simp add: bind_dec_enc [OF decodes_int] ret_dec_def)
next
  case (2 b)
  then show ?case by (simp add: bind_dec_enc [OF decodes_bytes] ret_dec_def)
next
  case (3 t vs)
  then have "list_all2 (\<lambda>d x. \<forall>rest. d (enc_val x @ rest) = Some (x, rest)) (replicate (length vs) (dec_val t)) vs"
    by (auto simp: list_all2_conv_all_nth list_all_length)
  from dec_seq_concat [OF this] show ?case
    by (simp add: bind_dec_enc [OF decodes_nat]) (simp add: bind_dec_def ret_dec_def)
next
  case (4 ts vs)
  then have "list_all2 (\<lambda>d x. \<forall>rest. d (enc_val x @ rest) = Some (x, rest)) (map dec_val ts) vs"
    by (auto simp: list_all2_conv_all_nth)
  from dec_seq_concat [OF this] show ?case by (simp add: bind_dec_def ret_dec_def)
qed simp_all

text \<open>An argument of static type comes first and in 32 bytes, the others are self-delimiting.\<close>

definition typedPack :: "abiEntry \<Rightarrow> abiVal list \<Rightarrow> bytes outcome" where
  "typedPack e vs =
     Ok ([0xde, 0xad, 0xbe, 0xef] @
       (case vs of VUint c # vs' \<Rightarrow> be_bytes 32 c @ concat (map enc_val vs') | _ \<Rightarrow> concat (map enc_val vs)))"

definition typedUnpack :: "abiEntry \<Rightarrow> bytes \<Rightarrow> abiVal list outcome" where
  "typedUnpack e bs =
     (case entryTypes e of
        Some (TUint256 # ts) \<Rightarrow>
          (case dec_seq (map dec_val ts) (drop 32 bs) of
             Some (vs, _) \<Rightarrow> Ok (VUint (be_val (take 32 bs)) # vs)
           | None \<Rightarrow> Err (ErrorString ''abi''))
      | Some ts \<Rightarrow> (case dec_seq (map dec_val ts) bs of Some (vs, _) \<Rightarrow> Ok vs | None \<Rightarrow> Err (ErrorString ''abi''))
      | None \<Rightarrow> Err (ErrorString ''abi''))"

definition typed_deps :: deps where
  "typed_deps = ref_deps\<lparr>d_AbiPack := (\<lambda>c outs ins otoks itoks other. typedPack abi_a (logArgs c outs ins otoks itoks other))\<rparr>"

lemma dec_vals_enc: "list_all2 hasType ts vs \<Longrightarrow> dec_seq (map dec_val ts) (concat (map enc_val vs)) = Some (vs, [])"
  using dec_seq_concat [of enc_val "map dec_val ts" vs "[]"] dec_val_enc
  by (auto simp: list_all2_conv_all_nth)

interpretation typed_abi: abi_codec typed_deps typedPack typedUnpack
proof unfold_locales
  fix outs ins otoks itoks other c
  show "d_AbiPack typed_deps c outs ins otoks itoks other = typedPack abi_a (logArgs c outs ins otoks itoks other)"
    by (simp add: typed_deps_def)
  show "\<exists>sel rest. length sel = 4 \<and>
      (\<forall>c. is_u256 c \<longrightarrow> d_AbiPack typed_deps c outs ins otoks itoks other = Ok (sel @ be_bytes 32 c @ rest))"
    by (rule exI [of _ "[0xde, 0xad, 0xbe, 0xef]"]) (auto simp: typed_deps_def typedPack_def logArgs_def)
next
  fix e e' ts vs
  assume t: "entryTypes e' = Some ts" "list_all2 hasType ts vs"
  show "\<exists>sel bs. length sel = 4 \<and> typedPack e vs = Ok (sel @ bs) \<and> typedUnpack e' bs = Ok vs"
  proof (cases "\<exists>ts'. ts = TUint256 # ts'")
    case True
    then obtain ts' where ts: "ts = TUint256 # ts'" by blast
    with t obtain v vs' where vs: "vs = v # vs'" "hasType TUint256 v" "list_all2 hasType ts' vs'" by (auto simp: list_all2_Cons1)
    then obtain c where c: "v = VUint c" "is_u256 c" by (cases v) auto
    then have "be_val (be_bytes 32 c) = c" by (simp add: be_val_be_bytes is_u256_def)
    with t(1) ts vs c show ?thesis
      by (intro exI [of _ "[0xde, 0xad, 0xbe, 0xef]"] exI [of _ "be_bytes 32 c @ concat (map enc_val vs')"] conjI)
        (simp_all add: typedPack_def typedUnpack_def dec_vals_enc)
  next
    case False
    then have "\<not> (\<exists>c vs'. vs = VUint c # vs')" using t(2) by (auto simp: list_all2_Cons2)
    then have "(case vs of VUint c # vs' \<Rightarrow> be_bytes 32 c @ concat (map enc_val vs') | _ \<Rightarrow> concat (map enc_val vs)) = concat (map enc_val vs)"
      by (auto split: list.splits abiVal.splits)
    moreover have "typedUnpack e' (concat (map enc_val vs)) = Ok vs"
      using False t dec_vals_enc [OF t(2)] by (auto simp: typedUnpack_def split: list.splits abiType.splits)
    ultimately show ?thesis
      by (intro exI [of _ "[0xde, 0xad, 0xbe, 0xef]"] exI [of _ "concat (map enc_val vs)"] conjI) (simp_all add: typedPack_def)
  qed
qed

lemma txid_typed: "txid_lib typed_deps"
  using ref_txid.txid_lib_axioms by (simp add: txid_lib_def typed_deps_def)

lemma uint256_typed: "uint256_lib (d_u256 typed_deps)"
  using uint256_lib_ref by (simp add: typed_deps_def)

theorem client_unpacks_log_witness:
  "\<exists>l'. refreshLog typed_deps (bchScanner typed_deps exPick exNode) exChain0 (replicate 32 9)
      \<lparr>log_Address = zeros 20, log_Topics = [], log_Data = be_bytes 32 0 @ concat (map enc_val (tl (logArgs 0 [5] [] [] [] [[7]]))),
       log_BlockNumber = 1, log_TxHash = replicate 32 9, log_TxIndex = 0, log_BlockHash = zeros 32\<rparr> = Ok l' \<and>
    UnPackEGTXLog typedUnpack (log_Data l') =
      Ok (logArgs (confirmationsValue (reported exNode (replicate 32 9))) [5] [] [] [] [[7]])"
proof -
  have five: "be_val (zeros 31 @ [5]) = 5" by simp
  have built: "BuildLogData typed_deps 0 [zeros 31 @ [5]] [] [] [] [[7]] =
      Ok (be_bytes 32 0 @ concat (map enc_val (tl (logArgs 0 [5] [] [] [] [[7]]))))"
    by (simp add: BuildLogData_def PackEGTXLogDataEvent_def typed_deps_def typedPack_def logArgs_def)
      (simp add: ref_deps_def w256.ToBig_law w256.SetBytes32_law)
  let ?l = "\<lparr>log_Address = zeros 20, log_Topics = [], log_Data = be_bytes 32 0 @ concat (map enc_val (tl (logArgs 0 [5] [] [] [] [[7]]))),
       log_BlockNumber = 1, log_TxHash = replicate 32 9, log_TxIndex = 0, log_BlockHash = zeros 32\<rparr>"
  show ?thesis
    using client_unpacks_log [OF typed_abi.abi_codec_axioms uint256_typed txid_typed, of "replicate 32 9" exNode "[zeros 31 @ [5]]" "[]" "[]" "[]" 0 "[[7]]" ?l
        exPick exChain0] built exNode_no_panic five
    by simp
qed

end
