(* ===== verification/End_To_End.thy ===== *)
theory End_To_End
  imports Eth_Api Filter_Api
begin

text \<open>
  From the main chain to the client.  The first half shows where the stored transactions come from:
  each one is the conversion of a transaction that a node served in a block or in its mempool.  The
  second half follows an EGTX of a scanned block through scanner, chain, store, backend and filter
  API to the answer of \<open>eth_getLogs\<close>.
\<close>

section \<open>Where transactions come from\<close>

definition servedTx :: "BchClient \<Rightarrow> TxRawResult \<Rightarrow> bool" where
  "servedTx C tx \<longleftrightarrow> (\<exists>h. tx \<in> set (blockTxs C h)) \<or>
     (\<exists>h hs. GetRawMempool C = Ok hs \<and> h \<in> set hs \<and> GetRawTransactionVerbose C h = Ok tx)"

definition derivedIn :: "deps \<Rightarrow> ModbBlock \<Rightarrow> ModbTx \<Rightarrow> bool" where
  "derivedIn D b t \<longleftrightarrow> (\<exists>C tx i. nodeOk D C \<and> servedTx C tx \<and>
     convertUtxoInfoToTx D C tx i (mblk_Height b) (mblk_BlockHash b) = Ok t)"

lemma GetNewTxs_served:
  assumes "GetNewTxs D pick C isTxMined height hash scanBlock b = Ok (txs, b')" and "t \<in> set txs"
  shows "\<exists>tx i. servedTx C tx \<and> convertUtxoInfoToTx D C tx i height hash = Ok t"
  using assms(1)
proof (rule GetNewTxs_parts)
  fix blk b1
  assume blk: "blk = derive D C (skipTx b isTxMined) height hash 0
       (chainTxs C (bs_LatestScanBlockHeight b + 1) (bs_LatestScanBlockHeight b1))"
    and r: "bs_MaxTxsInBlock b \<le> int (length blk) \<and> txs = blk \<and> b' = b1 \<or>
     int (length blk) < bs_MaxTxsInBlock b \<and>
       (\<exists>hs. GetRawMempool C = Ok hs \<and>
         mempoolLoop D pick C isTxMined (int (length blk)) height hash hs (blk, b1) = Ok (txs, b'))"
  show ?thesis
  proof (cases "t \<in> set blk")
    case True
    with derive_convert blk obtain tx i where
      "tx \<in> set (chainTxs C (bs_LatestScanBlockHeight b + 1) (bs_LatestScanBlockHeight b1))"
      "convertUtxoInfoToTx D C tx i height hash = Ok t" by metis
    then show ?thesis by (auto simp: servedTx_def chainTxs_def)
  next
    case False
    with r assms(2) obtain hs where hs: "GetRawMempool C = Ok hs"
      and l: "mempoolLoop D pick C isTxMined (int (length blk)) height hash hs (blk, b1) = Ok (txs, b')" by auto
    from mempoolLoop_sound [OF l] obtain new where "txs = blk @ new" and new: "\<forall>m \<in> set new. \<exists>h \<in> set hs. \<exists>tx.
        \<not> isTxMined (d_HashString D h) \<and> GetRawTransactionVerbose C h = Ok tx \<and>
        convertUtxoInfoToTx D C tx (int (length blk)) height hash = Ok m" by blast
    with False assms(2) have "t \<in> set new" by simp
    with new obtain h tx where "h \<in> set hs" "GetRawTransactionVerbose C h = Ok tx"
      "convertUtxoInfoToTx D C tx (int (length blk)) height hash = Ok t" by blast
    with hs show ?thesis unfolding servedTx_def by blast
  qed
qed

text \<open>A round keeps that all transactions are derived; recovery does not touch the store.\<close>

lemma generate_derived:
  assumes "modb_lib M blocks" and "I \<in> bchScanners D"
    and g: "GenerateNewBlock D E I (ChainLogDB D M) now scanBlock v = Ok v'"
    and "list_all (\<lambda>b. list_all (derivedIn D b) (mblk_TxList b)) (blocks (vc_Store v))"
  shows "list_all (\<lambda>b. list_all (derivedIn D b) (mblk_TxList b)) (blocks (vc_Store v'))"
  using g
proof (cases rule: GenerateNewBlock_cases)
  case (block txs s info blk)
  from assms(2) obtain pick C where I: "I = bchScanner D pick C" and C: "nodeOk D C" by (auto simp: bchScanners_def)
  have "list_all (derivedIn D blk) txs"
    unfolding list_all_iff derivedIn_def using GetNewTxs_served [OF block(1) [unfolded I bchScanner_def, simplified]] C
    by (fastforce simp: block(4))
  moreover have "blocks (vc_Store v') = blocks (vc_Store v) @ [blk]"
    using istore.add_block [OF chainlogdb_istore [OF assms(1)]] by (simp add: block(5))
  ultimately show ?thesis using assms(4) by (simp add: block(4))
qed (use assms(4) in simp)

lemma recovery_store: "RecoveryFromDB I S now v = Ok v' \<Longrightarrow> vc_Store v' = vc_Store v"
  by (auto simp: RecoveryFromDB_def Let_def split: outcome.splits)

lemma reachable_derived:
  assumes "reachable D E (bchScanners D) (ChainLogDB D M) v0 v" and "modb_lib M blocks"
    and "blocks (vc_Store v0) = []"
  shows "list_all (\<lambda>b. list_all (derivedIn D b) (mblk_TxList b)) (blocks (vc_Store v))"
  using assms(1)
proof induction
  case (boot I now v)
  then show ?case using assms(3) recovery_store by fastforce
next
  case (generate v I now scanBlock v')
  then show ?case using generate_derived [OF assms(2)] by blast
next
  case (restart v I now s v')
  then show ?case using recovery_store [OF restart.hyps(3)] by simp
qed

section \<open>From the block to the store\<close>

text \<open>Where \<open>derive_covers\<close> finds the hash, this finds the conversion of the very transaction.\<close>

lemma derive_finds:
  assumes "tx \<in> set txs" and "\<not> skip tx" and "\<And>i. \<exists>m. convertUtxoInfoToTx D C tx i height hash = Ok m"
  shows "\<exists>m \<in> set (derive D C skip height hash i txs). \<exists>j. convertUtxoInfoToTx D C tx j height hash = Ok m"
proof -
  from split_list [OF assms(1)] obtain xs ys where txs: "txs = xs @ tx # ys" by blast
  let ?j = "i + int (length (derive D C skip height hash i xs))"
  obtain m where m: "convertUtxoInfoToTx D C tx ?j height hash = Ok m" using assms(3) by blast
  then have "m \<in> set (derive D C skip height hash i txs)"
    using assms(2) by (simp add: txs derive_append ok_option_def)
  with m show ?thesis by blast
qed

lemma GetNewTxs_finds:
  assumes "GetNewTxs D pick C isTxMined height hash True b = Ok (txs, b')"
    and "tx \<in> set (chainTxs C (bs_LatestScanBlockHeight b + 1) (bs_LatestScanBlockHeight b'))"
    and "\<not> skipTx b isTxMined tx" and "\<And>i. \<exists>m. convertUtxoInfoToTx D C tx i height hash = Ok m"
  shows "\<exists>m \<in> set txs. \<exists>j. convertUtxoInfoToTx D C tx j height hash = Ok m"
  using assms(1)
proof (rule GetNewTxs_parts)
  fix blk b1
  assume blk: "blk = derive D C (skipTx b isTxMined) height hash 0
       (chainTxs C (bs_LatestScanBlockHeight b + 1) (bs_LatestScanBlockHeight b1))"
    and r: "bs_MaxTxsInBlock b \<le> int (length blk) \<and> txs = blk \<and> b' = b1 \<or>
     int (length blk) < bs_MaxTxsInBlock b \<and>
       (\<exists>hs. GetRawMempool C = Ok hs \<and>
         mempoolLoop D pick C isTxMined (int (length blk)) height hash hs (blk, b1) = Ok (txs, b'))"
  have "bs_LatestScanBlockHeight b' = bs_LatestScanBlockHeight b1" using r mempoolLoop_frame by blast
  with assms(2) have "tx \<in> set (chainTxs C (bs_LatestScanBlockHeight b + 1) (bs_LatestScanBlockHeight b1))" by simp
  from derive_finds [where skip = "skipTx b isTxMined" and i = 0, OF this assms(3,4)] blk
  have "\<exists>m \<in> set blk. \<exists>j. convertUtxoInfoToTx D C tx j height hash = Ok m" by simp
  moreover have "set blk \<subseteq> set txs" using r mempoolLoop_sound by fastforce
  ultimately show ?thesis by blast
qed

text \<open>After a scanning round, a new EGTX of a scanned block is in the block at the chain's height.\<close>

lemma scanned_egtx_stored:
  assumes "modb_lib M blocks"
    and g: "GenerateNewBlock D E (bchScanner D pick C) (ChainLogDB D M) now True v = Ok v'"
    and tx: "tx \<in> set (chainTxs C (bs_LatestScanBlockHeight (vc_Scanner v) + 1) (bs_LatestScanBlockHeight (vc_Scanner v')))"
    and der: "\<And>i height hash. \<exists>m. convertUtxoInfoToTx D C tx i height hash = Ok m"
    and unknown: "\<not> isKnownTx (raw_Txid tx) (vc_Scanner v)"
    and fresh: "IsTxMined D M (raw_Txid tx) (vc_Store v) \<noteq> Ok True"
  obtains b m i where "b \<in> set (blocks (vc_Store v'))" "m \<in> set (mblk_TxList b)"
    "mblk_Height b = vc_CurrentBlockHeight v'" "mblk_BlockHash b = vc_CurrentBlockHash v'"
    "convertUtxoInfoToTx D C tx i (vc_CurrentBlockHeight v') (vc_CurrentBlockHash v') = Ok m"
  using g
proof (cases rule: GenerateNewBlock_cases)
  case (block txs s info blk)
  let ?mined = "\<lambda>txid. IsTxMined D M txid (vc_Store v) = Ok True"
  have n: "GetNewTxs D pick C ?mined (vc_CurrentBlockHeight v + 1)
     (blockHash (vc_ChainName v) (vc_CurrentBlockHeight v)) True (vc_Scanner v) = Ok (txs, s)"
    using block(1) by (simp add: bchScanner_def)
  have "tx \<in> set (chainTxs C (bs_LatestScanBlockHeight (vc_Scanner v) + 1) (bs_LatestScanBlockHeight s))"
    using tx by (simp add: block(5))
  from GetNewTxs_finds [OF n this _ der] unknown fresh obtain m j where m: "m \<in> set txs"
    "convertUtxoInfoToTx D C tx j (vc_CurrentBlockHeight v + 1) (blockHash (vc_ChainName v) (vc_CurrentBlockHeight v)) = Ok m"
    by (auto simp: skipTx_def)
  have "blocks (vc_Store v') = blocks (vc_Store v) @ [blk]"
    using istore.add_block [OF chainlogdb_istore [OF assms(1)]] by (simp add: block(5))
  then show ?thesis using that [of blk m j] m by (simp add: block(4,5))
qed simp

section \<open>From the store to the client\<close>

text \<open>The only log of a stored transaction, and what it packs.\<close>

lemma converted_log:
  assumes lib: "codec_lib D" and conv: "convertUtxoInfoToTx D C tx i height hash = Ok m"
    and vs: "raw_Vout tx = v0 # rest"
    and p: "ParseEGTXNullData D (vhex v0) = Ok (ca, ts, od)"
  obtains data spent where "map (spentOutput D C) (raw_Vin tx) = map Some spent"
    "BuildLogData D (u_NewInt (d_u256 D) 0) (map (receiver D) (filter p2 (raw_Vout tx))) (map (receiver D) spent)
       (List.map_filter (outToken D) (filter p2 (raw_Vout tx))) (List.map_filter (outToken D) spent)
       (od @ concat (map (otherElements D) (drop 1 rest))) = Ok data"
    "etx_Logs (decodedTx D m) = [\<lparr>log_Address = ca, log_Topics = ts, log_Data = data, log_BlockNumber = as_u64 height,
       log_TxHash = d_HexToHash D (raw_Txid tx), log_TxIndex = as_u64 i, log_BlockHash = hash\<rparr>]"
  using conv vs
proof (rule convert_closed)
  fix ca' ts' od' data spent
  assume p': "ParseEGTXNullData D (vhex v0) = Ok (ca', ts', od')"
    and d: "BuildLogData D (u_NewInt (d_u256 D) 0) (map (receiver D) (filter p2 (raw_Vout tx))) (map (receiver D) spent)
       (List.map_filter (outToken D) (filter p2 (raw_Vout tx))) (List.map_filter (outToken D) spent)
       (od' @ concat (map (otherElements D) (drop 1 rest))) = Ok data"
    and m: "d_MarshalTx D (evmTxOf (mtx_HashId m) i height hash (mtx_SrcAddr m) (mtx_DstAddr m) ca' ts' data) = Ok (mtx_Content m)"
      "mtx_HashId m = d_HexToHash D (raw_Txid tx)"
    and sp: "map (spentOutput D C) (raw_Vin tx) = map Some spent"
  have e: "ca' = ca" "ts' = ts" "od' = od" using p p' by simp_all
  have "decodedTx D m = evmTxOf (mtx_HashId m) i height hash (mtx_SrcAddr m) (mtx_DstAddr m) ca ts data"
    using codec_lib.tx_decode [OF lib m(1)] by (simp add: decodedTx_def e)
  then show thesis using that [OF sp d [unfolded e]] m(2) by (simp add: evmTxOf_def)
qed

text \<open>Logs keep the hash of their transaction, in every reachable state.\<close>

lemma derivedIn_log_hash:
  assumes lib: "codec_lib D" and t: "txid_lib D" and d: "derivedIn D b m" and l: "l \<in> set (etx_Logs (decodedTx D m))"
  shows "length (log_TxHash l) = 32"
proof -
  from d obtain C tx i where conv: "convertUtxoInfoToTx D C tx i (mblk_Height b) (mblk_BlockHash b) = Ok m"
    by (auto simp: derivedIn_def)
  then obtain ca ts data where
    "d_MarshalTx D (evmTxOf (d_HexToHash D (raw_Txid tx)) i (mblk_Height b) (mblk_BlockHash b)
       (mtx_SrcAddr m) (mtx_DstAddr m) ca ts data) = Ok (mtx_Content m)"
    by (elim convert_Ok) auto
  then have "log_TxHash l = d_HexToHash D (raw_Txid tx)"
    using codec_lib.tx_decode [OF lib] l by (auto simp: decodedTx_def evmTxOf_def)
  then show ?thesis using txid_lib.hex_to_hash_length [OF t] by simp
qed

text \<open>\<open>GetLogs\<close> with addresses or topics, on a range of block numbers.\<close>

lemma GetLogs_query:
  assumes "modb_lib M blocks" and "list_all (storable D) (blocks (vc_Store v))"
    and "uint256_lib (d_u256 D)" and "txid_lib D" and "\<And>h e. GetRawTransactionVerbose C h \<noteq> Panic e"
    and crit: "crit_BlockHash crit = None" "crit_FromBlock crit = Some b" "crit_ToBlock crit = Some e"
      "crit_Addresses crit \<noteq> [] \<or> crit_Topics crit \<noteq> []" "0 \<le> b" "0 \<le> e" "b < 2 ^ 32" "e + 1 < 2 ^ 32"
    and db: "None \<notin> set (fst (modb_QueryLogs M (crit_Addresses crit) (crit_Topics crit) b (e + 1) (vc_Store v)))"
      "snd (modb_QueryLogs M (crit_Addresses crit) (crit_Topics crit) b (e + 1) (vc_Store v)) = None"
    and hashes: "list_all (\<lambda>m. list_all (\<lambda>l. length (log_TxHash l) = 32) (etx_Logs (decodedTx D m))) (allTxs (blocks (vc_Store v)))"
  shows "\<exists>logs. GetLogs latest G (NewBackend D (bchScanner D pick C) (ChainLogDB D M) v) now crit =
      Ok (G (map (\<lambda>l. currentLog C (log_TxHash l) l) logs)) \<and>
    set logs = {l. wanted (crit_Addresses crit) (crit_Topics crit) (log_Address l) (log_Topics l) \<and>
      (\<exists>m \<in> set (txsBetween b (e + 1) (blocks (vc_Store v))). l \<in> set (etx_Logs (decodedTx D m)))}"
proof -
  have i: "as_i64 n = n" "as_u32 n = n" if "0 \<le> n" "n < 2 ^ 32" for n using that by (simp_all add: as_i64_def as_u32_def)
  have u: "as_i64 b = b" "as_i64 e = e" "as_u32 b = b" "as_u32 (e + 1) = e + 1" using i [of b] i [of e] i [of "e + 1"] crit by simp_all
  obtain logs where q: "bk_QueryLogs (NewBackend D (bchScanner D pick C) (ChainLogDB D M) v) (crit_Addresses crit) (crit_Topics crit)
      b (e + 1) filterFunc = Ok (map (\<lambda>l. currentLog C (log_TxHash l) l) logs, None)"
    and s: "set logs = {l. wanted (crit_Addresses crit) (crit_Topics crit) (log_Address l) (log_Topics l) \<and>
      (\<exists>m \<in> set (txsBetween b (e + 1) (blocks (vc_Store v))). l \<in> set (etx_Logs (decodedTx D m)))}"
    using backend_QueryLogs_current [OF assms(1-5) db, where pick = pick] hashes by (auto simp: list_all_iff)
  have "GetLogs latest G (NewBackend D (bchScanner D pick C) (ChainLogDB D M) v) now crit =
      Ok (G (map (\<lambda>l. currentLog C (log_TxHash l) l) logs))"
    using crit q by (auto simp: GetLogs_def queryRange_def resolveHeight_def u)
  with s show ?thesis by blast
qed

text \<open>So a stored log that matches is among those returned.\<close>

lemma GetLogs_serves:
  assumes "modb_lib M blocks" and "list_all (storable D) (blocks (vc_Store v))"
    and "uint256_lib (d_u256 D)" and "txid_lib D" and "\<And>h e. GetRawTransactionVerbose C h \<noteq> Panic e"
    and crit: "crit_BlockHash crit = None" "crit_FromBlock crit = Some b" "crit_ToBlock crit = Some e"
      "crit_Addresses crit \<noteq> [] \<or> crit_Topics crit \<noteq> []" "0 \<le> b" "0 \<le> e" "b < 2 ^ 32" "e + 1 < 2 ^ 32"
    and db: "None \<notin> set (fst (modb_QueryLogs M (crit_Addresses crit) (crit_Topics crit) b (e + 1) (vc_Store v)))"
      "snd (modb_QueryLogs M (crit_Addresses crit) (crit_Topics crit) b (e + 1) (vc_Store v)) = None"
    and hashes: "list_all (\<lambda>m. list_all (\<lambda>l. length (log_TxHash l) = 32) (etx_Logs (decodedTx D m))) (allTxs (blocks (vc_Store v)))"
    and l: "k \<in> set (blocks (vc_Store v))" "b \<le> mblk_Height k" "mblk_Height k \<le> e" "m \<in> set (mblk_TxList k)"
      "l \<in> set (etx_Logs (decodedTx D m))" "wanted (crit_Addresses crit) (crit_Topics crit) (log_Address l) (log_Topics l)"
  obtains logs where "GetLogs latest G (NewBackend D (bchScanner D pick C) (ChainLogDB D M) v) now crit = Ok (G logs)"
    "currentLog C (log_TxHash l) l \<in> set logs"
proof -
  obtain logs where q: "GetLogs latest G (NewBackend D (bchScanner D pick C) (ChainLogDB D M) v) now crit =
      Ok (G (map (\<lambda>l. currentLog C (log_TxHash l) l) logs))"
    and s: "set logs = {l. wanted (crit_Addresses crit) (crit_Topics crit) (log_Address l) (log_Topics l) \<and>
      (\<exists>m \<in> set (txsBetween b (e + 1) (blocks (vc_Store v))). l \<in> set (etx_Logs (decodedTx D m)))}"
    using GetLogs_query [OF assms(1-5) crit db hashes, where pick = pick and G = G and latest = latest and now = now] by blast
  have "m \<in> set (txsBetween b (e + 1) (blocks (vc_Store v)))"
    using l by (auto simp: txsBetween_def allTxs_def)
  then have "l \<in> set logs" unfolding s using l by blast
  then show thesis using that [OF q] by auto
qed

text \<open>What \<open>GetLogs\<close> needs to know of the store holds in every reachable state.\<close>

lemma reachable_served:
  assumes "modb_lib M blocks" and "codec_lib D" and "reachable D E (bchScanners D) (ChainLogDB D M) v0 v"
    and "blocks (vc_Store v0) = []" and "0 \<le> vc_GenesisMainChainBlockHeight v0"
    and "is_i64 (vc_GenesisMainChainBlockHeight v0)" and "txid_lib D"
  shows "list_all (storable D) (blocks (vc_Store v))"
    "list_all (\<lambda>m. list_all (\<lambda>l. length (log_TxHash l) = 32) (etx_Logs (decodedTx D m))) (allTxs (blocks (vc_Store v)))"
proof -
  show "list_all (storable D) (blocks (vc_Store v))"
    using bch_reachable_chainInv [OF assms(1-6)] by (simp add: chainInv_def blocksOk_def)
  have "list_all (\<lambda>l. length (log_TxHash l) = 32) (etx_Logs (decodedTx D m))" if "derivedIn D b m" for b m
    using derivedIn_log_hash [OF assms(2,7) that] by (auto simp: list_all_iff)
  then show "list_all (\<lambda>m. list_all (\<lambda>l. length (log_TxHash l) = 32) (etx_Logs (decodedTx D m))) (allTxs (blocks (vc_Store v)))"
    using reachable_derived [OF assms(3,1,4)] unfolding allTxs_def list_all_iff by fastforce
qed

text \<open>The data of a served log are the stored data packed again with the confirmations of now.\<close>

lemma currentLog_repacked:
  assumes u: "uint256_lib (d_u256 D)" and a: "abi_lib D"
    and "list_all (\<lambda>x. length x = 32) outs" and "list_all (\<lambda>x. length x = 32) ins"
    and "list_all token_ok otoks" and "list_all token_ok itoks"
    and "BuildLogData D c0 outs ins otoks itoks other = Ok (log_Data l)"
  shows "BuildLogData D (word_of_int (confirmationsValue (reported C (rev h)))) outs ins otoks itoks other = Ok (log_Data (currentLog C h l))"
proof -
  obtain rest where rest: "\<And>c. BuildLogData D c outs ins otoks itoks other = Ok (be_bytes 32 (uint c) @ rest)"
    using BuildLogData_head [OF u a assms(3-6)] by metis
  have "uint (word_of_int (confirmationsValue c) :: uint256) = confirmationsValue c" for c
    by (simp add: confirmationsValue_def as_u64_def uint_word_of_int)
  moreover have "log_Data l = be_bytes 32 (uint c0) @ rest" using assms(7) rest by simp
  ultimately show ?thesis by (simp add: currentLog_def rest)
qed

text \<open>The query of the witnesses: the address of the example's EGTX, in block 1.\<close>

definition exQuery :: FilterCriteria where
  "exQuery = noCriteria\<lparr>crit_FromBlock := Some 1, crit_ToBlock := Some 1, crit_Addresses := [fit 20 [1]]\<rparr>"

lemma exQuery_fields:
  "crit_BlockHash exQuery = None" "crit_FromBlock exQuery = Some 1" "crit_ToBlock exQuery = Some 1"
  "crit_Addresses exQuery = [fit 20 [1]]" "crit_Topics exQuery = []"
  by (simp_all add: exQuery_def noCriteria_def)

lemma exQuery_db:
  "None \<notin> set (fst (modb_QueryLogs listModb addrs topics lo hi db))" "snd (modb_QueryLogs listModb addrs topics lo hi db) = None"
  by (auto simp: listModb_def)

text \<open>The round of the example that scans block 1.\<close>

lemma exRound:
  obtains v where "GenerateNewBlock ref_deps exEvent exSc exS 105 True exChain1 = Ok v" "vc_CurrentBlockHeight v = 1"
    "exTx \<in> set (chainTxs exNode (bs_LatestScanBlockHeight (vc_Scanner exChain1) + 1) (bs_LatestScanBlockHeight (vc_Scanner v)))"
    "\<not> isKnownTx (raw_Txid exTx) (vc_Scanner exChain1)" "IsTxMined ref_deps listModb (raw_Txid exTx) (vc_Store exChain1) \<noteq> Ok True"
proof (rule exChain_block)
  fix m b v
  assume g: "GenerateNewBlock ref_deps exEvent exSc exS 105 True exChain1 = Ok v" and b: "vc_Store v = [b]"
    and l: "bs_LatestScanBlockHeight (vc_Scanner v) = 1"
  have s: "vc_Scanner exChain1 = NewBchScanner 1" "vc_Store exChain1 = []" by (simp_all add: exChain1_def exChain0_def)
  have "blockTxs exNode 1 = [exTx]" by (simp add: blockTxs_def fetchBlock_def exNode_def ok_or_def)
  then have "exTx \<in> set (chainTxs exNode (bs_LatestScanBlockHeight (vc_Scanner exChain1) + 1) (bs_LatestScanBlockHeight (vc_Scanner v)))"
    by (simp add: s l chainTxs_def)
  moreover have "vc_CurrentBlockHeight v = 1"
    using bch_reachable_chainInv [OF listModb.modb_lib_axioms ref_codec.codec_lib_axioms exChain_reachable2 [OF g] exChain0_start] b
    by (simp add: chainInv_def headOk_def)
  moreover have "IsTxMined ref_deps listModb (raw_Txid exTx) [] \<noteq> Ok True"
    by (simp add: IsTxMined_def GetTxByHash_def listModb_def allTxs_def)
  ultimately show thesis using that [OF g] by (simp add: s isKnownTx_def)
qed

section \<open>Properties\<close>

text \<open>
  C3: Nothing is invented.  In every reachable state, each transaction of the virtual chain is the
  conversion, for the height and hash of its block, of a transaction that a node served in a block
  or in its mempool.
\<close>

theorem stored_txs_are_derived:
  assumes "modb_lib M blocks" and "reachable D E (bchScanners D) (ChainLogDB D M) v0 v"
    and "blocks (vc_Store v0) = []" and "b \<in> set (blocks (vc_Store v))" and "t \<in> set (mblk_TxList b)"
  shows "\<exists>C tx i. nodeOk D C \<and> servedTx C tx \<and>
    convertUtxoInfoToTx D C tx i (mblk_Height b) (mblk_BlockHash b) = Ok t"
  using reachable_derived [OF assms(2,1,3)] assms(4,5) by (auto simp: list_all_iff derivedIn_def)

theorem stored_txs_are_derived_witness:
  "\<exists>b :: ModbBlock. \<exists>t C tx i. mblk_TxList b = [t] \<and> nodeOk ref_deps C \<and> servedTx C tx \<and>
    convertUtxoInfoToTx ref_deps C tx i (mblk_Height b) (mblk_BlockHash b) = Ok t"
proof (rule exChain_block)
  fix m b v
  assume g: "GenerateNewBlock ref_deps exEvent exSc exS 105 True exChain1 = Ok v" and b: "vc_Store v = [b]" "mblk_TxList b = [m]"
  have "b \<in> set ((\<lambda>db. db) (vc_Store v))" "m \<in> set (mblk_TxList b)" using b by simp_all
  from stored_txs_are_derived [OF listModb.modb_lib_axioms exChain_reachable2 [OF g] exChain0_start(1) this] b(2)
  show ?thesis by (intro exI [of _ b] exI [of _ m]) simp
qed

text \<open>
  C18: \<open>eth_getLogs\<close> is exact.  In every reachable state of the chain, a query for addresses or topics
  on a range of blocks, which the database does not cut off, returns exactly the logs of the stored
  transactions in the range that match, each with the confirmations the node reports now.
\<close>

theorem eth_getLogs_exact:
  assumes "modb_lib M blocks" and "codec_lib D" and "reachable D E (bchScanners D) (ChainLogDB D M) v0 v"
    and "blocks (vc_Store v0) = []" and "0 \<le> vc_GenesisMainChainBlockHeight v0"
    and "is_i64 (vc_GenesisMainChainBlockHeight v0)"
    and "uint256_lib (d_u256 D)" and "txid_lib D" and "\<And>h e. GetRawTransactionVerbose C h \<noteq> Panic e"
    and crit: "crit_BlockHash crit = None" "crit_FromBlock crit = Some b" "crit_ToBlock crit = Some e"
      "crit_Addresses crit \<noteq> [] \<or> crit_Topics crit \<noteq> []" "0 \<le> b" "0 \<le> e" "b < 2 ^ 32" "e + 1 < 2 ^ 32"
    and db: "None \<notin> set (fst (modb_QueryLogs M (crit_Addresses crit) (crit_Topics crit) b (e + 1) (vc_Store v)))"
      "snd (modb_QueryLogs M (crit_Addresses crit) (crit_Topics crit) b (e + 1) (vc_Store v)) = None"
  shows "\<exists>logs. GetLogs latest G (NewBackend D (bchScanner D pick C) (ChainLogDB D M) v) now crit =
      Ok (G (map (\<lambda>l. currentLog C (log_TxHash l) l) logs)) \<and>
    set logs = {l. wanted (crit_Addresses crit) (crit_Topics crit) (log_Address l) (log_Topics l) \<and>
      (\<exists>k \<in> set (blocks (vc_Store v)). b \<le> mblk_Height k \<and> mblk_Height k \<le> e \<and>
        (\<exists>m \<in> set (mblk_TxList k). l \<in> set (etx_Logs (decodedTx D m))))}"
proof -
  have "(\<exists>m \<in> set (txsBetween b (e + 1) (blocks (vc_Store v))). P m) \<longleftrightarrow>
     (\<exists>k \<in> set (blocks (vc_Store v)). b \<le> mblk_Height k \<and> mblk_Height k \<le> e \<and> (\<exists>m \<in> set (mblk_TxList k). P m))" for P
    by (auto simp: txsBetween_def allTxs_def)
  with GetLogs_query [OF assms(1) reachable_served(1) [OF assms(1-6,8)] assms(7-9) crit db reachable_served(2) [OF assms(1-6,8)],
      where pick = pick and G = G and latest = latest and now = now]
  show ?thesis by simp
qed

theorem eth_getLogs_exact_witness:
  "\<exists>v logs. GetLogs (- 2) Some (NewBackend ref_deps exSc exS v) 0 exQuery =
      Ok (Some (map (\<lambda>l. currentLog exNode (log_TxHash l) l) logs)) \<and> logs \<noteq> []"
proof (rule exRound)
  fix v
  assume g: "GenerateNewBlock ref_deps exEvent exSc exS 105 True exChain1 = Ok v" and h: "vc_CurrentBlockHeight v = 1"
    and tx: "exTx \<in> set (chainTxs exNode (bs_LatestScanBlockHeight (vc_Scanner exChain1) + 1) (bs_LatestScanBlockHeight (vc_Scanner v)))"
    and new: "\<not> isKnownTx (raw_Txid exTx) (vc_Scanner exChain1)" "IsTxMined ref_deps listModb (raw_Txid exTx) (vc_Store exChain1) \<noteq> Ok True"
  obtain k m i where k: "k \<in> set (vc_Store v)" "m \<in> set (mblk_TxList k)" "mblk_Height k = vc_CurrentBlockHeight v"
    and conv: "convertUtxoInfoToTx ref_deps exNode exTx i (vc_CurrentBlockHeight v) (vc_CurrentBlockHash v) = Ok m"
    by (rule scanned_egtx_stored [OF listModb.modb_lib_axioms g tx exNode_derives new])
  obtain l where l: "etx_Logs (decodedTx ref_deps m) = [l]" "log_Address l = fit 20 [1]"
    by (rule converted_log [OF ref_codec.codec_lib_axioms conv exTx_Vout exTx_parse]) simp
  obtain logs where logs: "GetLogs (- 2) Some (NewBackend ref_deps exSc exS v) 0 exQuery =
      Ok (Some (map (\<lambda>l. currentLog exNode (log_TxHash l) l) logs))"
    and s: "set logs = {l. wanted [fit 20 [1]] [] (log_Address l) (log_Topics l) \<and>
      (\<exists>k \<in> set (vc_Store v). 1 \<le> mblk_Height k \<and> mblk_Height k \<le> 1 \<and>
        (\<exists>m \<in> set (mblk_TxList k). l \<in> set (etx_Logs (decodedTx ref_deps m))))}"
    using eth_getLogs_exact [OF listModb.modb_lib_axioms ref_codec.codec_lib_axioms exChain_reachable2 [OF g] exChain0_start
      uint256_lib_ref ref_txid.txid_lib_axioms exNode_no_panic exQuery_fields(1-3) _ _ _ _ _ exQuery_db,
      where latest = "- 2" and G = Some and pick = exPick and now = 0] by (auto simp: exQuery_fields)
  have "\<exists>m \<in> set (mblk_TxList k). l \<in> set (etx_Logs (decodedTx ref_deps m))" using k(2) l(1) by (intro bexI [of _ m]) simp_all
  then have "\<exists>k \<in> set (vc_Store v). 1 \<le> mblk_Height k \<and> mblk_Height k \<le> 1 \<and>
      (\<exists>m \<in> set (mblk_TxList k). l \<in> set (etx_Logs (decodedTx ref_deps m)))"
    using k(1,3) h by (intro bexI [of _ k]) simp_all
  then have "l \<in> set logs" unfolding s using l(2) by (simp add: wanted_def)
  with logs show ?thesis by (intro exI [of _ v] exI [of _ logs]) auto
qed

text \<open>
  C1: An EGTX reaches the client.  When a round scans a main chain block with a derivable transaction
  that is not known and not stored yet, then \<open>eth_getLogs\<close>, asked for a range with the new height and
  for addresses and topics that match the EGTX, returns a log with the address and the topics of its
  script, the hash of the transaction, the number and hash of the new block, and as data the
  outputs, the spent outputs, the tokens and the other data of the transaction, packed with the
  confirmations the node reports at the time of the query.  The database must not cut the query off.
\<close>

theorem egtx_is_served:
  assumes "modb_lib M blocks" and "codec_lib D" and r: "reachable D E (bchScanners D) (ChainLogDB D M) v0 v"
    and "blocks (vc_Store v0) = []" and "0 \<le> vc_GenesisMainChainBlockHeight v0"
    and "is_i64 (vc_GenesisMainChainBlockHeight v0)"
    and "uint256_lib (d_u256 D)" and "txid_lib D" and "abi_lib D"
    and C: "nodeOk D C" and g: "GenerateNewBlock D E (bchScanner D pick C) (ChainLogDB D M) now True v = Ok v'"
    and tx: "tx \<in> set (chainTxs C (bs_LatestScanBlockHeight (vc_Scanner v) + 1) (bs_LatestScanBlockHeight (vc_Scanner v')))"
    and der: "\<And>i height hash. \<exists>m. convertUtxoInfoToTx D C tx i height hash = Ok m"
    and new: "\<not> isKnownTx (raw_Txid tx) (vc_Scanner v)" "IsTxMined D M (raw_Txid tx) (vc_Store v) \<noteq> Ok True"
    and vs: "raw_Vout tx = w # rest" and p: "ParseEGTXNullData D (vhex w) = Ok (ca, ts, od)"
    and C': "\<And>h e. GetRawTransactionVerbose C' h \<noteq> Panic e"
    and crit: "crit_BlockHash crit = None" "crit_FromBlock crit = Some b" "crit_ToBlock crit = Some e"
      "crit_Addresses crit \<noteq> [] \<or> crit_Topics crit \<noteq> []" "0 \<le> b" "b \<le> vc_CurrentBlockHeight v'"
      "vc_CurrentBlockHeight v' \<le> e" "e + 1 < 2 ^ 32"
    and match: "wanted (crit_Addresses crit) (crit_Topics crit) ca ts"
    and db: "None \<notin> set (fst (modb_QueryLogs M (crit_Addresses crit) (crit_Topics crit) b (e + 1) (vc_Store v')))"
      "snd (modb_QueryLogs M (crit_Addresses crit) (crit_Topics crit) b (e + 1) (vc_Store v')) = None"
  shows "\<exists>logs. \<exists>l \<in> set logs. \<exists>spent.
    GetLogs latest G (NewBackend D (bchScanner D pick' C') (ChainLogDB D M) v') now' crit = Ok (G logs) \<and>
    log_Address l = ca \<and> log_Topics l = ts \<and> log_TxHash l = d_HexToHash D (raw_Txid tx) \<and>
    log_BlockNumber l = as_u64 (vc_CurrentBlockHeight v') \<and> log_BlockHash l = vc_CurrentBlockHash v' \<and>
    map (spentOutput D C) (raw_Vin tx) = map Some spent \<and>
    BuildLogData D (word_of_int (confirmationsValue (reported C' (rev (d_HexToHash D (raw_Txid tx))))))
      (map (receiver D) (filter p2 (raw_Vout tx))) (map (receiver D) spent)
      (List.map_filter (outToken D) (filter p2 (raw_Vout tx))) (List.map_filter (outToken D) spent)
      (od @ concat (map (otherElements D) (drop 1 rest))) = Ok (log_Data l)"
proof -
  note r' = reachable.generate [OF r bchScanner_in [OF C] g]
  note served = reachable_served [OF assms(1,2) r' assms(4-6,8)]
  obtain k m i where k: "k \<in> set (blocks (vc_Store v'))" "m \<in> set (mblk_TxList k)" "mblk_Height k = vc_CurrentBlockHeight v'"
    and conv: "convertUtxoInfoToTx D C tx i (vc_CurrentBlockHeight v') (vc_CurrentBlockHash v') = Ok m"
    by (rule scanned_egtx_stored [OF assms(1) g tx der new])
  obtain data spent where sp: "map (spentOutput D C) (raw_Vin tx) = map Some spent"
    and bd: "BuildLogData D (u_NewInt (d_u256 D) 0) (map (receiver D) (filter p2 (raw_Vout tx))) (map (receiver D) spent)
       (List.map_filter (outToken D) (filter p2 (raw_Vout tx))) (List.map_filter (outToken D) spent)
       (od @ concat (map (otherElements D) (drop 1 rest))) = Ok data"
    and lg: "etx_Logs (decodedTx D m) = [\<lparr>log_Address = ca, log_Topics = ts, log_Data = data,
       log_BlockNumber = as_u64 (vc_CurrentBlockHeight v'), log_TxHash = d_HexToHash D (raw_Txid tx), log_TxIndex = as_u64 i,
       log_BlockHash = vc_CurrentBlockHash v'\<rparr>]" (is "_ = [?l]")
    by (rule converted_log [OF assms(2) conv vs p])
  have range: "0 \<le> e" "b < 2 ^ 32" using crit by simp_all
  have mk: "?l \<in> set (etx_Logs (decodedTx D m))" "wanted (crit_Addresses crit) (crit_Topics crit) (log_Address ?l) (log_Topics ?l)"
    using lg match by simp_all
  have at: "b \<le> mblk_Height k" "mblk_Height k \<le> e" using crit k(3) by simp_all
  obtain logs where q: "GetLogs latest G (NewBackend D (bchScanner D pick' C') (ChainLogDB D M) v') now' crit = Ok (G logs)"
    and mem: "currentLog C' (log_TxHash ?l) ?l \<in> set logs"
    by (rule GetLogs_serves [OF assms(1) served(1) assms(7,8) C' crit(1-5) range crit(8) db served(2) k(1) at k(2) mk])
  have "BuildLogData D (word_of_int (confirmationsValue (reported C' (rev (d_HexToHash D (raw_Txid tx))))))
      (map (receiver D) (filter p2 (raw_Vout tx))) (map (receiver D) spent)
      (List.map_filter (outToken D) (filter p2 (raw_Vout tx))) (List.map_filter (outToken D) spent)
      (od @ concat (map (otherElements D) (drop 1 rest))) = Ok (log_Data (currentLog C' (log_TxHash ?l) ?l))"
    using currentLog_repacked [OF assms(7,9), where l = ?l and h = "log_TxHash ?l" and C = C'] bd outTokens_ok [of D]
    by (simp add: list_all_length)
  moreover have "log_Address (currentLog C' h x) = log_Address x" "log_Topics (currentLog C' h x) = log_Topics x"
    "log_TxHash (currentLog C' h x) = log_TxHash x" "log_BlockNumber (currentLog C' h x) = log_BlockNumber x"
    "log_BlockHash (currentLog C' h x) = log_BlockHash x" for h x by (simp_all add: currentLog_def)
  ultimately show ?thesis
    using q sp by (intro exI [of _ logs] bexI [OF _ mem] exI [of _ spent]) simp
qed

theorem egtx_is_served_witness:
  "\<exists>v logs. \<exists>l \<in> set logs. GetLogs (- 2) Some (NewBackend ref_deps exSc exS v) 0 exQuery = Ok (Some logs) \<and>
    log_Address l = fit 20 [1] \<and> log_Topics l = [fit 32 [2], fit 32 [3]] \<and> log_TxHash l = d_HexToHash ref_deps (raw_Txid exTx)"
proof (rule exRound)
  fix v
  assume g: "GenerateNewBlock ref_deps exEvent exSc exS 105 True exChain1 = Ok v" and h: "vc_CurrentBlockHeight v = 1"
    and tx: "exTx \<in> set (chainTxs exNode (bs_LatestScanBlockHeight (vc_Scanner exChain1) + 1) (bs_LatestScanBlockHeight (vc_Scanner v)))"
    and new: "\<not> isKnownTx (raw_Txid exTx) (vc_Scanner exChain1)" "IsTxMined ref_deps listModb (raw_Txid exTx) (vc_Store exChain1) \<noteq> Ok True"
  have "wanted (crit_Addresses exQuery) (crit_Topics exQuery) (fit 20 [1]) [fit 32 [2], fit 32 [3]]"
    by (simp add: exQuery_fields wanted_def)
  from egtx_is_served [OF listModb.modb_lib_axioms ref_codec.codec_lib_axioms exChain_reachable exChain0_start uint256_lib_ref
      ref_txid.txid_lib_axioms ref_abi.abi_lib_axioms exNode_ok g tx exNode_derives new exTx_Vout exTx_parse exNode_no_panic
      exQuery_fields(1-3) _ _ _ _ _ this exQuery_db, where latest = "- 2" and G = Some and pick' = exPick and now' = 0] h
  show ?thesis by (auto simp: exQuery_fields)
qed

end
