(* ===== verification/Test_Doubles.thy ===== *)
theory Test_Doubles
  imports Lifecycle Filter_Api
begin

text \<open>
  The doubles the tests are built from: \<open>testutils\<close>, \<open>testchain\<close>, \<open>bch/mock.go\<close> and \<open>scanner/mocks.go\<close>.
  The lemmas give the doubles the meaning the tests take from them: a built block is well formed, so
  that the store finds what was put into it, and a test chain serves the transactions it is given
  through the real chain, store and RPC service.
\<close>

section \<open>testutils\<close>

definition ToMdbLogs :: "EvmLog list \<Rightarrow> ModbLog list" where
  "ToMdbLogs logs = map (\<lambda>log. \<lparr>mlog_Address = log_Address log, mlog_Topics = log_Topics log\<rparr>) logs"

text \<open>\<open>Bloom.Add\<close> of go-ethereum is the parameter \<open>A\<close>.\<close>

definition createBloom :: "(bytes \<Rightarrow> bytes \<Rightarrow> bytes) \<Rightarrow> ModbTx list \<Rightarrow> bytes" where
  "createBloom A txList =
     fold (\<lambda>tx. fold (\<lambda>log bin. fold A (mlog_Topics log) (A (mlog_Address log) bin)) (mtx_LogList tx)) txList (zeros 256)"

record MdbBlockBuilder =
  bb_block :: EvmBlock
  bb_txs :: "EvmTx list"

definition zeroBlock :: EvmBlock where
  "zeroBlock =
     \<lparr>eblk_Number = 0, eblk_Hash = zeros 32, eblk_ParentHash = zeros 32, eblk_TransactionsRoot = zeros 32,
      eblk_StateRoot = zeros 32, eblk_Miner = zeros 20, eblk_Size = 0, eblk_GasUsed = 0, eblk_Timestamp = 0,
      eblk_Transactions = [], eblk_LogsBloom = zeros 256\<rparr>"

definition zeroTx :: EvmTx where
  "zeroTx =
     \<lparr>etx_Hash = zeros 32, etx_TransactionIndex = 0, etx_Nonce = 0, etx_BlockHash = zeros 32, etx_BlockNumber = 0,
      etx_From = zeros 20, etx_To = zeros 20, etx_Value = zeros 32, etx_GasPrice = zeros 32, etx_Gas = 0, etx_Input = [],
      etx_Logs = [], etx_Status = 0, etx_StatusStr = [], etx_OutData = []\<rparr>"

definition NewMdbBlockBuilder :: MdbBlockBuilder where
  "NewMdbBlockBuilder = \<lparr>bb_block = zeroBlock, bb_txs = []\<rparr>"

definition bbHeight :: "int \<Rightarrow> MdbBlockBuilder \<Rightarrow> MdbBlockBuilder" where
  "bbHeight h bb = bb\<lparr>bb_block := (bb_block bb)\<lparr>eblk_Number := h\<rparr>\<rparr>"

definition bbHash :: "bytes \<Rightarrow> MdbBlockBuilder \<Rightarrow> MdbBlockBuilder" where
  "bbHash hash bb = bb\<lparr>bb_block := (bb_block bb)\<lparr>eblk_Hash := hash\<rparr>\<rparr>"

text \<open>What the three methods that add a transaction share.\<close>

definition bbAppend :: "EvmTx \<Rightarrow> MdbBlockBuilder \<Rightarrow> MdbBlockBuilder" where
  "bbAppend tx bb =
     bb\<lparr>bb_block := (bb_block bb)\<lparr>eblk_Transactions := eblk_Transactions (bb_block bb) @ [etx_Hash tx]\<rparr>,
       bb_txs := bb_txs bb @ [tx]\<rparr>"

text \<open>The loop over the logs in \<open>Tx\<close> assigns to copies of them, so that the logs stay as they are.\<close>

definition bbTx :: "bytes \<Rightarrow> EvmLog list \<Rightarrow> MdbBlockBuilder \<Rightarrow> MdbBlockBuilder" where
  "bbTx txHash logs bb =
     bbAppend (zeroTx\<lparr>etx_BlockHash := eblk_Hash (bb_block bb), etx_BlockNumber := eblk_Number (bb_block bb),
       etx_Hash := txHash, etx_Logs := logs, etx_Status := 1\<rparr>) bb"

definition bbFailedTx :: "bytes \<Rightarrow> bytes \<Rightarrow> bytes \<Rightarrow> MdbBlockBuilder \<Rightarrow> MdbBlockBuilder" where
  "bbFailedTx txHash statusStr outData bb =
     bbAppend (zeroTx\<lparr>etx_BlockHash := eblk_Hash (bb_block bb), etx_BlockNumber := eblk_Number (bb_block bb),
       etx_Hash := txHash, etx_Status := 0, etx_StatusStr := statusStr, etx_OutData := outData\<rparr>) bb"

definition bbTxWithAddr :: "bytes \<Rightarrow> bytes \<Rightarrow> bytes \<Rightarrow> MdbBlockBuilder \<Rightarrow> MdbBlockBuilder" where
  "bbTxWithAddr txHash fromAddr toAddr bb =
     bbAppend (zeroTx\<lparr>etx_BlockHash := eblk_Hash (bb_block bb), etx_BlockNumber := eblk_Number (bb_block bb),
       etx_Hash := txHash, etx_From := fromAddr, etx_To := toAddr\<rparr>) bb"

text \<open>A transaction as the database keeps it; the error of the encoder is dropped.\<close>

definition toMdbTx :: "deps \<Rightarrow> EvmTx \<Rightarrow> ModbTx" where
  "toMdbTx D tx =
     \<lparr>mtx_HashId = etx_Hash tx, mtx_SrcAddr = etx_From tx, mtx_DstAddr = etx_To tx,
      mtx_Content = ok_or [] (d_MarshalTx D tx), mtx_LogList = ToMdbLogs (etx_Logs tx)\<rparr>"

definition bbBuild :: "deps \<Rightarrow> (bytes \<Rightarrow> bytes \<Rightarrow> bytes) \<Rightarrow> MdbBlockBuilder \<Rightarrow> ModbBlock" where
  "bbBuild D A bb =
     (let mdbTxList = map (toMdbTx D) (bb_txs bb);
          block = (bb_block bb)\<lparr>eblk_LogsBloom := createBloom A mdbTxList\<rparr>;
          blockInfo = ok_or [] (d_MarshalBlock D block)
      in \<lparr>mblk_Height = eblk_Number block, mblk_BlockHash = eblk_Hash block, mblk_BlockInfo = blockInfo,
          mblk_TxList = mdbTxList\<rparr>)"

text \<open>\<open>testutils/filter_builder.go\<close> and \<open>testutils/filters.go\<close>.\<close>

definition NewFilterBuilder :: FilterCriteria where
  "NewFilterBuilder = noCriteria"

definition fbBlockHash :: "bytes \<Rightarrow> FilterCriteria \<Rightarrow> FilterCriteria" where
  "fbBlockHash hash crit = crit\<lparr>crit_BlockHash := Some hash\<rparr>"

definition fbBlockRange :: "int \<Rightarrow> int \<Rightarrow> FilterCriteria \<Rightarrow> FilterCriteria" where
  "fbBlockRange lo hi crit = crit\<lparr>crit_FromBlock := Some lo, crit_ToBlock := Some hi\<rparr>"

definition fbAddresses :: "bytes list \<Rightarrow> FilterCriteria \<Rightarrow> FilterCriteria" where
  "fbAddresses addrs crit = crit\<lparr>crit_Addresses := addrs\<rparr>"

definition fbTopics :: "bytes list list \<Rightarrow> FilterCriteria \<Rightarrow> FilterCriteria" where
  "fbTopics topics crit = crit\<lparr>crit_Topics := topics\<rparr>"

definition NewBlockHashFilter :: "bytes option \<Rightarrow> bytes list \<Rightarrow> FilterCriteria" where
  "NewBlockHashFilter hash addresses = noCriteria\<lparr>crit_BlockHash := hash, crit_Addresses := addresses\<rparr>"

definition NewBlockRangeFilter :: "int \<Rightarrow> int \<Rightarrow> FilterCriteria" where
  "NewBlockRangeFilter lo hi = noCriteria\<lparr>crit_FromBlock := Some lo, crit_ToBlock := Some hi\<rparr>"

definition NewAddressFilter :: "bytes list \<Rightarrow> FilterCriteria" where
  "NewAddressFilter addrs = noCriteria\<lparr>crit_Addresses := addrs\<rparr>"

definition NewTopicsFilter :: "bytes list list \<Rightarrow> FilterCriteria" where
  "NewTopicsFilter topics = noCriteria\<lparr>crit_Topics := topics\<rparr>"

section \<open>testchain\<close>

record FakeScanner =
  fk_newTxs :: "EvmTx list"

definition fakeGetNewTxs :: "deps \<Rightarrow> int \<Rightarrow> bytes \<Rightarrow> bool \<Rightarrow> FakeScanner \<Rightarrow> ModbTx list \<times> FakeScanner" where
  "fakeGetNewTxs D blockHeight hash scanBlock s =
     (map (\<lambda>mevmTx. toMdbTx D (mevmTx\<lparr>etx_BlockNumber := blockHeight, etx_BlockHash := hash\<rparr>)) (fk_newTxs s),
      s\<lparr>fk_newTxs := []\<rparr>)"

definition fakeScanner :: "deps \<Rightarrow> FakeScanner IScanner" where
  "fakeScanner D =
     \<lparr>sc_GetNewTxs = (\<lambda>isTxMined height hash scanBlock s. Ok (fakeGetNewTxs D height hash scanBlock s)),
      sc_GetConfirmations = (\<lambda>txHash s. Ok 0),
      sc_SetLatestScanHeight = (\<lambda>blockHeight s. s),
      sc_GetLatestScanHeight = (\<lambda>s. 0)\<rparr>"

text \<open>
  The database is opened in the directory \<open>./testdb\<close> after removing what is there (\<open>os.RemoveAll\<close> is a
  parameter), and the chain is registered as in the program.
\<close>

definition dbPath :: string where
  "dbPath = ''./testdb''"

definition CreateTestChain ::
  "('fs, 'db) modb_files \<Rightarrow> (string \<Rightarrow> string \<Rightarrow> string) \<Rightarrow> (string \<Rightarrow> 'fs \<Rightarrow> 'fs) \<Rightarrow> int \<Rightarrow> 'fs \<Rightarrow>
   (FakeScanner, 'db) VirtualChain ChainLogs \<times> (FakeScanner, 'db) VirtualChain \<times> 'fs" where
  "CreateTestChain F join RemoveAll nowNano fs =
     (let fs = RemoveAll dbPath fs;
          cfg = DefaultConfig;
          bchChainConfig = NewBchChainConfig cfg [] 0;
          cfg = RegisterChainConfig (cc_ChainName bchChainConfig) bchChainConfig cfg;
          (s, fs) = NewChainLogDB F join nowNano dbPath 10000 fs;
          a = NewChainLogs cfg;
          vc = \<lparr>vc_Scanner = \<lparr>fk_newTxs = []\<rparr>, vc_Store = s, vc_BlockInterval = 5,
                vc_ChainName = cc_ChainName bchChainConfig, vc_ChainID = cc_ChainId bchChainConfig,
                vc_GenesisMainChainBlockHeight = 0, vc_PrevBlockHash = zeros 32, vc_CurrentBlockHeight = 0,
                vc_CurrentBlockTimestamp = 0, vc_CurrentBlockHash = zeros 32, vc_chainFeed = [], vc_logsFeed = []\<rparr>
      in (RegisterChain (cc_ChainName bchChainConfig) vc a, vc, fs))"

definition Destroy ::
  "('fs, 'db) modb_files \<Rightarrow> (string \<Rightarrow> 'fs \<Rightarrow> 'fs) \<Rightarrow> (FakeScanner, 'db) VirtualChain \<Rightarrow> 'fs \<Rightarrow> (FakeScanner, 'db) VirtualChain \<times> 'fs" where
  "Destroy F RemoveAll tc fs = (tc\<lparr>vc_Store := Close F (vc_Store tc)\<rparr>, RemoveAll dbPath fs)"

definition testAddTx :: "bytes \<Rightarrow> EvmLog list \<Rightarrow> (FakeScanner, 'db) VirtualChain \<Rightarrow> (FakeScanner, 'db) VirtualChain" where
  "testAddTx txHash logs tc =
     tc\<lparr>vc_Scanner := (vc_Scanner tc)\<lparr>fk_newTxs := fk_newTxs (vc_Scanner tc) @ [zeroTx\<lparr>etx_Hash := txHash, etx_Logs := logs\<rparr>]\<rparr>\<rparr>"

text \<open>\<open>AddBlock(nil)\<close> makes the database finish what it does with the block before.\<close>

definition GenNewBlock ::
  "deps \<Rightarrow> (ModbBlock \<Rightarrow> ChainEvent) \<Rightarrow> 'db IStore \<Rightarrow> int \<Rightarrow> (FakeScanner, 'db) VirtualChain \<Rightarrow>
   ((int \<times> bytes) \<times> (FakeScanner, 'db) VirtualChain) outcome" where
  "GenNewBlock D E S now tc =
     (case GenerateNewBlock D E (fakeScanner D) S now True tc of
        Err e \<Rightarrow> Err e
      | Panic e \<Rightarrow> Panic e
      | Ok tc \<Rightarrow>
        (let tc = tc\<lparr>vc_Store := st_AddBlock S None (vc_Store tc)\<rparr>
         in Ok ((vc_CurrentBlockHeight tc, vc_CurrentBlockHash tc), tc)))"

definition testNewBackend :: "deps \<Rightarrow> 'db IStore \<Rightarrow> (FakeScanner, 'db) VirtualChain \<Rightarrow> BackendService" where
  "testNewBackend D S tc = NewBackend D (fakeScanner D) S tc"

section \<open>bch/mock.go\<close>

text \<open>Methods return a value, nil for a pointer that is not there, and an error; \<open>'go\<close> is \<open>btcjson.GetTxOutResult\<close>.\<close>

record 'go MockClient =
  mk_txs :: "bytes list"
  mk_txByHash :: "bytes \<rightharpoonup> TxRawResult"
  mk_txToAccept :: "string \<rightharpoonup> bool"
  mk_txToSend :: "string \<rightharpoonup> bytes"
  mk_txOuts :: "bytes \<rightharpoonup> 'go"

definition mockAddTx :: "bytes \<Rightarrow> TxRawResult \<Rightarrow> 'go MockClient \<Rightarrow> 'go MockClient" where
  "mockAddTx txHash tx m = m\<lparr>mk_txs := mk_txs m @ [txHash], mk_txByHash := (mk_txByHash m)(txHash \<mapsto> tx)\<rparr>"

definition mockAddTxToAccept :: "string \<Rightarrow> 'go MockClient \<Rightarrow> 'go MockClient" where
  "mockAddTxToAccept rawTx m = m\<lparr>mk_txToAccept := (mk_txToAccept m)(rawTx \<mapsto> True)\<rparr>"

definition mockAddTxToSend :: "string \<Rightarrow> bytes \<Rightarrow> 'go MockClient \<Rightarrow> 'go MockClient" where
  "mockAddTxToSend rawTx txHash m = m\<lparr>mk_txToSend := (mk_txToSend m)(rawTx \<mapsto> txHash)\<rparr>"

definition outKey :: "bytes \<Rightarrow> nat \<Rightarrow> bytes" where
  "outKey txHash index = (copy_into (zeros 33) 0 33 txHash)[32 := of_nat index]"

definition mockAddTxOut :: "bytes \<Rightarrow> nat \<Rightarrow> 'go \<Rightarrow> 'go MockClient \<Rightarrow> 'go MockClient" where
  "mockAddTxOut txHash index result m = m\<lparr>mk_txOuts := (mk_txOuts m)(outKey txHash index \<mapsto> result)\<rparr>"

definition mockGetBlockVerboseTx :: "bytes \<Rightarrow> 'go MockClient \<Rightarrow> TxRawResult list option \<times> goerr option" where
  "mockGetBlockVerboseTx hash m = (None, None)"

definition mockGetBlockCount :: "'go MockClient \<Rightarrow> int \<times> goerr option" where
  "mockGetBlockCount m = (0, None)"

definition mockGetBlockHash :: "int \<Rightarrow> 'go MockClient \<Rightarrow> bytes option \<times> goerr option" where
  "mockGetBlockHash blockHeight m = (None, None)"

definition mockGetRawMempool :: "'go MockClient \<Rightarrow> bytes list \<times> goerr option" where
  "mockGetRawMempool m = (mk_txs m, None)"

text \<open>\<open>txHash.String()\<close> is \<open>d_HashString\<close>.\<close>

definition mockGetRawTransactionVerbose :: "deps \<Rightarrow> bytes \<Rightarrow> 'go MockClient \<Rightarrow> TxRawResult option \<times> goerr option" where
  "mockGetRawTransactionVerbose D txHash m =
     (case mk_txByHash m txHash of
        None \<Rightarrow> (None, Some (ErrorString (''tx not found: '' @ d_HashString D txHash)))
      | Some res \<Rightarrow> (Some res, None))"

definition mockGetTransaction :: "bytes \<Rightarrow> 'go MockClient \<Rightarrow> 'gt option \<times> goerr option" where
  "mockGetTransaction txHash m = (None, None)"

definition mockTestMempoolAccept :: "bytes \<Rightarrow> 'go MockClient \<Rightarrow> bool \<times> goerr option" where
  "mockTestMempoolAccept rawTx m =
     (case mk_txToAccept m (hexEncodeToString rawTx) of None \<Rightarrow> False | Some b \<Rightarrow> b, None)"

definition mockSendRawTransaction :: "bytes \<Rightarrow> 'go MockClient \<Rightarrow> bytes option \<times> goerr option" where
  "mockSendRawTransaction rawTx m = (mk_txToSend m (hexEncodeToString rawTx), None)"

definition mockGetTxOut :: "bytes \<Rightarrow> nat \<Rightarrow> bool \<Rightarrow> 'go MockClient \<Rightarrow> 'go option \<times> goerr option" where
  "mockGetTxOut txHash index mempool m = (mk_txOuts m (outKey txHash index), None)"

text \<open>The mock as the node of the scanner, which uses the answers as \<open>retryingNode\<close> says.\<close>

definition mockNode :: "deps \<Rightarrow> 'go MockClient \<Rightarrow> BchClient" where
  "mockNode D m =
     \<lparr>GetRawMempool = valueOf (mockGetRawMempool m, 0),
      GetRawTransactionVerbose = (\<lambda>h. answer (mockGetRawTransactionVerbose D h m, 0)),
      GetBlockCount = valueOf (mockGetBlockCount m, 0),
      GetBlockHash = (\<lambda>n. answer (mockGetBlockHash n m, 0)),
      GetBlockVerboseTx = (\<lambda>h. answer (mockGetBlockVerboseTx h m, 0))\<rparr>"

section \<open>scanner/mocks.go\<close>

text \<open>A nil map is \<open>None\<close>; assigning to it panics, reading it finds nothing.\<close>

record MockStore =
  ms_txByHash :: "(string \<rightharpoonup> EvmTx) option"
  ms_blkByHash :: "(bytes \<rightharpoonup> ModbBlock) option"
  ms_blkByHeight :: "(int \<rightharpoonup> ModbBlock) option"
  ms_latestHeight :: int
  ms_timestamp :: int
  ms_latestBlkHash :: bytes

definition msAddBlock :: "int \<Rightarrow> ModbBlock option \<Rightarrow> MockStore \<Rightarrow> MockStore outcome" where
  "msAddBlock now blk m =
     (case blk of
        None \<Rightarrow> Panic (ErrorString ''invalid memory address or nil pointer dereference'')
      | Some blk \<Rightarrow>
        (case ms_blkByHash m of
           None \<Rightarrow> Panic (ErrorString ''assignment to entry in nil map'')
         | Some byHash \<Rightarrow>
           (case ms_blkByHeight m of
              None \<Rightarrow> Panic (ErrorString ''assignment to entry in nil map'')
            | Some byHeight \<Rightarrow>
              Ok (m\<lparr>ms_blkByHash := Some (byHash(mblk_BlockHash blk \<mapsto> blk)),
                    ms_blkByHeight := Some (byHeight(mblk_Height blk \<mapsto> blk)),
                    ms_latestBlkHash := mblk_BlockHash blk, ms_latestHeight := mblk_Height blk, ms_timestamp := now\<rparr>))))"

definition msIsTxMined :: "string \<Rightarrow> MockStore \<Rightarrow> bool" where
  "msIsTxMined txHash m = (case ms_txByHash m of None \<Rightarrow> False | Some f \<Rightarrow> f txHash \<noteq> None)"

definition msGetBlockByHeight :: "int \<Rightarrow> MockStore \<Rightarrow> EvmBlock option outcome" where
  "msGetBlockByHeight height m = Panic (ErrorString ''implement me'')"

definition msGetTxByHash :: "bytes \<Rightarrow> MockStore \<Rightarrow> (EvmTx option \<times> bytes) \<times> goerr option" where
  "msGetTxByHash txHash m = ((None, zeros 65), None)"

definition msGetLatestBlockInfo :: "MockStore \<Rightarrow> int \<times> int \<times> bytes \<times> int" where
  "msGetLatestBlockInfo m = (0, 0, zeros 32, 0)"

definition msGetBlockByHash :: "bytes \<Rightarrow> MockStore \<Rightarrow> EvmBlock option \<times> goerr option" where
  "msGetBlockByHash blkHash m = (None, None)"

definition msGetTxListByHeightWithRange :: "int \<Rightarrow> int \<Rightarrow> int \<Rightarrow> MockStore \<Rightarrow> (EvmTx list \<times> bytes list) \<times> goerr option" where
  "msGetTxListByHeightWithRange height start end' m = (([], []), None)"

definition msQueryLogs :: "bytes list \<Rightarrow> bytes list list \<Rightarrow> int \<Rightarrow> int \<Rightarrow> MockStore \<Rightarrow> EvmLog list \<times> goerr option" where
  "msQueryLogs addresses topics startHeight endHeight m = ([], None)"

section \<open>Built blocks\<close>

lemma toMdbTx_decoded:
  assumes "codec_lib D"
  shows "d_UnmarshalTx D (mtx_Content (toMdbTx D tx)) = Ok tx" "decodedTx D (toMdbTx D tx) = tx"
  using codec_lib.tx_codec [OF assms, of tx] by (auto simp: toMdbTx_def ok_or_def decodedTx_def)

lemma toMdbTx_storable:
  assumes "codec_lib D" and "list_all (\<lambda>l. length (log_Topics l) \<le> 4) (etx_Logs tx)"
  shows "storableTx D (toMdbTx D tx)"
  using assms(2) toMdbTx_decoded(1) [OF assms(1), of tx] by (simp add: storableTx_def) (simp add: toMdbTx_def ToMdbLogs_def)

lemma bbBuild_storable:
  assumes "codec_lib D" and "list_all (\<lambda>tx. list_all (\<lambda>l. length (log_Topics l) \<le> 4) (etx_Logs tx)) (bb_txs bb)"
  shows "storable D (bbBuild D A bb)"
proof -
  let ?b = "(bb_block bb)\<lparr>eblk_LogsBloom := createBloom A (map (toMdbTx D) (bb_txs bb))\<rparr>"
  obtain bs where bs: "d_MarshalBlock D ?b = Ok bs" "bs \<noteq> []" "d_UnmarshalBlock D bs = Ok ?b"
    using codec_lib.block_codec [OF assms(1)] by blast
  then have "ok_or [] (d_MarshalBlock D ?b) = bs" by (simp add: ok_or_def)
  moreover have "list_all (storableTx D) (map (toMdbTx D) (bb_txs bb))"
    using assms(2) toMdbTx_storable [OF assms(1)] by (auto simp: list_all_iff)
  ultimately show ?thesis using bs by (simp add: bbBuild_def storable_def Let_def)
qed

text \<open>
  What \<open>TestGetTx\<close> checks on one block: a block put together with the builder and added to the store is
  found under its height, and each transaction under its hash.
\<close>

lemma built_block_found:
  assumes "modb_lib M blocks" and "codec_lib D" and "list_all (storable D) (blocks db)"
    and "list_all (\<lambda>tx. list_all (\<lambda>l. length (log_Topics l) \<le> 4) (etx_Logs tx)) (bb_txs bb)"
    and "tx \<in> set (bb_txs bb)"
  shows "\<exists>e. GetTxByHash D M (etx_Hash tx) (AddBlock M (Some (bbBuild D A bb)) db) = Ok (e, zeros 65) \<and> etx_Hash e = etx_Hash tx"
proof -
  note S = chainlogdb_istore [OF assms(1), of D]
  let ?db = "AddBlock M (Some (bbBuild D A bb)) db"
  have bs: "blocks ?db = blocks db @ [bbBuild D A bb]" using istore.add_block [OF S, of "bbBuild D A bb" db] by simp
  then have all: "list_all (storable D) (blocks ?db)" using assms(3) bbBuild_storable [OF assms(2,4)] by simp
  have "mblk_TxList (bbBuild D A bb) = map (toMdbTx D) (bb_txs bb)" by (simp add: bbBuild_def Let_def)
  then have "toMdbTx D tx \<in> set (allTxs (blocks ?db))" using assms(5) by (simp add: bs allTxs_def)
  from istore.tx_by_hash [OF S all this] obtain t' where t': "t' \<in> set (allTxs (blocks ?db))"
    "mtx_HashId t' = etx_Hash tx" "GetTxByHash D M (etx_Hash tx) ?db = Ok (decodedTx D t', zeros 65)"
    by (auto simp: toMdbTx_def)
  with storable_txs [OF all] storableTx_decoded [of D t'] show ?thesis by auto
qed

section \<open>The test chain\<close>

text \<open>The fake scanner does not keep the contract of a scanner: it forgets the height it is given.\<close>

lemma fakeScanner_no_iscanner: "\<not> iscanner (fakeScanner D) D"
proof
  assume "iscanner (fakeScanner D) D"
  from iscanner.set_get [OF this, of 1] show False by (simp add: fakeScanner_def)
qed

text \<open>A round of the test chain stores the pending transactions in one block.\<close>

lemma GenNewBlock_stores:
  assumes "modb_lib M blocks" and "codec_lib D"
  obtains b tc' where "GenNewBlock D E (ChainLogDB D M) now tc = Ok ((vc_CurrentBlockHeight tc + 1, mblk_BlockHash b), tc')"
    "blocks (vc_Store tc') = blocks (vc_Store tc) @ [b]" "mblk_Height b = vc_CurrentBlockHeight tc + 1"
    "mblk_BlockHash b = blockHash (vc_ChainName tc) (vc_CurrentBlockHeight tc)"
    "mblk_TxList b = map (\<lambda>tx. toMdbTx D (tx\<lparr>etx_BlockNumber := mblk_Height b, etx_BlockHash := mblk_BlockHash b\<rparr>))
       (fk_newTxs (vc_Scanner tc))"
    "mblk_BlockInfo b \<noteq> []" "eblk_Number (decodedBlock D b) = mblk_Height b" "eblk_Hash (decodedBlock D b) = mblk_BlockHash b"
    "d_UnmarshalBlock D (mblk_BlockInfo b) = Ok (decodedBlock D b)"
proof -
  let ?hash = "blockHash (vc_ChainName tc) (vc_CurrentBlockHeight tc)"
  let ?txs = "map (\<lambda>tx. toMdbTx D (tx\<lparr>etx_BlockNumber := vc_CurrentBlockHeight tc + 1, etx_BlockHash := ?hash\<rparr>))
      (fk_newTxs (vc_Scanner tc))"
  let ?v = "tc\<lparr>vc_Scanner := (vc_Scanner tc)\<lparr>fk_newTxs := []\<rparr>, vc_CurrentBlockHeight := vc_CurrentBlockHeight tc + 1,
      vc_CurrentBlockTimestamp := now, vc_CurrentBlockHash := ?hash\<rparr>"
  obtain info where info: "d_MarshalBlock D (evmBlockOf ?v 0 ?txs) = Ok info" "info \<noteq> []"
    "d_UnmarshalBlock D info = Ok (evmBlockOf ?v 0 ?txs)"
    using codec_lib.block_codec [OF assms(2)] by blast
  define b where "b = \<lparr>mblk_Height = vc_CurrentBlockHeight tc + 1, mblk_BlockHash = ?hash, mblk_BlockInfo = info, mblk_TxList = ?txs\<rparr>"
  have b: "mblk_Height b = vc_CurrentBlockHeight tc + 1" "mblk_BlockHash b = ?hash" "mblk_BlockInfo b = info" "mblk_TxList b = ?txs"
    by (simp_all add: b_def)
  define v' where "v' = publishNewBlock E b (?v\<lparr>vc_Store := AddBlock M (Some b) (vc_Store tc)\<rparr>)"
  have "GenerateNewBlock D E (fakeScanner D) (ChainLogDB D M) now True tc = Ok v'"
    using info(1) by (simp add: GenerateNewBlock_def fakeScanner_def fakeGetNewTxs_def Let_def b_def v'_def)
  moreover have "vc_CurrentBlockHeight v' = mblk_Height b" "vc_CurrentBlockHash v' = mblk_BlockHash b"
    "vc_Store v' = AddBlock M (Some b) (vc_Store tc)" by (simp_all add: v'_def b)
  ultimately have g: "GenNewBlock D E (ChainLogDB D M) now tc =
      Ok ((vc_CurrentBlockHeight tc + 1, mblk_BlockHash b), v'\<lparr>vc_Store := AddBlock M None (AddBlock M (Some b) (vc_Store tc))\<rparr>)"
    by (simp add: GenNewBlock_def Let_def b)
  have bs: "blocks (AddBlock M None (AddBlock M (Some b) (vc_Store tc))) = blocks (vc_Store tc) @ [b]"
    using istore.add_block [OF chainlogdb_istore [OF assms(1), of D]] istore.add_nil [OF chainlogdb_istore [OF assms(1), of D]]
    by simp
  have "decodedBlock D b = evmBlockOf ?v 0 ?txs" using info(3) by (simp add: decodedBlock_def b)
  then have "eblk_Number (decodedBlock D b) = mblk_Height b" "eblk_Hash (decodedBlock D b) = mblk_BlockHash b"
    "d_UnmarshalBlock D (mblk_BlockInfo b) = Ok (decodedBlock D b)"
    using info(3) by (simp_all add: evmBlockOf_def b)
  then show thesis using that [OF g] bs b info(2) by simp
qed

text \<open>
  C39: The test chain serves what is added to it, which is what \<open>TestBlockNum\<close> and \<open>TestGetTxByHash\<close>
  check.  On a test chain with well-formed blocks and nothing pending, add a transaction with a hash
  that is not stored yet and logs of at most four topics, and generate a block, which ends with
  \<open>AddBlock(nil)\<close>: then eth\_blockNumber is one higher than before, and eth\_getTransactionByHash finds
  the transaction under its hash, with the number and hash of the new block.
\<close>

theorem testchain_serves:
  assumes "modb_lib M blocks" and "codec_lib D"
    and st: "list_all (storable D) (blocks (vc_Store tc))"
    and pend: "fk_newTxs (vc_Scanner tc) = []" and logs: "list_all (\<lambda>l. length (log_Topics l) \<le> 4) logs"
    and new: "h \<notin> mtx_HashId ` set (allTxs (blocks (vc_Store tc)))"
  shows "\<exists>hash tc' resp. GenNewBlock D E (ChainLogDB D M) now (testAddTx h logs tc) =
      Ok ((vc_CurrentBlockHeight tc + 1, hash), tc') \<and>
    ethBlockNumber now' (testNewBackend D (ChainLogDB D M) tc') = Ok (as_u64 (vc_CurrentBlockHeight tc + 1)) \<and>
    ethGetTransactionByHash (testNewBackend D (ChainLogDB D M) tc') h = Ok (Some resp) \<and>
    tr_Hash resp = h \<and> tr_BlockNumber resp = vc_CurrentBlockHeight tc + 1 \<and> tr_BlockHash resp = hash"
proof (rule GenNewBlock_stores [where D = D and M = M and blocks = blocks, OF assms(1,2), where tc = "testAddTx h logs tc" and E = E and now = now])
  note S = chainlogdb_istore [OF assms(1), of D]
  let ?tc = "testAddTx h logs tc"
  fix b tc'
  assume g: "GenNewBlock D E (ChainLogDB D M) now ?tc = Ok ((vc_CurrentBlockHeight ?tc + 1, mblk_BlockHash b), tc')"
    and bs: "blocks (vc_Store tc') = blocks (vc_Store ?tc) @ [b]" and b: "mblk_Height b = vc_CurrentBlockHeight ?tc + 1"
      "mblk_BlockHash b = blockHash (vc_ChainName ?tc) (vc_CurrentBlockHeight ?tc)"
      "mblk_TxList b = map (\<lambda>tx. toMdbTx D (tx\<lparr>etx_BlockNumber := mblk_Height b, etx_BlockHash := mblk_BlockHash b\<rparr>))
         (fk_newTxs (vc_Scanner ?tc))"
      "mblk_BlockInfo b \<noteq> []" "eblk_Number (decodedBlock D b) = mblk_Height b" "eblk_Hash (decodedBlock D b) = mblk_BlockHash b"
      "d_UnmarshalBlock D (mblk_BlockInfo b) = Ok (decodedBlock D b)"
  have tc: "vc_CurrentBlockHeight ?tc = vc_CurrentBlockHeight tc" "vc_Store ?tc = vc_Store tc"
    by (simp_all add: testAddTx_def)
  define e where "e = zeroTx\<lparr>etx_Hash := h, etx_Logs := logs, etx_BlockNumber := mblk_Height b, etx_BlockHash := mblk_BlockHash b\<rparr>"
  have txs: "mblk_TxList b = [toMdbTx D e]" using b(3) by (simp add: testAddTx_def pend e_def)
  have "storableTx D (toMdbTx D e)" using toMdbTx_storable [OF assms(2), of e] logs by (simp add: e_def)
  then have all: "list_all (storable D) (blocks (vc_Store tc'))" using st b(4-7) by (simp add: bs tc txs storable_def)
  have mem: "toMdbTx D e \<in> set (allTxs (blocks (vc_Store tc')))" by (simp add: bs allTxs_def txs)
  have id: "mtx_HashId (toMdbTx D e) = h" by (simp add: toMdbTx_def e_def)
  from istore.tx_by_hash [OF S all mem] obtain t' where "t' \<in> set (allTxs (blocks (vc_Store tc')))" "mtx_HashId t' = h"
    "st_GetTxByHash (ChainLogDB D M) h (vc_Store tc') = Ok (decodedTx D t', zeros 65)" by (auto simp: id)
  moreover from this(1,2) new have "t' = toMdbTx D e" by (auto simp: bs tc allTxs_def txs)
  ultimately have get: "st_GetTxByHash (ChainLogDB D M) h (vc_Store tc') = Ok (e, zeros 65)"
    by (simp add: toMdbTx_decoded [OF assms(2)])
  have "length (mblk_BlockHash b) = 32" using b(2) by (simp add: blockHash_def)
  then have "tr_Hash (txToRpcResp e) = h" "tr_BlockNumber (txToRpcResp e) = mblk_Height b" "tr_BlockHash (txToRpcResp e) = mblk_BlockHash b"
    by (simp_all add: txToRpcResp_def e_def zeroTx_def Let_def copy_into_exact)
  moreover have "ethGetTransactionByHash (testNewBackend D (ChainLogDB D M) tc') h = Ok (Some (txToRpcResp e))"
    using get by (simp add: ethGetTransactionByHash_def testNewBackend_def NewBackend_def GetTx_def)
  moreover have "ethBlockNumber now' (testNewBackend D (ChainLogDB D M) tc') = Ok (as_u64 (vc_CurrentBlockHeight tc + 1))"
    using istore.latest [OF S all, of now'] b(1)
    by (simp add: bs tc ethBlockNumber_def testNewBackend_def NewBackend_def LatestHeight_def)
  ultimately show ?thesis using g b(1) by (auto simp: tc)
qed

text \<open>A test chain as \<open>CreateTestChain\<close> makes it, on an empty database.\<close>

definition exTestChain :: "(FakeScanner, ModbBlock list) VirtualChain" where
  "exTestChain = \<lparr>vc_Scanner = \<lparr>fk_newTxs = []\<rparr>, vc_Store = [], vc_BlockInterval = 5,
     vc_ChainName = ''virtual Bitcoin Cash'', vc_ChainID = convertChainNameToChainId ''virtual Bitcoin Cash'',
     vc_GenesisMainChainBlockHeight = 0, vc_PrevBlockHash = zeros 32, vc_CurrentBlockHeight = 0,
     vc_CurrentBlockTimestamp = 0, vc_CurrentBlockHash = zeros 32, vc_chainFeed = [], vc_logsFeed = []\<rparr>"

theorem testchain_serves_witness:
  "\<exists>hash tc' resp. GenNewBlock ref_deps exEvent exS 100 (testAddTx (replicate 32 3) [] exTestChain) = Ok ((1, hash), tc') \<and>
     ethBlockNumber 200 (testNewBackend ref_deps exS tc') = Ok 1 \<and>
     ethGetTransactionByHash (testNewBackend ref_deps exS tc') (replicate 32 3) = Ok (Some resp) \<and> tr_BlockNumber resp = 1"
proof -
  have tc: "list_all (storable ref_deps) ((\<lambda>db. db) (vc_Store exTestChain))" "fk_newTxs (vc_Scanner exTestChain) = []"
      "list_all (\<lambda>l. length (log_Topics l) \<le> 4) []"
      "replicate 32 3 \<notin> mtx_HashId ` set (allTxs ((\<lambda>db. db) (vc_Store exTestChain)))" "vc_CurrentBlockHeight exTestChain = 0"
    by (simp_all add: exTestChain_def allTxs_def)
  from testchain_serves [OF listModb.modb_lib_axioms ref_codec.codec_lib_axioms tc(1-4), of exEvent 100 200] show ?thesis
    by (auto simp: tc(5) as_u64_def)
qed

section \<open>The mock client\<close>

text \<open>What is added is served: in the mempool and under its hash; and the mock is a node as the scanner expects it.\<close>

lemma mockNode_serves:
  "GetRawMempool (mockNode D (mockAddTx h tx m)) = Ok (mk_txs m @ [h])"
  "GetRawTransactionVerbose (mockNode D (mockAddTx h tx m)) h = Ok tx"
  by (simp_all add: mockNode_def valueOf_def answer_def mockAddTx_def mockGetRawMempool_def mockGetRawTransactionVerbose_def)

lemma mockNode_ok:
  assumes "\<And>h tx. mk_txByHash m h = Some tx \<Longrightarrow> raw_Txid tx = d_HashString D h"
  shows "nodeOk D (mockNode D m)"
  using assms by (auto simp: nodeOk_def mockNode_def valueOf_def answer_def mockGetRawTransactionVerbose_def mockGetBlockCount_def
      is_i64_def split: option.splits)

text \<open>The key of an output keeps only the low byte of its index.\<close>

lemma mock_outputs:
  "mockGetTxOut h i mem (mockAddTxOut h i r m) = (Some r, None)"
  "mockGetTxOut h (i + 256) mem (mockAddTxOut h i r m) = (Some r, None)"
proof -
  have "(of_nat (i + 256) :: byte) = of_nat i" by simp
  then have "outKey h (i + 256) = outKey h i" by (simp only: outKey_def)
  then show "mockGetTxOut h i mem (mockAddTxOut h i r m) = (Some r, None)"
    "mockGetTxOut h (i + 256) mem (mockAddTxOut h i r m) = (Some r, None)"
    by (simp_all add: mockGetTxOut_def mockAddTxOut_def)
qed

end
