(* ===== verification/Https.thy ===== *)
theory Https
  imports Rpc_Server
begin

text \<open>
  The self-signed certificate and the HTTPS server of \<open>rpc/server.go\<close>, and the helpers of \<open>utils/https.go\<close>.
  Keys, signatures and connections belong to \<open>crypto\<close> and \<open>net/http\<close>: they are parameters.
\<close>

section \<open>Certificates\<close>

record certTemplate =
  ct_SerialNumber :: int
  ct_CommonName :: string
  ct_NotAfter :: int
  ct_DNSNames :: "string list"

text \<open>
  \<open>GenerateKey\<close> and \<open>CreateCertificate\<close> with the state of the random generator; \<open>CreateCertificate\<close> takes
  the template, the parent, the public key and the signing key.  Times are in nanoseconds.
\<close>

record ('rnd, 'key, 'pub) cert_ops =
  co_GenerateKey :: "'rnd \<Rightarrow> nat \<Rightarrow> ('key option \<times> goerr option) \<times> 'rnd"
  co_PublicKey :: "'key \<Rightarrow> 'pub"
  co_CreateCertificate :: "'rnd \<Rightarrow> certTemplate \<Rightarrow> certTemplate \<Rightarrow> 'pub \<Rightarrow> 'key \<Rightarrow> (bytes \<times> goerr option) \<times> 'rnd"

record 'key tlsCertificate =
  tc_Certificate :: "bytes list"
  tc_PrivateKey :: 'key

definition tenYears :: int where
  "tenYears = 10 * 365 * 24 * 3600 * 10 ^ 9"

definition serverTemplate :: "string \<Rightarrow> int \<Rightarrow> certTemplate" where
  "serverTemplate serverName now =
     \<lparr>ct_SerialNumber = 0, ct_CommonName = serverName, ct_NotAfter = now + tenYears, ct_DNSNames = [serverName]\<rparr>"

text \<open>
  \<open>CreateCertificate\<close> of \<open>rpc/server.go\<close>: the certificates of the \<open>tls.Config\<close>.  Both errors are dropped; a nil
  key is dereferenced for its public key.
\<close>

definition CreateCertificate ::
  "('rnd, 'key, 'pub) cert_ops \<Rightarrow> string \<Rightarrow> int \<Rightarrow> 'rnd \<Rightarrow> ('key tlsCertificate list \<times> 'rnd) outcome" where
  "CreateCertificate K serverName now rnd =
     (let template = serverTemplate serverName now;
          ((priv, _), rnd) = co_GenerateKey K rnd 2048
      in case priv of
           None \<Rightarrow> Panic NilDereference
         | Some priv \<Rightarrow>
           (let ((cert, _), rnd) = co_CreateCertificate K rnd template template (co_PublicKey K priv) priv
            in Ok ([\<lparr>tc_Certificate = [cert], tc_PrivateKey = priv\<rparr>], rnd)))"

text \<open>The function of the same name in \<open>utils/https.go\<close> returns the certificate and the key, too.\<close>

definition utilsCreateCertificate ::
  "('rnd, 'key, 'pub) cert_ops \<Rightarrow> string \<Rightarrow> int \<Rightarrow> 'rnd \<Rightarrow> ((bytes \<times> 'key \<times> 'key tlsCertificate list) \<times> 'rnd) outcome" where
  "utilsCreateCertificate K serverName now rnd =
     (let template = serverTemplate serverName now;
          ((priv, _), rnd) = co_GenerateKey K rnd 2048
      in case priv of
           None \<Rightarrow> Panic NilDereference
         | Some priv \<Rightarrow>
           (let ((cert, _), rnd) = co_CreateCertificate K rnd template template (co_PublicKey K priv) priv;
                tlsCfg = [\<lparr>tc_Certificate = [cert], tc_PrivateKey = priv\<rparr>]
            in Ok ((cert, priv, tlsCfg), rnd)))"

section \<open>The HTTPS server\<close>

record tmConfig =
  tm_ReadTimeout :: int
  tm_WriteTimeout :: int
  tm_MaxHeaderBytes :: int

record ('h, 'key) httpServer =
  hs_Handler :: 'h
  hs_ReadTimeout :: int
  hs_WriteTimeout :: int
  hs_MaxHeaderBytes :: int
  hs_TLSConfig :: "'key tlsCertificate list"

text \<open>\<open>recoverAndLog\<close> is \<open>tmrpcserver.RecoverAndLogHandler\<close>; \<open>ServeTLS\<close> returns the error it ends with.\<close>

definition ServeTLSWithSelfSignedCertificate ::
  "('rnd, 'key, 'pub) cert_ops \<Rightarrow> ('h \<Rightarrow> 'h) \<Rightarrow> (('h, 'key) httpServer \<Rightarrow> 'l \<Rightarrow> goerr) \<Rightarrow> 'l \<Rightarrow> 'h \<Rightarrow> tmConfig \<Rightarrow> int \<Rightarrow> 'rnd \<Rightarrow>
   (goerr \<times> 'rnd) outcome" where
  "ServeTLSWithSelfSignedCertificate K recoverAndLog ServeTLS listener handler config now rnd =
     (case CreateCertificate K ''smartbch'' now rnd of
        Err e \<Rightarrow> Err e
      | Panic e \<Rightarrow> Panic e
      | Ok (tls, rnd) \<Rightarrow>
        (let s = \<lparr>hs_Handler = recoverAndLog handler, hs_ReadTimeout = tm_ReadTimeout config,
                  hs_WriteTimeout = tm_WriteTimeout config, hs_MaxHeaderBytes = tm_MaxHeaderBytes config, hs_TLSConfig = tls\<rparr>
         in Ok (ServeTLS s listener, rnd)))"

section \<open>Requests\<close>

definition GetQueryParam :: "(string \<rightharpoonup> string list) \<Rightarrow> string \<Rightarrow> string" where
  "GetQueryParam query name =
     (let params = (case query name of None \<Rightarrow> [] | Some ps \<Rightarrow> ps)
      in if length params = 0 then [] else hd params)"

text \<open>
  The client of \<open>HttpsGet\<close>: \<open>get_Do\<close> sends the request with the TLS configuration and the timeout of three seconds, and
  \<open>get_Read\<close> reads the body, which is closed on every way out.
\<close>

record ('tls, 'resp) https_ops =
  get_Do :: "'tls \<Rightarrow> int \<Rightarrow> string \<Rightarrow> 'resp outcome"
  get_StatusCode :: "'resp \<Rightarrow> int"
  get_Status :: "'resp \<Rightarrow> string"
  get_Read :: "'resp \<Rightarrow> bytes outcome"

definition HttpsGet :: "('tls, 'resp) https_ops \<Rightarrow> 'tls \<Rightarrow> string \<Rightarrow> bytes outcome" where
  "HttpsGet G tlsConfig url =
     (case get_Do G tlsConfig (3 * 10 ^ 9) url of
        Err e \<Rightarrow> Err e
      | Panic e \<Rightarrow> Panic e
      | Ok resp \<Rightarrow>
        if get_StatusCode G resp \<noteq> 200 then Err (ErrorString (''http status: '' @ get_Status G resp))
        else get_Read G resp)"

section \<open>Lemmas\<close>

text \<open>The two functions make the same configuration.\<close>

lemma certificates_agree:
  "CreateCertificate K serverName now rnd =
     (case utilsCreateCertificate K serverName now rnd of
        Err e \<Rightarrow> Err e | Panic e \<Rightarrow> Panic e | Ok ((_, _, tlsCfg), rnd) \<Rightarrow> Ok (tlsCfg, rnd))"
  by (simp add: CreateCertificate_def utilsCreateCertificate_def Let_def split: prod.splits option.splits)

text \<open>The certificate signs itself: its own template is the parent, and the key that signs is the one it certifies.\<close>

lemma certificate_self_signed:
  assumes "CreateCertificate K serverName now rnd = Ok (tls, rnd')"
  shows "\<exists>priv cert err e rnd1. tls = [\<lparr>tc_Certificate = [cert], tc_PrivateKey = priv\<rparr>] \<and>
    co_GenerateKey K rnd 2048 = ((Some priv, e), rnd1) \<and>
    co_CreateCertificate K rnd1 (serverTemplate serverName now) (serverTemplate serverName now) (co_PublicKey K priv) priv =
      ((cert, err), rnd')"
  using assms by (auto simp: CreateCertificate_def Let_def split: prod.splits option.splits)

lemma HttpsGet_Ok_iff:
  "HttpsGet G tls url = Ok bs \<longleftrightarrow>
     (\<exists>resp. get_Do G tls (3 * 10 ^ 9) url = Ok resp \<and> get_StatusCode G resp = 200 \<and> get_Read G resp = Ok bs)"
  by (auto simp: HttpsGet_def split: outcome.splits)

end
