(* ===== verification/Spec2Isabelle.thy ===== *)
theory Spec2Isabelle
  imports Filter_Props Filter_Stop Txbuilder Abi End_To_End Test_Doubles Https
begin

text \<open>
  A verification development for chainlogs: a service that watches Bitcoin Cash for EGTX
  transactions, derives EVM transactions with logs from them, keeps these in the blocks of a
  virtual chain, and serves them over the Ethereum JSON-RPC interface.

  \<^bold>\<open>How the program is put together.\<close>  \<open>cmd/chainlogs/main.go\<close> opens the store (\<open>store/store.go\<close>),
  creates a virtual chain (\<open>chains/bch.go\<close>, \<open>chains/adapter.go\<close>) with a scanner (\<open>scanner/bch.go\<close>) over
  a retrying node client (\<open>bch/client.go\<close>), starts the RPC server (\<open>rpc/server.go\<close>) and runs the chain.
  On every tick the chain asks the scanner for new transactions; the scanner reads main chain
  blocks and the mempool from the node, asks the store which transactions are known, and derives
  EVM transactions with \<open>bch/egtx.go\<close> and \<open>bch/abi.go\<close>.  The chain adds a block to the store and sends
  events to its feeds.  The RPC services (\<open>rpc/api\<close>) read the chain through the backend
  (\<open>api/backend.go\<close>) and get the events through the filter system (\<open>rpc/api/filters\<close>).  Apart from
  that, \<open>cmd/txbuilder/main.go\<close> is a command that builds and sends an EGTX.

  \<^bold>\<open>Conventions.\<close>  A Go call gives an \<open>outcome\<close>: a value, an error, or a panic.  Structs are records
  whose fields carry a prefix and the name of the source; arrays are byte lists whose lengths are
  proved.  State is passed explicitly.  Loops are recursive functions; where Go runs several
  goroutines the model is a step relation whose steps are the atomic actions between two blocking
  points.  Code that is not in the repository is a parameter: the record \<open>deps\<close> (with \<open>uint256_ops\<close>
  and \<open>script_ops\<close>), \<open>modb\<close> for the database, \<open>BchClient\<close> and \<open>rpcclient\<close> for the node, \<open>tx_ops\<close> for the
  wallet, \<open>http_ops\<close>, \<open>listen\<close> and \<open>register\<close> for the network, \<open>BaseService\<close> for tendermint's service,
  \<open>modb_files\<close> and \<open>event_ops\<close> for files and feeds.  What the code relies on is stated in the locales
  \<open>uint256_lib\<close>, \<open>script_lib\<close>, \<open>txid_lib\<close>, \<open>codec_lib\<close>, \<open>abi_lib\<close>, \<open>abi_codec\<close>, \<open>modb_lib\<close>, \<open>base_service\<close> and
  \<open>event_lib\<close>, each interpreted on concrete functions, with which the witnesses evaluate.  \<open>modb_lib\<close>
  describes the database when its background indexing has caught up with the last \<open>AddBlock\<close>.

  \<^bold>\<open>Theories and sources.\<close>
  \<^item> \<open>Prelude\<close>, \<open>Go_Lib\<close>, \<open>Uint256\<close>, \<open>Script\<close>, \<open>Sha256\<close>, \<open>Chain_Types\<close>, \<open>Ref_Deps\<close>: errors and outcomes (with
    \<open>types/errors.go\<close>), \<open>copy\<close>, big-endian numbers, hexadecimal strings, \<open>strconv\<close>, \<open>float64\<close> products, the
    interfaces of the libraries, the data of the chain, and concrete libraries for the witnesses.
  \<^item> \<open>Egtx\<close>: \<open>bch/egtx.go\<close>.  The deriving rules of the README on whole scripts, the lengths of address
    and topics, the error of the amounts.  \<open>Abi\<close>: \<open>bch/abi.go\<close>, and what a client unpacks.
  \<^item> \<open>Scanner\<close>, \<open>Scanner_Derive\<close>, \<open>Scanner_Scan\<close>: \<open>scanner/bch.go\<close>.  The first has the definitions, the
    second shows which transactions are derived and what they contain, the third what a scan of
    blocks and mempool delivers, in closed form.
  \<^item> \<open>Client\<close>: \<open>bch/client.go\<close> and \<open>bch/client_raw.go\<close>.  The retry loop returns the first success, so that
    a client over a failing connection is the node.
  \<^item> \<open>Modb\<close>, \<open>Store\<close>: the interface of the database and \<open>store/store.go\<close>; the contract \<open>istore\<close> and that
    \<open>ChainLogDB\<close> keeps it.
  \<^item> \<open>Chain\<close>, \<open>Chain_Props\<close>: \<open>config/config.go\<close>, \<open>chains/adapter.go\<close>, \<open>chains/bch.go\<close>.  The contract
    \<open>iscanner\<close>, kept by the BCH scanner; the reachable states of a chain that generates blocks and
    restarts, and their invariants.  \<open>Chain_Complete\<close> follows the scanner's cache through runs that
    start with an empty one: what it makes the scanner skip is stored or cannot be derived.
  \<^item> \<open>Log_Filter\<close>: \<open>rpc/api/filters/geth_filter.go\<close>, the matching of logs.
  \<^item> \<open>Backend\<close>: \<open>api/backend.go\<close> and \<open>api/service.go\<close>, the queries with current confirmations.
  \<^item> \<open>Event_System\<close>, \<open>Filter_Api\<close>, \<open>Filter_System\<close>: \<open>geth_filter_system.go\<close> and \<open>filter_api.go\<close>; the
    handlers and methods as functions, the goroutines as the state machine \<open>fstep\<close> on \<open>fsys\<close>.
    \<open>Filter_Safety\<close> has the life cycle of a subscription, \<open>Filter_Delivery\<close> that nothing is lost,
    \<open>Filter_Progress\<close> the timers and what can always happen, \<open>Filter_Props\<close> the properties.
    \<open>Filter_Stop\<close> adds the end of the event loop when the chain is stopped.
  \<^item> \<open>Eth_Api\<close>: \<open>rpc/api/eth_api.go\<close> and \<open>rpc/api/types.go\<close>; composed with backend, store and reachable
    chain.
  \<^item> \<open>Rpc_Server\<close>: \<open>rpc/server.go\<close> and \<open>rpc/api/apis.go\<close>; the listeners a server opens and closes, behind
    tendermint's service, which decides when \<open>OnStart\<close> and \<open>OnStop\<close> run.
  \<^item> \<open>Txbuilder\<close>: \<open>cmd/txbuilder/main.go\<close>; what it submits, and that the scanner reads it.
  \<^item> \<open>Program\<close>: \<open>cmd/chainlogs/main.go\<close> and the registry of \<open>chains/adapter.go\<close>; every run of the program
    stays in the reachable states, so that the invariants hold of it, and is a run from an empty cache.
  \<^item> \<open>Lifecycle\<close>: opening and closing in \<open>store/store.go\<close>, \<open>chains/adapter.go\<close>, \<open>api/backend.go\<close> and
    \<open>geth_filter_system.go\<close>; a stopped chain ends the loop of every event system and lets none start.
  \<^item> \<open>End_To_End\<close>: the way of an EGTX from a main chain block through scanner, chain, store, backend and
    filter API to the answer of \<open>eth_getLogs\<close>, and back: where stored transactions come from.
  \<^item> \<open>Test_Doubles\<close>: \<open>testutils\<close>, \<open>testchain\<close>, \<open>bch/mock.go\<close>, \<open>scanner/mocks.go\<close>; built blocks are found in the
    store, and the test chain serves what it is given.  \<open>Https\<close>: the certificate and TLS server of
    \<open>rpc/server.go\<close>, and \<open>utils/https.go\<close>.

  \<^bold>\<open>What is shown.\<close>  End to end: an EGTX of a scanned block is served by \<open>eth_getLogs\<close> with the data its
  script and outputs determine, and nothing is stored that no node served.  Safety: in a run whose
  scanners start with an empty cache, on nodes whose txids determine inputs and outputs, no
  derivable transaction of a scanned block is missed, whether it is seen there first or in the
  mempool, and an unchanged mempool adds no second block; no transaction is in two blocks, blocks
  are numbered without gap, a restart loses nothing that matters, a filter or a subscription gets
  exactly the matching events, a server that was started and stopped leaves nothing open.
  Functional behaviour: which transactions are derived, what they contain, what queries return.
  Round trips: the builder's script through the parser, packed logs through the unpacker, tokens.  Refinement: the program by the state machine, the retrying client by
  the node, a restarted chain by the running one, backend queries by the stored logs.
  Termination: the listing loop of the builder, and by their definitions all other loops.  Where
  the code does something else than it means to, a theorem or lemma says what: among them the
  deadlock of the timeout loop, the calls that hang when the event loop has returned, the panic
  on inputs that are neither P2PKH nor P2SH, the hidden cut-off of a query, the timestamp lost at a
  restart, the parent hash that stays the same, the chain id 0, the second EGTX after a lost reply,
  and the listeners that a failed start leaves open.

  \<^bold>\<open>Bounds and fuel.\<close>  No definition uses fuel.  The retry loop ends by its counter, the loop over
  block heights by the node's height, the range loop of \<open>GetLogs\<close> by the end of the range; the loop
  that lists unspent outputs may run for ever and is a \<open>partial_function (option)\<close>.  \<open>float64\<close> has 53
  bits and an unbounded exponent, which covers the amounts there are.

  \<^bold>\<open>Not modelled.\<close>  Logging, flag parsing and printing; \<open>SetLogger\<close>, \<open>WaitMS\<close> and the signal channel of
  \<open>TrapSignal\<close>; what the cryptographic, HTTP and TLS libraries do with keys and connections; the feeds
  of \<open>go-ethereum/event\<close> beyond the order of what is sent and the end of subscriptions; \<open>generateNewKey\<close>,
  which prints a random key; reads of the database that come before it has indexed the last block;
  the heights of the virtual chain do not wrap around at \<open>2 ^ 63\<close>; and
  \<open>SendTxArgs\<close>, \<open>CallArgs\<close> and \<open>CallDetail\<close>, which are not used.
\<close>

end
